theory Spec2Isabelle
  imports Complex_Main "HOL-Library.Multiset"
begin

section \<open>JavaScript values and the host library\<close>

text \<open>
  A JavaScript string is a sequence of UTF-16 code units; a code unit is modelled
  as a natural number. \<open>js\<close> turns an ASCII literal into such a string.
  A JavaScript number is modelled as a real: the amounts of the dashboard come from
  JSON, which has neither NaN nor the infinities, and a NaN produced by a library call
  (\<open>Date.parse\<close>, \<open>Number\<close>) is the value \<open>None\<close> of an option. The totals of the
  grouping engine are accumulated with the rounding of binary64 addition (\<open>jsAdd\<close>
  below), since a claim is about their sum. The differences the comparators take keep
  their sign under rounding, and the claims about the yearly pivot are about the sign
  and the order of its sums, so these are left exact.
\<close>

type_synonym jstring = "nat list"

definition js :: "string \<Rightarrow> jstring" where
  "js s = map of_char s"

text \<open>The primitive values a field read from the remote store can hold.\<close>

datatype jsval = JUndefined | JNull | JBool bool | JNum real | JStr jstring

text \<open>
  The functions of the JavaScript runtime whose result depends on Unicode tables, on the
  locale data or on the number formatter are parameters of the model:
  \<^item> \<open>toLowerCase\<close>: \<open>String.prototype.toLowerCase\<close>;
  \<^item> \<open>normalizeNFD\<close>: \<open>String.prototype.normalize("NFD")\<close>;
  \<^item> \<open>numberToString\<close>: \<open>String(n)\<close> and a number inside a template literal;
  \<^item> \<open>intlNumber\<close>: \<open>new Intl.NumberFormat("es-ES", {maximumFractionDigits: 2}).format\<close>;
  \<^item> \<open>intlCurrency\<close>: the same formatter with \<open>style: "currency"\<close> and the book's currency;
  \<^item> \<open>localeCompare\<close>: \<open>a.localeCompare(b, "es-ES")\<close>;
  \<^item> \<open>localeCompareBase\<close>: \<open>a.localeCompare(b, "es-ES", {sensitivity: "base"})\<close>;
  \<^item> \<open>dateParse\<close>: \<open>Date.parse\<close>, \<open>None\<close> for NaN;
  \<^item> \<open>toNumber\<close>: \<open>Number(s)\<close> on a string, \<open>None\<close> for NaN;
  \<^item> \<open>getFullYear\<close>: \<open>new Date(s).getFullYear()\<close>, \<open>None\<close> for NaN.
\<close>

record host =
  toLowerCase :: "jstring \<Rightarrow> jstring"
  normalizeNFD :: "jstring \<Rightarrow> jstring"
  numberToString :: "real \<Rightarrow> jstring"
  intlNumber :: "real \<Rightarrow> jstring"
  intlCurrency :: "real \<Rightarrow> jstring"
  localeCompare :: "jstring \<Rightarrow> jstring \<Rightarrow> real"
  localeCompareBase :: "jstring \<Rightarrow> jstring \<Rightarrow> real"
  dateParse :: "jstring \<Rightarrow> real option"
  toNumber :: "jstring \<Rightarrow> real option"
  getFullYear :: "jstring \<Rightarrow> real option"

text \<open>
  White space as \<open>String.prototype.trim\<close> and the regular expression class \<open>\s\<close>
  see it: the ECMAScript WhiteSpace and LineTerminator code units.
\<close>

definition isWhiteSpace :: "nat \<Rightarrow> bool" where
  "isWhiteSpace c \<longleftrightarrow>
     c = 9 \<or> c = 10 \<or> c = 11 \<or> c = 12 \<or> c = 13 \<or> c = 32 \<or> c = 160 \<or> c = 5760 \<or>
     (8192 \<le> c \<and> c \<le> 8202) \<or> c = 8232 \<or> c = 8233 \<or> c = 8239 \<or> c = 8287 \<or>
     c = 12288 \<or> c = 65279"

definition jsTrim :: "jstring \<Rightarrow> jstring" where
  "jsTrim s = rev (dropWhile isWhiteSpace (rev (dropWhile isWhiteSpace s)))"

text \<open>\<open>hay.includes(needle)\<close>: \<open>needle\<close> occurs in \<open>hay\<close> as a contiguous run.\<close>

fun jsIncludes :: "jstring \<Rightarrow> jstring \<Rightarrow> bool" where
  "jsIncludes [] needle = (needle = [])"
| "jsIncludes (c # cs) needle =
     (take (length needle) (c # cs) = needle \<or> jsIncludes cs needle)"

section \<open>Kind resolver\<close>

datatype kind = Ingreso | Gasto

text \<open>
  \<open>normalizeKindLabel\<close> (source lines 37 to 59). \<open>value ?? ""\<close> reads an absent
  text as the empty string; the result \<open>null\<close> is \<open>None\<close>.
\<close>

definition normalizeKindLabel :: "host \<Rightarrow> jstring option \<Rightarrow> kind option" where
  "normalizeKindLabel h v =
     (let tipo = jsTrim (toLowerCase h (case v of None \<Rightarrow> [] | Some s \<Rightarrow> s)) in
      if tipo = [] then None
      else if jsIncludes tipo (js ''ingres'') \<or> jsIncludes tipo (js ''income'') \<or>
              jsIncludes tipo (js ''entrada'') \<or> jsIncludes tipo (js ''abono'')
        then Some Ingreso
      else if jsIncludes tipo (js ''gast'') \<or> jsIncludes tipo (js ''expense'') \<or>
              jsIncludes tipo (js ''salida'') \<or> jsIncludes tipo (js ''cargo'')
        then Some Gasto
      else if tipo = js ''i'' then Some Ingreso
      else if tipo = js ''g'' then Some Gasto
      else None)"

text \<open>
  The movement as the page holds it (type \<open>Movimiento\<close>, with the two fields the
  loader adds from the category). An optional or nullable field is an option; \<open>fijo\<close>
  keeps the raw value, since the yearly view reads it as \<open>unknown\<close>.
\<close>

record Movimiento =
  id_mov :: jstring
  fecha :: jstring
  tipo :: "jstring option"
  importe :: "real option"
  detalle :: "jstring option"
  fijo :: jsval
  categoria_id :: "jstring option"
  categoria_nombre :: "jstring option"
  categoria_kind :: "jstring option"

text \<open>\<open>Number(mov.importe ?? 0)\<close>.\<close>

definition amountOf :: "'a Movimiento_scheme \<Rightarrow> real" where
  "amountOf mov = (case importe mov of None \<Rightarrow> 0 | Some x \<Rightarrow> x)"

text \<open>\<open>resolveKind\<close> (source lines 104 to 115).\<close>

definition resolveKind :: "host \<Rightarrow> 'a Movimiento_scheme \<Rightarrow> kind" where
  "resolveKind h mov =
     (case normalizeKindLabel h (tipo mov) of
        Some tipoKind \<Rightarrow> tipoKind
      | None \<Rightarrow>
          (case normalizeKindLabel h (categoria_kind mov) of
             Some categoryKind \<Rightarrow> categoryKind
           | None \<Rightarrow> (let amount = amountOf mov in if amount < 0 then Gasto else Ingreso)))"

section \<open>Arrays, sets and maps of the runtime\<close>

text \<open>
  \<open>Array.prototype.sort\<close> with a comparator is stable. For a comparator that is a
  consistent ordering the result is the one stable sorted arrangement of the input,
  which a stable insertion sort computes: an element goes before the first element it
  does not compare greater than, and the elements are inserted from the right.
\<close>

fun jsInsert :: "('a \<Rightarrow> 'a \<Rightarrow> real) \<Rightarrow> 'a \<Rightarrow> 'a list \<Rightarrow> 'a list" where
  "jsInsert cmp x [] = [x]"
| "jsInsert cmp x (y # ys) = (if cmp x y \<le> 0 then x # y # ys else y # jsInsert cmp x ys)"

definition jsSort :: "('a \<Rightarrow> 'a \<Rightarrow> real) \<Rightarrow> 'a list \<Rightarrow> 'a list" where
  "jsSort cmp xs = foldr (jsInsert cmp) xs []"

text \<open>
  A \<open>Set\<close> keeps its members in insertion order: \<open>setAdd\<close> is \<open>Set.prototype.add\<close>,
  \<open>setFrom\<close> is \<open>new Set(array)\<close> read back with \<open>Array.from\<close>.
\<close>

definition setAdd :: "'a list \<Rightarrow> 'a \<Rightarrow> 'a list" where
  "setAdd s x = (if x \<in> set s then s else s @ [x])"

definition setFrom :: "'a list \<Rightarrow> 'a list" where
  "setFrom xs = foldl setAdd [] xs"

text \<open>
  A \<open>Map\<close> is an association list in insertion order: \<open>mapGet\<close> is \<open>Map.prototype.get\<close>
  and \<open>mapSet\<close> is \<open>Map.prototype.set\<close>, which keeps the place of a key already present.
\<close>

definition mapGet :: "('k \<times> 'v) list \<Rightarrow> 'k \<Rightarrow> 'v option" where
  "mapGet m k = map_of m k"

fun mapSet :: "('k \<times> 'v) list \<Rightarrow> 'k \<Rightarrow> 'v \<Rightarrow> ('k \<times> 'v) list" where
  "mapSet [] k v = [(k, v)]"
| "mapSet (p # ps) k v = (if fst p = k then (k, v) # ps else p # mapSet ps k v)"

section \<open>Movement classifier\<close>

text \<open>The classified row: the movement with the four fields \<open>movimientoRows\<close> adds.\<close>

record MovRow = Movimiento +
  kind :: kind
  sortValue :: real
  categoryName :: jstring
  detailText :: "jstring option"

definition sinCategoria :: jstring where
  "sinCategoria = js ''Sin categor'' @ [237] @ js ''a''"

definition todas :: jstring where
  "todas = js ''todas''"

definition todos :: jstring where
  "todos = js ''todos''"

text \<open>
  The trimmed detail when the field is a string with something left after trimming
  (source lines 611 to 614).
\<close>

definition detailTextOf :: "jstring option \<Rightarrow> jstring option" where
  "detailTextOf d =
     (case d of
        None \<Rightarrow> None
      | Some s \<Rightarrow> if length (jsTrim s) > 0 then Some (jsTrim s) else None)"

definition withKind :: "host \<Rightarrow> Movimiento \<Rightarrow> MovRow" where
  "withKind h mov =
     (let amount = amountOf mov;
          k = resolveKind h mov;
          cname = (case categoria_nombre mov of None \<Rightarrow> sinCategoria | Some n \<Rightarrow> n);
          dtext = detailTextOf (detalle mov)
      in \<lparr> id_mov = id_mov mov, fecha = fecha mov, tipo = tipo mov, importe = importe mov,
           detalle = detalle mov, fijo = fijo mov, categoria_id = categoria_id mov,
           categoria_nombre = categoria_nombre mov, categoria_kind = categoria_kind mov,
           kind = k, sortValue = \<bar>amount\<bar>, categoryName = cname, detailText = dtext \<rparr>)"

record MovimientoRows =
  ingresos :: "MovRow list"
  gastos :: "MovRow list"

text \<open>\<open>movimientoRows\<close> (source lines 604 to 631).\<close>

definition movimientoRows :: "host \<Rightarrow> Movimiento list \<Rightarrow> MovimientoRows" where
  "movimientoRows h movimientos =
     (let sortedRows = jsSort (\<lambda>a b. sortValue b - sortValue a) (map (withKind h) movimientos)
      in \<lparr> ingresos = filter (\<lambda>mov. kind mov = Ingreso) sortedRows,
           gastos = filter (\<lambda>mov. kind mov = Gasto) sortedRows \<rparr>)"

section \<open>Filter engine\<close>

text \<open>
  \<open>filteredIngresos\<close> and \<open>filteredGastos\<close> (source lines 633 to 649): the two
  filters have the same body, over the income rows with the income toggles and over
  the expense rows with the expense toggles.
\<close>

definition filteredIngresos :: "MovRow list \<Rightarrow> bool \<Rightarrow> bool \<Rightarrow> MovRow list" where
  "filteredIngresos rows showIngresosFijos showIngresosVariables =
     filter (\<lambda>mov.
       let isFijo = (fijo mov = JBool True) in
       if isFijo \<and> showIngresosFijos then True
       else if \<not> isFijo \<and> showIngresosVariables then True
       else False) rows"

definition filteredGastos :: "MovRow list \<Rightarrow> bool \<Rightarrow> bool \<Rightarrow> MovRow list" where
  "filteredGastos rows showGastosFijos showGastosVariables =
     filter (\<lambda>mov.
       let isFijo = (fijo mov = JBool True) in
       if isFijo \<and> showGastosFijos then True
       else if \<not> isFijo \<and> showGastosVariables then True
       else False) rows"

text \<open>The category names of the filtered rows, each once, in locale order (lines 651 to 661).\<close>

definition ingresoCategories :: "host \<Rightarrow> MovRow list \<Rightarrow> jstring list" where
  "ingresoCategories h filtered = jsSort (localeCompare h) (setFrom (map categoryName filtered))"

definition gastoCategories :: "host \<Rightarrow> MovRow list \<Rightarrow> jstring list" where
  "gastoCategories h filtered = jsSort (localeCompare h) (setFrom (map categoryName filtered))"

text \<open>The selection that is applied (lines 663 to 673), and the rows shown (lines 675 to 687).\<close>

definition safeSelectedIngresosCategory :: "host \<Rightarrow> MovRow list \<Rightarrow> jstring \<Rightarrow> jstring" where
  "safeSelectedIngresosCategory h filtered selectedIngresosCategory =
     (if selectedIngresosCategory = todas \<or>
         selectedIngresosCategory \<in> set (ingresoCategories h filtered)
      then selectedIngresosCategory else todas)"

definition safeSelectedGastosCategory :: "host \<Rightarrow> MovRow list \<Rightarrow> jstring \<Rightarrow> jstring" where
  "safeSelectedGastosCategory h filtered selectedGastosCategory =
     (if selectedGastosCategory = todas \<or>
         selectedGastosCategory \<in> set (gastoCategories h filtered)
      then selectedGastosCategory else todas)"

definition displayedIngresos :: "host \<Rightarrow> MovRow list \<Rightarrow> jstring \<Rightarrow> MovRow list" where
  "displayedIngresos h filtered selectedIngresosCategory =
     (let safe = safeSelectedIngresosCategory h filtered selectedIngresosCategory in
      if safe = todas then filtered
      else filter (\<lambda>mov. categoryName mov = safe) filtered)"

definition displayedGastos :: "host \<Rightarrow> MovRow list \<Rightarrow> jstring \<Rightarrow> MovRow list" where
  "displayedGastos h filtered selectedGastosCategory =
     (let safe = safeSelectedGastosCategory h filtered selectedGastosCategory in
      if safe = todas then filtered
      else filter (\<lambda>mov. categoryName mov = safe) filtered)"

section \<open>Search filter\<close>

text \<open>
  \<open>normalizeText\<close> (source lines 31 to 35): lower case, canonical decomposition, and the
  combining marks U+0300 to U+036F removed.
\<close>

definition normalizeText :: "host \<Rightarrow> jstring \<Rightarrow> jstring" where
  "normalizeText h v =
     filter (\<lambda>c. \<not> (768 \<le> c \<and> c \<le> 879)) (normalizeNFD h (toLowerCase h v))"

text \<open>\<open>s.replace(/\s+/g, " ")\<close>: every run of white space becomes one space.\<close>

function collapseWs :: "jstring \<Rightarrow> jstring" where
  "collapseWs [] = []"
| "collapseWs (c # cs) =
     (if isWhiteSpace c then 32 # collapseWs (dropWhile isWhiteSpace cs)
      else c # collapseWs cs)"
  by pat_completeness auto
termination
  by (relation "measure length") (auto simp add: length_dropWhile_le le_imp_less_Suc)

text \<open>\<open>normalizeQuery\<close> (source lines 693 and 694).\<close>

definition normalizeQuery :: "host \<Rightarrow> jstring \<Rightarrow> jstring" where
  "normalizeQuery h v = jsTrim (collapseWs (normalizeText h v))"

text \<open>\<open>formatCurrency\<close> (source lines 560 to 565).\<close>

definition formatCurrency :: "host \<Rightarrow> real \<Rightarrow> jstring" where
  "formatCurrency h v = intlCurrency h v"

text \<open>
  The text a row is searched in, before it is normalized: the template literal of
  source line 708.
\<close>

definition haystackText :: "host \<Rightarrow> MovRow \<Rightarrow> jstring" where
  "haystackText h mov =
     (let amount = \<bar>amountOf mov\<bar>;
          amountNumber = intlNumber h amount;
          amountCurrency = formatCurrency h amount
      in categoryName mov @ [32] @ (case detailText mov of None \<Rightarrow> [] | Some d \<Rightarrow> d) @ [32] @
         numberToString h amount @ [32] @ amountNumber @ [32] @ amountCurrency)"

text \<open>\<open>filterMovementRows\<close> (source lines 696 to 712); the empty string is falsy.\<close>

definition filterMovementRows :: "host \<Rightarrow> MovRow list \<Rightarrow> jstring \<Rightarrow> MovRow list" where
  "filterMovementRows h rows query =
     (if query = [] then rows
      else filter (\<lambda>mov.
             let haystack = normalizeText h (haystackText h mov)
             in jsIncludes haystack query) rows)"

text \<open>
  The searched rows (source lines 838 to 845): the text of the search box is
  normalized by \<open>normalizeQuery\<close> and handed to \<open>filterMovementRows\<close>.
\<close>

definition searchedIngresosMovs :: "host \<Rightarrow> MovRow list \<Rightarrow> jstring \<Rightarrow> MovRow list" where
  "searchedIngresosMovs h displayed searchIngresos =
     filterMovementRows h displayed (normalizeQuery h searchIngresos)"

definition searchedGastosMovs :: "host \<Rightarrow> MovRow list \<Rightarrow> jstring \<Rightarrow> MovRow list" where
  "searchedGastosMovs h displayed searchGastos =
     filterMovementRows h displayed (normalizeQuery h searchGastos)"

text \<open>
  The search filter as the specification words it, to be compared with the one above:
  the haystack is normalized like the query, white space included.
\<close>

definition specSearch :: "host \<Rightarrow> MovRow list \<Rightarrow> jstring \<Rightarrow> MovRow list" where
  "specSearch h rows query =
     (if list_all isWhiteSpace query then rows
      else filter (\<lambda>mov.
             jsIncludes (normalizeQuery h (haystackText h mov)) (normalizeQuery h query)) rows)"

section \<open>Double-precision addition\<close>

text \<open>
  \<open>x + y\<close> on two doubles is their exact sum rounded to the nearest double, ties to the
  even significand (IEEE 754 binary64, the Number type). \<open>scale53\<close> brings a magnitude
  into the range of a 53-bit significand, stopping at the exponent of the subnormal
  numbers; \<open>round64\<close> rounds the significand and scales back. The fuel of \<open>scale53\<close>
  exceeds the exponent range of the doubles. Overflow to infinity is not modelled.
\<close>

fun scale53 :: "nat \<Rightarrow> real \<Rightarrow> int \<Rightarrow> real \<times> int" where
  "scale53 0 m e = (m, e)"
| "scale53 (Suc fuel) m e =
     (if 2 ^ 53 \<le> m then scale53 fuel (m / 2) (e + 1)
      else if m < 2 ^ 52 \<and> - 1074 < e then scale53 fuel (m * 2) (e - 1)
      else (m, e))"

definition roundHalfEven :: "real \<Rightarrow> int" where
  "roundHalfEven m =
     (let f = \<lfloor>m\<rfloor>; r = m - of_int f
      in if r < 1 / 2 then f else if 1 / 2 < r then f + 1 else if even f then f else f + 1)"

definition pow2 :: "int \<Rightarrow> real" where
  "pow2 e = (if 0 \<le> e then 2 ^ nat e else 1 / 2 ^ nat (- e))"

definition round64 :: "real \<Rightarrow> real" where
  "round64 x =
     (let (m, e) = scale53 2200 \<bar>x\<bar> 0 in sgn x * of_int (roundHalfEven m) * pow2 e)"

definition jsAdd :: "real \<Rightarrow> real \<Rightarrow> real" where
  "jsAdd x y = round64 (x + y)"

section \<open>Grouping engine\<close>

record GroupingOptions =
  byCategory :: bool
  byDetail :: bool

text \<open>The value the \<open>grouped\<close> map holds for a bucket (source lines 732 to 745).\<close>

record GroupAcc =
  acc_key :: jstring
  acc_categoryName :: jstring
  acc_detailText :: jstring
  acc_total :: real
  acc_hasFijo :: bool
  acc_hasVariable :: bool
  acc_latestDate :: real
  acc_categories :: "jstring list"
  acc_details :: "jstring list"

datatype FijoLabel = Si | No | Mixto

text \<open>\<open>GroupedRow\<close> (source lines 714 to 721).\<close>

record GroupedRow =
  g_key :: jstring
  g_categoryName :: jstring
  g_detailText :: jstring
  g_total :: real
  g_fijoLabel :: FijoLabel
  g_latestDate :: real

text \<open>The placeholder of a row without detail, an em dash.\<close>

definition sinDetalle :: jstring where
  "sinDetalle = [8212]"

text \<open>The bucket key of a row (source lines 753 to 755).\<close>

definition groupKey :: "GroupingOptions \<Rightarrow> MovRow \<Rightarrow> jstring" where
  "groupKey options mov =
     (if byCategory options then categoryName mov else todas) @ js ''||'' @
     (if byDetail options then (case detailText mov of None \<Rightarrow> sinDetalle | Some d \<Rightarrow> d)
      else todas)"

text \<open>
  The body of \<open>rows.forEach\<close> in \<open>buildGroupedRows\<close> (source lines 747 to 783): the
  bucket is fetched or created, updated, and stored back under its key.
\<close>

definition groupStep ::
  "host \<Rightarrow> GroupingOptions \<Rightarrow> (jstring \<times> GroupAcc) list \<Rightarrow> MovRow \<Rightarrow> (jstring \<times> GroupAcc) list" where
  "groupStep h options grouped mov =
     (let cname = categoryName mov;
          dtext = (case detailText mov of None \<Rightarrow> sinDetalle | Some d \<Rightarrow> d);
          movementDate = (case dateParse h (fecha mov) of None \<Rightarrow> 0 | Some t \<Rightarrow> t);
          k = groupKey options mov;
          existing = (case mapGet grouped k of
                        Some e \<Rightarrow> e
                      | None \<Rightarrow>
                          \<lparr> acc_key = k, acc_categoryName = cname, acc_detailText = dtext,
                            acc_total = 0, acc_hasFijo = False, acc_hasVariable = False,
                            acc_latestDate = 0, acc_categories = [], acc_details = [] \<rparr>);
          amount = \<bar>amountOf mov\<bar>;
          isFijo = (fijo mov = JBool True);
          existing = existing\<lparr> acc_total := jsAdd (acc_total existing) amount \<rparr>;
          existing = (if isFijo then existing\<lparr> acc_hasFijo := True \<rparr>
                      else existing\<lparr> acc_hasVariable := True \<rparr>);
          existing = (if movementDate > acc_latestDate existing
                      then existing\<lparr> acc_latestDate := movementDate \<rparr> else existing);
          existing = existing\<lparr> acc_categories := setAdd (acc_categories existing) cname \<rparr>;
          existing = existing\<lparr> acc_details := setAdd (acc_details existing) dtext \<rparr>
      in mapSet grouped k existing)"

text \<open>The row made of a bucket (source lines 786 to 807).\<close>

definition toGroupedRow :: "GroupingOptions \<Rightarrow> GroupAcc \<Rightarrow> GroupedRow" where
  "toGroupedRow options row =
     (let fijoLabel = (if acc_hasFijo row \<and> acc_hasVariable row then Mixto
                       else if acc_hasFijo row then Si else No);
          categoryLabel = (if byCategory options then acc_categoryName row
                           else (case acc_categories row of [c] \<Rightarrow> c | _ \<Rightarrow> js ''Varias''));
          detailLabel = (if byDetail options then acc_detailText row
                         else (case acc_details row of [d] \<Rightarrow> d | _ \<Rightarrow> js ''Varias''))
      in \<lparr> g_key = acc_key row, g_categoryName = categoryLabel, g_detailText = detailLabel,
           g_total = acc_total row, g_fijoLabel = fijoLabel,
           g_latestDate = acc_latestDate row \<rparr>)"

text \<open>\<open>buildGroupedRows\<close> (source lines 728 to 809).\<close>

definition buildGroupedRows :: "host \<Rightarrow> MovRow list \<Rightarrow> GroupingOptions \<Rightarrow> GroupedRow list" where
  "buildGroupedRows h rows options =
     (let grouped = foldl (groupStep h options) [] rows
      in jsSort (\<lambda>a b. g_total b - g_total a) (map (toGroupedRow options) (map snd grouped)))"

section \<open>Sort engine\<close>

datatype SortKey = Fecha | Categoria | Detalle | Fijo | Importe

datatype SortDirection = Asc | Desc

record SortState =
  key :: SortKey
  direction :: SortDirection

text \<open>What \<open>getValue\<close> returns: a number or a string.\<close>

datatype SortValue = VNum real | VStr jstring

text \<open>\<open>String(value)\<close> on such a value.\<close>

definition valueString :: "host \<Rightarrow> SortValue \<Rightarrow> jstring" where
  "valueString h v = (case v of VNum x \<Rightarrow> numberToString h x | VStr s \<Rightarrow> s)"

text \<open>\<open>compareText\<close> (source lines 883 and 884).\<close>

definition compareText :: "host \<Rightarrow> jstring \<Rightarrow> jstring \<Rightarrow> real" where
  "compareText h a b = localeCompareBase h a b"

text \<open>
  \<open>getValue\<close> of \<open>sortMovements\<close> (source lines 889 to 903). \<open>Date.parse(..) || 0\<close> is 0
  for NaN.
\<close>

definition getValueMov :: "host \<Rightarrow> SortState \<Rightarrow> MovRow \<Rightarrow> SortValue" where
  "getValueMov h srt mov =
     (case key srt of
        Fecha \<Rightarrow> VNum (case dateParse h (fecha mov) of None \<Rightarrow> 0 | Some t \<Rightarrow> t)
      | Categoria \<Rightarrow> VStr (categoryName mov)
      | Detalle \<Rightarrow> VStr (case detailText mov of None \<Rightarrow> [] | Some d \<Rightarrow> d)
      | Fijo \<Rightarrow> VNum (if fijo mov = JBool True then 1 else 0)
      | Importe \<Rightarrow> VNum \<bar>amountOf mov\<bar>)"

text \<open>
  The comparison of the primary key with the direction applied: \<open>result\<close> of the
  comparator (source lines 905 to 917).
\<close>

definition primaryMov :: "host \<Rightarrow> SortState \<Rightarrow> MovRow \<Rightarrow> MovRow \<Rightarrow> real" where
  "primaryMov h srt a b =
     (let valueA = getValueMov h srt a;
          valueB = getValueMov h srt b;
          result = (case (valueA, valueB) of
                      (VNum x, VNum y) \<Rightarrow> x - y
                    | _ \<Rightarrow> compareText h (valueString h valueA) (valueString h valueB))
      in if direction srt = Desc then result * (- 1) else result)"

text \<open>
  The comparator of \<open>sortMovements\<close> (source lines 888 to 927) on the pairs of a row and
  its input index.
\<close>

definition compareMov :: "host \<Rightarrow> SortState \<Rightarrow> MovRow \<times> nat \<Rightarrow> MovRow \<times> nat \<Rightarrow> real" where
  "compareMov h srt a b =
     (let result = primaryMov h srt (fst a) (fst b);
          byIndex = (if result \<noteq> 0 then result else real (snd a) - real (snd b))
      in if result = 0 \<and> key srt \<noteq> Importe then
           (let secondary = \<bar>amountOf (fst b)\<bar> - \<bar>amountOf (fst a)\<bar>
            in if secondary \<noteq> 0 then secondary else byIndex)
         else byIndex)"

text \<open>The array \<open>sorted\<close> of \<open>sortMovements\<close> after its \<open>sort\<close>, and \<open>sortMovements\<close>.\<close>

definition sortMovementsIndexed :: "host \<Rightarrow> MovRow list \<Rightarrow> SortState \<Rightarrow> (MovRow \<times> nat) list" where
  "sortMovementsIndexed h rows srt =
     jsSort (compareMov h srt) (zip rows [0..<length rows])"

definition sortMovements :: "host \<Rightarrow> MovRow list \<Rightarrow> SortState \<Rightarrow> MovRow list" where
  "sortMovements h rows srt = map fst (sortMovementsIndexed h rows srt)"

text \<open>\<open>sortGrouped\<close> (source lines 931 to 977), in the same parts.\<close>

definition fijoRank :: "FijoLabel \<Rightarrow> real" where
  "fijoRank label = (if label = Si then 2 else if label = Mixto then 1 else 0)"

definition getValueGrouped :: "SortState \<Rightarrow> GroupedRow \<Rightarrow> SortValue" where
  "getValueGrouped srt row =
     (case key srt of
        Fecha \<Rightarrow> VNum (g_latestDate row)
      | Categoria \<Rightarrow> VStr (g_categoryName row)
      | Detalle \<Rightarrow> VStr (g_detailText row)
      | Fijo \<Rightarrow> VNum (fijoRank (g_fijoLabel row))
      | Importe \<Rightarrow> VNum (g_total row))"

definition primaryGrouped :: "host \<Rightarrow> SortState \<Rightarrow> GroupedRow \<Rightarrow> GroupedRow \<Rightarrow> real" where
  "primaryGrouped h srt a b =
     (let valueA = getValueGrouped srt a;
          valueB = getValueGrouped srt b;
          result = (case (valueA, valueB) of
                      (VNum x, VNum y) \<Rightarrow> x - y
                    | _ \<Rightarrow> compareText h (valueString h valueA) (valueString h valueB))
      in if direction srt = Desc then result * (- 1) else result)"

definition compareGrouped ::
  "host \<Rightarrow> SortState \<Rightarrow> GroupedRow \<times> nat \<Rightarrow> GroupedRow \<times> nat \<Rightarrow> real" where
  "compareGrouped h srt a b =
     (let result = primaryGrouped h srt (fst a) (fst b);
          byIndex = (if result \<noteq> 0 then result else real (snd a) - real (snd b))
      in if result = 0 \<and> key srt \<noteq> Importe then
           (let secondary = g_total (fst b) - g_total (fst a)
            in if secondary \<noteq> 0 then secondary else byIndex)
         else byIndex)"

definition sortGroupedIndexed ::
  "host \<Rightarrow> GroupedRow list \<Rightarrow> SortState \<Rightarrow> (GroupedRow \<times> nat) list" where
  "sortGroupedIndexed h rows srt =
     jsSort (compareGrouped h srt) (zip rows [0..<length rows])"

definition sortGrouped :: "host \<Rightarrow> GroupedRow list \<Rightarrow> SortState \<Rightarrow> GroupedRow list" where
  "sortGrouped h rows srt = map fst (sortGroupedIndexed h rows srt)"

section \<open>Yearly pivot builder\<close>

text \<open>
  The value the pivot's \<open>map\<close> holds for a category (source lines 1063 to 1072); a
  \<open>Record<number, number>\<close> is a partial map from the year to the sum.
\<close>

record YearlyEntry =
  category :: jstring
  ingresoFijo :: "real \<rightharpoonup> real"
  ingresoVariable :: "real \<rightharpoonup> real"
  gastoFijo :: "real \<rightharpoonup> real"
  gastoVariable :: "real \<rightharpoonup> real"

text \<open>An entry of the result's \<open>categories\<close>: the map's entry with its three totals.\<close>

record YearlyCategory = YearlyEntry +
  totalFijo :: real
  totalVariable :: real
  total_y :: real

text \<open>The state of the page the pivot reads: the three selectors and the four toggles.\<close>

record YearlySelection =
  selectedYearlyYear :: jstring
  selectedYearlyCategory :: jstring
  selectedYearlyDetail :: jstring
  showYearlyIngresos :: bool
  showYearlyGastos :: bool
  showYearlyFijos :: bool
  showYearlyVariables :: bool

text \<open>What the loop over the movements builds: \<open>yearsSet\<close> and \<open>map\<close>.\<close>

record YearlyAcc =
  yearsSet :: "real list"
  entryMap :: "(jstring \<times> YearlyEntry) list"

text \<open>
  The fields of the result the claims are about; \<open>maxValue\<close>, the totals by year and
  the grand totals are computed from \<open>categories\<close> afterwards and are not modelled.
\<close>

record YearlyDisplay =
  years :: "real list"
  categories :: "YearlyCategory list"

text \<open>\<open>String(v)\<close> on a primitive value.\<close>

definition jsString :: "host \<Rightarrow> jsval \<Rightarrow> jstring" where
  "jsString h v =
     (case v of
        JUndefined \<Rightarrow> js ''undefined''
      | JNull \<Rightarrow> js ''null''
      | JBool b \<Rightarrow> (if b then js ''true'' else js ''false'')
      | JNum x \<Rightarrow> numberToString h x
      | JStr s \<Rightarrow> s)"

text \<open>\<open>v ?? d\<close>.\<close>

definition nullish :: "jsval \<Rightarrow> jsval \<Rightarrow> jsval" where
  "nullish v d = (if v = JUndefined \<or> v = JNull then d else v)"

text \<open>The fixed flag of the pivot (source lines 1107 to 1114).\<close>

definition isFijoYearly :: "host \<Rightarrow> jsval \<Rightarrow> bool" where
  "isFijoYearly h fijoRaw =
     (let fijoLabel = toLowerCase h (jsString h (nullish fijoRaw (JStr []))) in
      fijoRaw = JBool True \<or> fijoRaw = JNum 1 \<or> fijoRaw = JStr (js ''1'') \<or>
      fijoLabel = js ''true'' \<or> fijoLabel = js ''t'')"

text \<open>The kind of the pivot (source lines 1103 to 1106).\<close>

definition yearlyKind :: "host \<Rightarrow> 'a Movimiento_scheme \<Rightarrow> kind" where
  "yearlyKind h mov =
     (case normalizeKindLabel h (tipo mov) of
        Some tipoKind \<Rightarrow> tipoKind
      | None \<Rightarrow> (if amountOf mov < 0 then Gasto else Ingreso))"

text \<open>
  The year of a movement (source lines 1115 to 1118): the first four characters as a
  number, or the year of the parsed date when that is 0 or NaN; \<open>None\<close> is NaN.
\<close>

definition yearOf :: "host \<Rightarrow> jstring \<Rightarrow> real option" where
  "yearOf h f =
     (case toNumber h (take 4 f) of
        Some n \<Rightarrow> if n \<noteq> 0 then Some n else getFullYear h f
      | None \<Rightarrow> getFullYear h f)"

text \<open>\<open>record[year] ?? 0\<close> and \<open>addTo\<close> (source lines 1088 to 1094).\<close>

definition valueAt :: "(real \<rightharpoonup> real) \<Rightarrow> real \<Rightarrow> real" where
  "valueAt r year = (case r year of None \<Rightarrow> 0 | Some v \<Rightarrow> v)"

definition addTo :: "(real \<rightharpoonup> real) \<Rightarrow> real \<Rightarrow> real \<Rightarrow> (real \<rightharpoonup> real)" where
  "addTo r year amount = r(year \<mapsto> valueAt r year + amount)"

text \<open>
  \<open>ensureCategory\<close> (source lines 1074 to 1086): the map, with the entry added when the
  key is new, and the entry.
\<close>

definition ensureCategory ::
  "(jstring \<times> YearlyEntry) list \<Rightarrow> jstring \<Rightarrow> jstring \<Rightarrow> (jstring \<times> YearlyEntry) list \<times> YearlyEntry" where
  "ensureCategory m k label =
     (case mapGet m k of
        Some existing \<Rightarrow> (m, existing)
      | None \<Rightarrow>
          (let next = \<lparr> category = label, ingresoFijo = Map.empty, ingresoVariable = Map.empty,
                        gastoFijo = Map.empty, gastoVariable = Map.empty \<rparr>
           in (mapSet m k next, next)))"

text \<open>The series a movement is added to (source lines 1143 to 1153).\<close>

definition addMovement :: "YearlyEntry \<Rightarrow> kind \<Rightarrow> bool \<Rightarrow> real \<Rightarrow> real \<Rightarrow> YearlyEntry" where
  "addMovement entry k isFijo year amount =
     (if k = Ingreso then
        (if isFijo then entry\<lparr> ingresoFijo := addTo (ingresoFijo entry) year amount \<rparr>
         else entry\<lparr> ingresoVariable := addTo (ingresoVariable entry) year amount \<rparr>)
      else if isFijo then entry\<lparr> gastoFijo := addTo (gastoFijo entry) year amount \<rparr>
      else entry\<lparr> gastoVariable := addTo (gastoVariable entry) year amount \<rparr>)"

text \<open>
  \<open>selectedYear\<close> (source lines 1096 and 1097): \<open>None\<close> is \<open>null\<close>, \<open>Some None\<close> is NaN.
\<close>

definition selectedYearOf :: "host \<Rightarrow> YearlySelection \<Rightarrow> real option option" where
  "selectedYearOf h sel =
     (if selectedYearlyYear sel = todos then None else Some (toNumber h (selectedYearlyYear sel)))"

text \<open>
  The body of \<open>yearlyMovimientos.forEach\<close> (source lines 1099 to 1154). The entry is an
  object of the map: adding to one of its series changes the map's value in place.
\<close>

definition yearlyStep :: "host \<Rightarrow> YearlySelection \<Rightarrow> YearlyAcc \<Rightarrow> Movimiento \<Rightarrow> YearlyAcc" where
  "yearlyStep h sel acc mov =
     (let amount = \<bar>amountOf mov\<bar> in
      if amount = 0 then acc
      else
        let k = yearlyKind h mov;
            isFijo = isFijoYearly h (fijo mov)
        in case yearOf h (fecha mov) of
             None \<Rightarrow> acc
           | Some year \<Rightarrow>
               if (case selectedYearOf h sel of None \<Rightarrow> False | Some sy \<Rightarrow> sy \<noteq> Some year)
               then acc
               else
                 let acc = acc\<lparr> yearsSet := setAdd (yearsSet acc) year \<rparr>;
                     categoryLabel =
                       (case categoria_nombre mov of None \<Rightarrow> sinCategoria | Some n \<Rightarrow> n)
                 in if selectedYearlyCategory sel \<noteq> todas \<and>
                       categoryLabel \<noteq> selectedYearlyCategory sel
                    then acc
                    else
                      let detailLabel =
                            (case detailTextOf (detalle mov) of
                               None \<Rightarrow> js ''Sin detalle'' | Some d \<Rightarrow> d)
                      in if selectedYearlyDetail sel \<noteq> todos \<and>
                            detailLabel \<noteq> selectedYearlyDetail sel
                         then acc
                         else
                           let categoryKey =
                                 (case categoria_id mov of None \<Rightarrow> categoryLabel | Some c \<Rightarrow> c);
                               (m, entry) = ensureCategory (entryMap acc) categoryKey categoryLabel
                           in acc\<lparr> entryMap :=
                                     mapSet m categoryKey (addMovement entry k isFijo year amount) \<rparr>)"

text \<open>The totals of an entry over the years (source lines 1184 to 1206).\<close>

definition yearTotals :: "YearlySelection \<Rightarrow> YearlyEntry \<Rightarrow> real \<times> real \<Rightarrow> real \<Rightarrow> real \<times> real" where
  "yearTotals sel entry tots year =
     (let (tFijo, tVariable) = tots;
          tFijo = (if showYearlyIngresos sel \<and> showYearlyFijos sel
                   then tFijo + valueAt (ingresoFijo entry) year else tFijo);
          tFijo = (if showYearlyGastos sel \<and> showYearlyFijos sel
                   then tFijo + valueAt (gastoFijo entry) year else tFijo);
          tVariable = (if showYearlyIngresos sel \<and> showYearlyVariables sel
                       then tVariable + valueAt (ingresoVariable entry) year else tVariable);
          tVariable = (if showYearlyGastos sel \<and> showYearlyVariables sel
                       then tVariable + valueAt (gastoVariable entry) year else tVariable)
      in (tFijo, tVariable))"

definition withTotals :: "YearlySelection \<Rightarrow> real list \<Rightarrow> YearlyEntry \<Rightarrow> YearlyCategory" where
  "withTotals sel ys entry =
     (let (tFijo, tVariable) = foldl (yearTotals sel entry) (0, 0) ys
      in \<lparr> category = category entry, ingresoFijo = ingresoFijo entry,
           ingresoVariable = ingresoVariable entry, gastoFijo = gastoFijo entry,
           gastoVariable = gastoVariable entry,
           totalFijo = tFijo, totalVariable = tVariable, total_y = tFijo + tVariable \<rparr>)"

text \<open>\<open>yearlyDisplay\<close> (source lines 1061 to 1209), up to \<open>categories\<close>.\<close>

definition yearlyDisplay :: "host \<Rightarrow> YearlySelection \<Rightarrow> Movimiento list \<Rightarrow> YearlyDisplay" where
  "yearlyDisplay h sel yearlyMovimientos =
     (let acc = foldl (yearlyStep h sel) \<lparr> yearsSet = [], entryMap = [] \<rparr> yearlyMovimientos;
          ys = jsSort (\<lambda>a b. a - b) (yearsSet acc);
          hasKind = (showYearlyIngresos sel \<or> showYearlyGastos sel);
          hasFijo = (showYearlyFijos sel \<or> showYearlyVariables sel)
      in if length ys = 0 \<or> \<not> hasKind \<or> \<not> hasFijo
         then \<lparr> years = ys, categories = [] \<rparr>
         else \<lparr> years = ys,
                categories =
                  jsSort (\<lambda>a b. total_y b - total_y a)
                    (filter (\<lambda>entry. total_y entry > 0)
                       (map (withTotals sel ys) (map snd (entryMap acc)))) \<rparr>)"

text \<open>
  What the loop does with one movement, in the words of the claims about it. The label,
  the detail and the map key of a movement (source lines 1123, 1130 to 1133 and 1140);
  the guards it passes to be added under the year \<open>year\<close> (lines 1101, 1119, 1120,
  1124 to 1139); and the entry of its key before it is added, a new one when the key
  is new (lines 1074 to 1086).
\<close>

definition yearlyLabel :: "Movimiento \<Rightarrow> jstring" where
  "yearlyLabel mov = (case categoria_nombre mov of None \<Rightarrow> sinCategoria | Some n \<Rightarrow> n)"

definition yearlyDetail :: "Movimiento \<Rightarrow> jstring" where
  "yearlyDetail mov =
     (case detailTextOf (detalle mov) of None \<Rightarrow> js ''Sin detalle'' | Some d \<Rightarrow> d)"

definition yearlyKey :: "Movimiento \<Rightarrow> jstring" where
  "yearlyKey mov = (case categoria_id mov of None \<Rightarrow> yearlyLabel mov | Some c \<Rightarrow> c)"

definition yearlyAccepts :: "host \<Rightarrow> YearlySelection \<Rightarrow> Movimiento \<Rightarrow> real \<Rightarrow> bool" where
  "yearlyAccepts h sel mov year \<longleftrightarrow>
     amountOf mov \<noteq> 0 \<and>
     yearOf h (fecha mov) = Some year \<and>
     (selectedYearlyYear sel = todos \<or> toNumber h (selectedYearlyYear sel) = Some year) \<and>
     (selectedYearlyCategory sel = todas \<or> yearlyLabel mov = selectedYearlyCategory sel) \<and>
     (selectedYearlyDetail sel = todos \<or> yearlyDetail mov = selectedYearlyDetail sel)"

definition entryVacia :: "jstring \<Rightarrow> YearlyEntry" where
  "entryVacia label =
     \<lparr> category = label, ingresoFijo = Map.empty, ingresoVariable = Map.empty,
       gastoFijo = Map.empty, gastoVariable = Map.empty \<rparr>"

definition priorEntry :: "(jstring \<times> YearlyEntry) list \<Rightarrow> Movimiento \<Rightarrow> YearlyEntry" where
  "priorEntry m mov =
     (case mapGet m (yearlyKey mov) of
        Some existing \<Rightarrow> existing
      | None \<Rightarrow> entryVacia (yearlyLabel mov))"


text \<open>
  What the pivot's reading of \<open>fijo\<close> needs of the runtime: lower-casing leaves the
  empty string, \<open>"false"\<close> and \<open>"0"\<close> as they are, and the text of a number is neither
  \<open>"true"\<close> nor \<open>"t"\<close> in any letter case.
\<close>

definition hostLabels :: "host \<Rightarrow> bool" where
  "hostLabels h \<longleftrightarrow>
     toLowerCase h [] = [] \<and>
     toLowerCase h (js ''false'') = js ''false'' \<and>
     toLowerCase h (js ''0'') = js ''0'' \<and>
     (\<forall>x. toLowerCase h (numberToString h x) \<noteq> js ''true'' \<and>
          toLowerCase h (numberToString h x) \<noteq> js ''t'')"

section \<open>Assumptions on the runtime and invariants\<close>

text \<open>
  What the search needs of the runtime for a blank query: lower-casing and canonical
  decomposition turn white space into white space.
\<close>

definition hostWhiteSpace :: "host \<Rightarrow> bool" where
  "hostWhiteSpace h \<longleftrightarrow>
     (\<forall>s. list_all isWhiteSpace s \<longrightarrow> list_all isWhiteSpace (toLowerCase h s)) \<and>
     (\<forall>s. list_all isWhiteSpace s \<longrightarrow> list_all isWhiteSpace (normalizeNFD h s))"

text \<open>
  A comparator is a consistent ordering when swapping its arguments swaps the sign of
  its result and "not greater" is transitive: what \<open>Array.prototype.sort\<close> asks of a
  comparator for its result to be determined.
\<close>

definition consistentCmp :: "('a \<Rightarrow> 'a \<Rightarrow> real) \<Rightarrow> bool" where
  "consistentCmp cmp \<longleftrightarrow>
     (\<forall>a b. cmp a b < 0 \<longleftrightarrow> cmp b a > 0) \<and>
     (\<forall>a b c. cmp a b \<le> 0 \<and> cmp b c \<le> 0 \<longrightarrow> cmp a c \<le> 0)"

text \<open>
  The shape the two sort comparators share: a primary comparison \<open>p\<close>, then, unless
  the key is the amount (\<open>byAmount\<close>), the amount \<open>amt\<close> descending, then the input index.
\<close>

definition tieBreakCmp ::
  "('a \<Rightarrow> 'a \<Rightarrow> real) \<Rightarrow> ('a \<Rightarrow> real) \<Rightarrow> bool \<Rightarrow> 'a \<times> nat \<Rightarrow> 'a \<times> nat \<Rightarrow> real" where
  "tieBreakCmp p amt byAmount a b =
     (if p (fst a) (fst b) \<noteq> 0 then p (fst a) (fst b)
      else if \<not> byAmount \<and> amt (fst b) - amt (fst a) \<noteq> 0 then amt (fst b) - amt (fst a)
      else real (snd a) - real (snd b))"

text \<open>
  What holds of the \<open>grouped\<close> map after the rows \<open>rows\<close>: its keys are distinct and
  are the bucket keys of the rows, and each bucket carries its own key and the
  magnitudes of the rows with that key, added in the order of the rows.
\<close>

definition bucketInv ::
  "GroupingOptions \<Rightarrow> MovRow list \<Rightarrow> (jstring \<times> GroupAcc) list \<Rightarrow> bool" where
  "bucketInv options rows grouped \<longleftrightarrow>
     distinct (map fst grouped) \<and>
     fst ` set grouped = groupKey options ` set rows \<and>
     (\<forall>k e. (k, e) \<in> set grouped \<longrightarrow>
        acc_key e = k \<and>
        acc_total e =
          foldl jsAdd 0 (map (\<lambda>mov. \<bar>amountOf mov\<bar>) (filter (\<lambda>m. groupKey options m = k) rows)))"

section \<open>A host for ASCII text\<close>

text \<open>
  A concrete host on which the definitions are evaluated: ASCII case mapping, no
  decomposition, comparison of strings by their code units, numbers printed as the
  decimal digits of their whole part (exact for the whole non-negative amounts used in
  the examples), and \<open>Number\<close> reading a string of decimal digits (the empty string
  as 0); dates are not parsed.
\<close>

definition asciiLower :: "nat \<Rightarrow> nat" where
  "asciiLower c = (if 65 \<le> c \<and> c \<le> 90 then c + 32 else c)"

fun digitsOf :: "nat \<Rightarrow> nat \<Rightarrow> jstring" where
  "digitsOf 0 n = []"
| "digitsOf (Suc fuel) n =
     (if n < 10 then [48 + n] else digitsOf fuel (n div 10) @ [48 + n mod 10])"

definition wholeToString :: "real \<Rightarrow> jstring" where
  "wholeToString x = digitsOf 20 (nat \<lfloor>x\<rfloor>)"

fun codeUnitCompare :: "jstring \<Rightarrow> jstring \<Rightarrow> real" where
  "codeUnitCompare [] [] = 0"
| "codeUnitCompare [] (b # bs) = -1"
| "codeUnitCompare (a # as) [] = 1"
| "codeUnitCompare (a # as) (b # bs) =
     (if a < b then -1 else if b < a then 1 else codeUnitCompare as bs)"

definition digitsToNumber :: "jstring \<Rightarrow> real option" where
  "digitsToNumber s =
     (if list_all (\<lambda>c. 48 \<le> c \<and> c \<le> 57) s
      then Some (real (foldl (\<lambda>n c. 10 * n + (c - 48)) 0 s)) else None)"

definition asciiHost :: host where
  "asciiHost =
     \<lparr> toLowerCase = map asciiLower,
       normalizeNFD = (\<lambda>s. s),
       numberToString = wholeToString,
       intlNumber = wholeToString,
       intlCurrency = (\<lambda>x. wholeToString x @ js '',00 EUR''),
       localeCompare = codeUnitCompare,
       localeCompareBase = (\<lambda>a b. codeUnitCompare (map asciiLower a) (map asciiLower b)),
       dateParse = (\<lambda>s. None),
       toNumber = digitsToNumber,
       getFullYear = (\<lambda>s. None) \<rparr>"

section \<open>Example data\<close>

text \<open>
  Movements on which the operations are evaluated with the ASCII host. As the loader
  leaves them, a movement has a category name or a category kind only together with a
  category id.
\<close>

definition movBase :: Movimiento where
  "movBase =
     \<lparr> id_mov = js ''m0'', fecha = js ''2024-01-15'', tipo = None, importe = None,
       detalle = None, fijo = JNull, categoria_id = None, categoria_nombre = None,
       categoria_kind = None \<rparr>"

definition movGastoNomina :: Movimiento where
  "movGastoNomina =
     movBase\<lparr> tipo := Some (js '' Gasto''), importe := Some 100,
              categoria_id := Some (js ''c1''), categoria_nombre := Some (js ''Nomina''),
              categoria_kind := Some (js ''ingreso'') \<rparr>"

definition movOtro :: Movimiento where
  "movOtro = movBase\<lparr> tipo := Some (js ''otro''), importe := Some (- 50) \<rparr>"

definition movIngresoCat :: Movimiento where
  "movIngresoCat =
     movBase\<lparr> tipo := Some (js ''otro''), importe := Some (- 50),
              categoria_id := Some (js ''c4''), categoria_nombre := Some (js ''Devoluciones''),
              categoria_kind := Some (js ''ingreso'') \<rparr>"

definition movNomina :: Movimiento where
  "movNomina =
     movBase\<lparr> id_mov := js ''m1'', tipo := Some (js ''ingreso''), importe := Some 1200,
              detalle := Some (js ''Enero''), fijo := JBool True,
              categoria_id := Some (js ''c1''), categoria_nombre := Some (js ''Nomina'') \<rparr>"

definition movVenta :: Movimiento where
  "movVenta =
     movBase\<lparr> id_mov := js ''m2'', tipo := Some (js ''ingreso''), importe := Some 300,
              fijo := JBool False, categoria_id := Some (js ''c2''),
              categoria_nombre := Some (js ''Ventas'') \<rparr>"

definition movRegalo :: Movimiento where
  "movRegalo =
     movBase\<lparr> id_mov := js ''m3'', tipo := Some (js ''ingreso''), importe := Some 50 \<rparr>"

definition rowsEjemplo :: "MovRow list" where
  "rowsEjemplo = map (withKind asciiHost) [movNomina, movVenta, movRegalo]"

definition movRenta :: Movimiento where
  "movRenta =
     movBase\<lparr> id_mov := js ''m4'', tipo := Some (js ''gasto''), importe := Some (- 20),
              detalle := Some (js ''Renta''), fijo := JBool True,
              categoria_id := Some (js ''c3''), categoria_nombre := Some (js ''Comida'') \<rparr>"

definition movSnacks :: Movimiento where
  "movSnacks =
     movBase\<lparr> id_mov := js ''m5'', tipo := Some (js ''gasto''), importe := Some 10,
              detalle := Some (js ''Snacks''), fijo := JBool False,
              categoria_id := Some (js ''c3''), categoria_nombre := Some (js ''Comida'') \<rparr>"

definition rowsComida :: "MovRow list" where
  "rowsComida = map (withKind asciiHost) [movRenta, movSnacks]"

definition soloCategoria :: GroupingOptions where
  "soloCategoria = \<lparr> byCategory = True, byDetail = False \<rparr>"

definition movFijoTexto :: Movimiento where
  "movFijoTexto =
     movBase\<lparr> id_mov := js ''m6'', tipo := Some (js ''gasto''), importe := Some 40,
              fijo := JStr (js ''T''), categoria_id := Some (js ''c3''),
              categoria_nombre := Some (js ''Comida'') \<rparr>"


text \<open>The selection of the page when it opens (source lines 192 to 199).\<close>

definition selInicial :: YearlySelection where
  "selInicial =
     \<lparr> selectedYearlyYear = todos, selectedYearlyCategory = todas,
       selectedYearlyDetail = todos, showYearlyIngresos = True, showYearlyGastos = True,
       showYearlyFijos = True, showYearlyVariables = False \<rparr>"

text \<open>The selection with every series shown.\<close>

definition selTodo :: YearlySelection where
  "selTodo = selInicial\<lparr> showYearlyVariables := True \<rparr>"

definition rowsOrden :: "MovRow list" where
  "rowsOrden = map (withKind asciiHost) [movRegalo, movVenta, movNomina]"

definition porFijo :: SortState where
  "porFijo = \<lparr> key = Fijo, direction = Asc \<rparr>"

definition porCategoria :: SortState where
  "porCategoria = \<lparr> key = Categoria, direction = Asc \<rparr>"

definition grupo :: "string \<Rightarrow> real \<Rightarrow> FijoLabel \<Rightarrow> GroupedRow" where
  "grupo name t label =
     \<lparr> g_key = js name @ js ''||todas'', g_categoryName = js name, g_detailText = js ''Varias'',
       g_total = t, g_fijoLabel = label, g_latestDate = 0 \<rparr>"

definition gruposOrden :: "GroupedRow list" where
  "gruposOrden =
     [grupo ''Ocio'' 80 No, grupo ''Viajes'' 200 No, grupo ''Comida'' 30 Mixto,
      grupo ''Casa'' 500 Si]"

definition movPan :: Movimiento where
  "movPan =
     movBase\<lparr> id_mov := js ''m7'', tipo := Some (js ''gasto''), importe := Some (- 5),
              detalle := Some (js ''Pan  integral''), fijo := JBool False,
              categoria_id := Some (js ''c3''), categoria_nombre := Some (js ''Comida'') \<rparr>"

definition rowPan :: MovRow where
  "rowPan = withKind asciiHost movPan"

text \<open>
  Three expenses of 0.3, 0.2 and 0.1, the first and the last in one category; the
  amounts are the doubles the JSON numbers are read as.
\<close>

definition movDecimal :: "string \<Rightarrow> string \<Rightarrow> real \<Rightarrow> Movimiento" where
  "movDecimal cid name x =
     movBase\<lparr> tipo := Some (js ''gasto''), importe := Some (round64 x), fijo := JBool False,
              categoria_id := Some (js cid), categoria_nombre := Some (js name) \<rparr>"

definition rowsDecimales :: "MovRow list" where
  "rowsDecimales =
     map (withKind asciiHost)
       [movDecimal ''c3'' ''Comida'' (3 / 10), movDecimal ''c5'' ''Ocio'' (1 / 5),
        movDecimal ''c3'' ''Comida'' (1 / 10)]"

section \<open>Evaluation on the ASCII host\<close>

lemmas ascii_eval =
  asciiHost_def js_def jsTrim_def isWhiteSpace_def asciiLower_def normalizeKindLabel_def

lemma asciiHost_sel:
  "toLowerCase asciiHost = map asciiLower"
  "normalizeNFD asciiHost = (\<lambda>s. s)"
  "numberToString asciiHost = wholeToString"
  "intlNumber asciiHost = wholeToString"
  "intlCurrency asciiHost = (\<lambda>x. wholeToString x @ js '',00 EUR'')"
  "localeCompare asciiHost = codeUnitCompare"
  "localeCompareBase asciiHost = (\<lambda>a b. codeUnitCompare (map asciiLower a) (map asciiLower b))"
  "dateParse asciiHost = (\<lambda>s. None)"
  "getFullYear asciiHost = (\<lambda>s. None)"
  "toNumber asciiHost = digitsToNumber"
  by (simp_all add: asciiHost_def)

lemma label_gasto: "normalizeKindLabel asciiHost (Some (js '' Gasto'')) = Some Gasto"
  by (simp add: ascii_eval)

lemma label_ingreso: "normalizeKindLabel asciiHost (Some (js ''ingreso'')) = Some Ingreso"
  by (simp add: ascii_eval)

lemma label_gasto_plain: "normalizeKindLabel asciiHost (Some (js ''gasto'')) = Some Gasto"
  by (simp add: ascii_eval)

lemma label_otro: "normalizeKindLabel asciiHost (Some (js ''otro'')) = None"
  by (simp add: ascii_eval)

lemma label_none: "normalizeKindLabel asciiHost None = None"
  by (simp add: ascii_eval)

section \<open>Kind resolution\<close>

text \<open>
  Claim C1. \<open>resolveKind\<close> is a total function whose result is one of the two kinds
  for every movement, whatever its texts and its amount. When neither \<open>tipo\<close> nor
  \<open>categoria_kind\<close> is classified by \<open>normalizeKindLabel\<close>, the result is \<open>Gasto\<close> for a
  negative amount and \<open>Ingreso\<close> otherwise: for a positive amount, for zero and for a
  missing amount.
\<close>

theorem resolveKind_total_sign_fallback:
  "(resolveKind h mov = Ingreso \<or> resolveKind h mov = Gasto) \<and>
   (normalizeKindLabel h (tipo mov) = None \<and> normalizeKindLabel h (categoria_kind mov) = None \<longrightarrow>
      resolveKind h mov =
        (case importe mov of None \<Rightarrow> Ingreso
         | Some x \<Rightarrow> if x < 0 then Gasto else Ingreso))"
proof -
  have "resolveKind h mov = Ingreso \<or> resolveKind h mov = Gasto"
    by (cases "resolveKind h mov") simp_all
  moreover have "resolveKind h mov =
        (case importe mov of None \<Rightarrow> Ingreso | Some x \<Rightarrow> if x < 0 then Gasto else Ingreso)"
    if "normalizeKindLabel h (tipo mov) = None"
      and "normalizeKindLabel h (categoria_kind mov) = None"
    using that by (simp add: resolveKind_def amountOf_def split: option.split)
  ultimately show ?thesis by blast
qed

theorem resolveKind_total_sign_fallback_witness:
  "normalizeKindLabel asciiHost (tipo movOtro) = None \<and>
   normalizeKindLabel asciiHost (categoria_kind movOtro) = None \<and>
   resolveKind asciiHost movOtro = Gasto \<and>
   resolveKind asciiHost (movOtro\<lparr>importe := Some 0\<rparr>) = Ingreso \<and>
   resolveKind asciiHost (movOtro\<lparr>importe := None\<rparr>) = Ingreso"
  using resolveKind_total_sign_fallback [of asciiHost movOtro]
    resolveKind_total_sign_fallback [of asciiHost "movOtro\<lparr>importe := Some 0\<rparr>"]
    resolveKind_total_sign_fallback [of asciiHost "movOtro\<lparr>importe := None\<rparr>"]
  by (simp add: movOtro_def movBase_def label_otro label_none)

text \<open>
  Claim C2. When \<open>normalizeKindLabel\<close> classifies the movement's own \<open>tipo\<close>, that is the
  result of \<open>resolveKind\<close> whatever the category kind and the amount are; when it does
  not and \<open>categoria_kind\<close> is classified, that is the result whatever the amount is;
  the sign of the amount decides only when neither text is classified.
\<close>

theorem resolveKind_precedence:
  "(normalizeKindLabel h (tipo mov) = Some k \<longrightarrow>
      resolveKind h (mov\<lparr>categoria_kind := c, importe := a\<rparr>) = k) \<and>
   (normalizeKindLabel h (tipo mov) = None \<and> normalizeKindLabel h (categoria_kind mov) = Some k \<longrightarrow>
      resolveKind h (mov\<lparr>importe := a\<rparr>) = k) \<and>
   (resolveKind h (mov\<lparr>importe := a\<rparr>) \<noteq> resolveKind h mov \<longrightarrow>
      normalizeKindLabel h (tipo mov) = None \<and> normalizeKindLabel h (categoria_kind mov) = None)"
  by (auto simp add: resolveKind_def split: option.splits)

theorem resolveKind_precedence_witness:
  "normalizeKindLabel asciiHost (tipo movGastoNomina) = Some Gasto \<and>
   normalizeKindLabel asciiHost (categoria_kind movGastoNomina) = Some Ingreso \<and>
   resolveKind asciiHost movGastoNomina = Gasto \<and>
   normalizeKindLabel asciiHost (tipo movIngresoCat) = None \<and>
   resolveKind asciiHost movIngresoCat = Ingreso \<and>
   resolveKind asciiHost (movOtro\<lparr>importe := Some 50\<rparr>) \<noteq> resolveKind asciiHost movOtro"
proof -
  have g: "normalizeKindLabel asciiHost (tipo movGastoNomina) = Some Gasto"
    by (simp add: movGastoNomina_def movBase_def label_gasto)
  have i: "normalizeKindLabel asciiHost (categoria_kind movGastoNomina) = Some Ingreso"
    by (simp add: movGastoNomina_def movBase_def label_ingreso)
  have n: "normalizeKindLabel asciiHost (tipo movIngresoCat) = None"
    by (simp add: movIngresoCat_def movBase_def label_otro)
  have ci: "normalizeKindLabel asciiHost (categoria_kind movIngresoCat) = Some Ingreso"
    by (simp add: movIngresoCat_def movBase_def label_ingreso)
  have r1: "resolveKind asciiHost movGastoNomina = Gasto"
    using resolveKind_precedence [where h = asciiHost and mov = movGastoNomina and k = Gasto
        and c = "categoria_kind movGastoNomina" and a = "importe movGastoNomina"] g
    by simp
  have r2: "resolveKind asciiHost movIngresoCat = Ingreso"
    using resolveKind_precedence [where h = asciiHost and mov = movIngresoCat and k = Ingreso
        and a = "importe movIngresoCat"] n ci
    by simp
  have r3: "resolveKind asciiHost (movOtro\<lparr>importe := Some 50\<rparr>) \<noteq> resolveKind asciiHost movOtro"
    by (simp add: resolveKind_def amountOf_def movOtro_def movBase_def label_otro label_none)
  from g i n r1 r2 r3 show ?thesis by simp
qed

section \<open>The runtime's arrays and sets\<close>

lemma mset_jsInsert: "mset (jsInsert cmp x ys) = add_mset x (mset ys)"
  by (induction ys) simp_all

lemma mset_jsSort: "mset (jsSort cmp xs) = mset xs"
  by (induction xs) (simp_all add: jsSort_def mset_jsInsert)

lemma set_jsSort: "set (jsSort cmp xs) = set xs"
  using mset_jsSort [of cmp xs] by (metis set_mset_mset)

lemma length_jsSort: "length (jsSort cmp xs) = length xs"
  using mset_jsSort [of cmp xs] by (metis size_mset)

lemma set_foldl_setAdd: "set (foldl setAdd acc xs) = set acc \<union> set xs"
  by (induction xs arbitrary: acc) (auto simp add: setAdd_def)

lemma set_setFrom: "set (setFrom xs) = set xs"
  by (simp add: setFrom_def set_foldl_setAdd)

lemma withKind_fields:
  "fijo (withKind h mov) = fijo mov"
  "importe (withKind h mov) = importe mov"
  "fecha (withKind h mov) = fecha mov"
  "kind (withKind h mov) = resolveKind h mov"
  "categoryName (withKind h mov) =
     (case categoria_nombre mov of None \<Rightarrow> sinCategoria | Some n \<Rightarrow> n)"
  "detailText (withKind h mov) = detailTextOf (detalle mov)"
  by (simp_all add: withKind_def Let_def)

lemmas ejemplo_defs =
  rowsEjemplo_def movNomina_def movVenta_def movRegalo_def movBase_def

section \<open>Fixed and variable toggles\<close>

text \<open>
  Claim C5. The fixed/variable filter keeps a row exactly when its \<open>fijo\<close> is the
  boolean true and the fixed toggle is on, or its \<open>fijo\<close> is anything else and the
  variable toggle is on. With both toggles off the result is the empty list, and
  filtering the result again with the same toggles changes nothing. The same holds for
  the income filter and for the expense filter.
\<close>

theorem fijo_variable_filter:
  "filteredIngresos rows showFijos showVariables =
     filter (\<lambda>mov. (fijo mov = JBool True \<and> showFijos) \<or>
                    (fijo mov \<noteq> JBool True \<and> showVariables)) rows \<and>
   filteredIngresos rows False False = [] \<and>
   filteredIngresos (filteredIngresos rows showFijos showVariables) showFijos showVariables =
     filteredIngresos rows showFijos showVariables \<and>
   filteredGastos rows showFijos showVariables =
     filter (\<lambda>mov. (fijo mov = JBool True \<and> showFijos) \<or>
                    (fijo mov \<noteq> JBool True \<and> showVariables)) rows \<and>
   filteredGastos rows False False = [] \<and>
   filteredGastos (filteredGastos rows showFijos showVariables) showFijos showVariables =
     filteredGastos rows showFijos showVariables"
proof -
  have i: "filteredIngresos rs f v =
     filter (\<lambda>mov. (fijo mov = JBool True \<and> f) \<or> (fijo mov \<noteq> JBool True \<and> v)) rs"
    for rs f v
    unfolding filteredIngresos_def Let_def by (rule filter_cong) auto
  have g: "filteredGastos rs f v =
     filter (\<lambda>mov. (fijo mov = JBool True \<and> f) \<or> (fijo mov \<noteq> JBool True \<and> v)) rs"
    for rs f v
    unfolding filteredGastos_def Let_def by (rule filter_cong) auto
  show ?thesis
    unfolding i g by simp
qed

theorem fijo_variable_filter_witness:
  "filteredIngresos rowsEjemplo True False = [withKind asciiHost movNomina] \<and>
   filteredIngresos rowsEjemplo False True =
     [withKind asciiHost movVenta, withKind asciiHost movRegalo] \<and>
   filteredIngresos rowsEjemplo False False = [] \<and>
   filteredGastos rowsEjemplo True True = rowsEjemplo"
proof -
  have f: "fijo (withKind asciiHost movNomina) = JBool True"
    "fijo (withKind asciiHost movVenta) = JBool False"
    "fijo (withKind asciiHost movRegalo) = JNull"
    by (simp_all add: withKind_fields ejemplo_defs)
  show ?thesis
    using fijo_variable_filter [of rowsEjemplo True False]
      fijo_variable_filter [of rowsEjemplo False True]
      fijo_variable_filter [of rowsEjemplo True True]
    by (simp add: rowsEjemplo_def f)
qed

section \<open>Category selection\<close>

text \<open>
  Claim C9. When the selected income category is not the sentinel \<open>todas\<close> and is not
  the category name of any row left by the fixed/variable toggles, the selection that
  is applied is \<open>todas\<close> and the rows shown are all the toggle-filtered rows. The same
  holds for the expense side. The operations are total functions: no error arises.
\<close>

theorem stale_category_shows_all:
  "(selected \<noteq> todas \<and> selected \<notin> categoryName ` set (filteredIngresos rows showFijos showVariables) \<longrightarrow>
      safeSelectedIngresosCategory h (filteredIngresos rows showFijos showVariables) selected = todas \<and>
      displayedIngresos h (filteredIngresos rows showFijos showVariables) selected =
        displayedIngresos h (filteredIngresos rows showFijos showVariables) todas \<and>
      displayedIngresos h (filteredIngresos rows showFijos showVariables) selected =
        filteredIngresos rows showFijos showVariables) \<and>
   (selected \<noteq> todas \<and> selected \<notin> categoryName ` set (filteredGastos rows showFijos showVariables) \<longrightarrow>
      safeSelectedGastosCategory h (filteredGastos rows showFijos showVariables) selected = todas \<and>
      displayedGastos h (filteredGastos rows showFijos showVariables) selected =
        displayedGastos h (filteredGastos rows showFijos showVariables) todas \<and>
      displayedGastos h (filteredGastos rows showFijos showVariables) selected =
        filteredGastos rows showFijos showVariables)"
  by (simp add: safeSelectedIngresosCategory_def safeSelectedGastosCategory_def
      displayedIngresos_def displayedGastos_def ingresoCategories_def gastoCategories_def
      set_jsSort set_setFrom)

theorem stale_category_shows_all_witness:
  "js ''Ocio'' \<noteq> todas \<and>
   filteredIngresos rowsEjemplo False True =
     [withKind asciiHost movVenta, withKind asciiHost movRegalo] \<and>
   displayedIngresos asciiHost (filteredIngresos rowsEjemplo False True) (js ''Ocio'') =
     [withKind asciiHost movVenta, withKind asciiHost movRegalo] \<and>
   displayedIngresos asciiHost (filteredIngresos rowsEjemplo False True) (js ''Nomina'') =
     [withKind asciiHost movVenta, withKind asciiHost movRegalo] \<and>
   displayedGastos asciiHost (filteredGastos rowsEjemplo True False) (js ''Ventas'') =
     [withKind asciiHost movNomina]"
proof -
  have f: "fijo (withKind asciiHost movNomina) = JBool True"
    "fijo (withKind asciiHost movVenta) = JBool False"
    "fijo (withKind asciiHost movRegalo) = JNull"
    by (simp_all add: withKind_fields ejemplo_defs)
  have c: "categoryName (withKind asciiHost movNomina) = js ''Nomina''"
    "categoryName (withKind asciiHost movVenta) = js ''Ventas''"
    "categoryName (withKind asciiHost movRegalo) = sinCategoria"
    by (simp_all add: withKind_fields ejemplo_defs)
  have fi: "filteredIngresos rowsEjemplo False True =
      [withKind asciiHost movVenta, withKind asciiHost movRegalo]"
    by (simp add: filteredIngresos_def rowsEjemplo_def f)
  have fg: "filteredGastos rowsEjemplo True False = [withKind asciiHost movNomina]"
    by (simp add: filteredGastos_def rowsEjemplo_def f)
  have ne: "js ''Ocio'' \<noteq> todas" "js ''Nomina'' \<noteq> todas" "js ''Ventas'' \<noteq> todas"
    "js ''Ocio'' \<noteq> js ''Ventas''" "js ''Ocio'' \<noteq> sinCategoria"
    "js ''Nomina'' \<noteq> js ''Ventas''" "js ''Nomina'' \<noteq> sinCategoria"
    "js ''Ventas'' \<noteq> js ''Nomina''"
    by (simp_all add: js_def todas_def sinCategoria_def)
  have p1: "js ''Ocio'' \<noteq> todas \<and>
      js ''Ocio'' \<notin> categoryName ` set (filteredIngresos rowsEjemplo False True)"
    by (simp add: fi c ne)
  have p2: "js ''Nomina'' \<noteq> todas \<and>
      js ''Nomina'' \<notin> categoryName ` set (filteredIngresos rowsEjemplo False True)"
    by (simp add: fi c ne)
  have p3: "js ''Ventas'' \<noteq> todas \<and>
      js ''Ventas'' \<notin> categoryName ` set (filteredGastos rowsEjemplo True False)"
    by (simp add: fg c ne)
  have d1: "displayedIngresos asciiHost (filteredIngresos rowsEjemplo False True) (js ''Ocio'') =
      filteredIngresos rowsEjemplo False True"
    using stale_category_shows_all [of "js ''Ocio''" rowsEjemplo False True asciiHost] p1
    by blast
  have d2: "displayedIngresos asciiHost (filteredIngresos rowsEjemplo False True) (js ''Nomina'') =
      filteredIngresos rowsEjemplo False True"
    using stale_category_shows_all [of "js ''Nomina''" rowsEjemplo False True asciiHost] p2
    by blast
  have d3: "displayedGastos asciiHost (filteredGastos rowsEjemplo True False) (js ''Ventas'') =
      filteredGastos rowsEjemplo True False"
    using stale_category_shows_all [of "js ''Ventas''" rowsEjemplo True False asciiHost] p3
    by blast
  show ?thesis
    unfolding d1 d2 d3 by (simp add: fi fg ne)
qed

section \<open>Grouping\<close>

lemma scale53_up:
  "j \<le> fuel \<Longrightarrow> 2 ^ 52 \<le> m * 2 ^ j \<Longrightarrow> m * 2 ^ j < 2 ^ 53 \<Longrightarrow> - 1074 \<le> e - int j \<Longrightarrow>
   scale53 fuel m e = (m * 2 ^ j, e - int j)"
proof (induction j arbitrary: fuel m e)
  case 0
  then show ?case by (cases fuel) simp_all
next
  case (Suc j)
  then obtain fuel' where f: "fuel = Suc fuel'" and le: "j \<le> fuel'"
    by (cases fuel) simp_all
  have "m * 2 ^ Suc j = m * 2 * 2 ^ j" by simp
  with Suc.prems have a: "2 ^ 52 \<le> m * 2 * 2 ^ j" and b: "m * 2 * 2 ^ j < 2 ^ 53"
    by simp_all
  have "(1::real) \<le> 2 ^ j" by simp
  then have "m * 2 \<le> m * 2 * 2 ^ j" if "0 \<le> m"
    using that by (simp add: mult_le_cancel_left1)
  moreover have "0 \<le> m"
  proof (rule ccontr)
    assume "\<not> 0 \<le> m"
    then have "m * 2 * 2 ^ j < 0" by (simp add: mult_neg_pos)
    with a show False by simp
  qed
  ultimately have "m * 2 < 2 ^ 53" using b by linarith
  then have small: "m < 2 ^ 52" by simp
  from Suc.prems have e: "- 1074 < e" "- 1074 \<le> (e - 1) - int j" by simp_all
  from small have nb: "\<not> 2 ^ 53 \<le> m" by simp
  have "scale53 fuel m e = scale53 fuel' (m * 2) (e - 1)"
    using f small nb e by simp
  also have "\<dots> = (m * 2 * 2 ^ j, (e - 1) - int j)"
    using le a b e(2) by (rule Suc.IH)
  finally show ?case by simp
qed

lemma round64_up:
  assumes "2 ^ 52 \<le> \<bar>x\<bar> * 2 ^ j" "\<bar>x\<bar> * 2 ^ j < 2 ^ 53" "j \<le> 1074"
  shows "round64 x = sgn x * of_int (roundHalfEven (\<bar>x\<bar> * 2 ^ j)) / 2 ^ j"
proof -
  have "scale53 2200 \<bar>x\<bar> 0 = (\<bar>x\<bar> * 2 ^ j, 0 - int j)"
    using assms by (intro scale53_up) simp_all
  then show ?thesis
    by (simp add: round64_def pow2_def)
qed

lemma round64_zero: "round64 0 = 0"
  by (simp add: round64_def split: prod.split)

lemma jsAdd_zero: "jsAdd 0 0 = 0"
  by (simp add: jsAdd_def round64_zero)


lemma sum_list_jsSort: "(\<Sum>x\<leftarrow>jsSort cmp xs. (f x :: real)) = (\<Sum>x\<leftarrow>xs. f x)"
proof -
  have "mset (map f (jsSort cmp xs)) = mset (map f xs)"
    by (simp add: mset_jsSort)
  then show ?thesis
    by (metis sum_mset_sum_list)
qed

lemma distinct_map_jsSort: "distinct (map f (jsSort cmp xs)) \<longleftrightarrow> distinct (map f xs)"
proof -
  have "mset (map f (jsSort cmp xs)) = mset (map f xs)"
    by (simp add: mset_jsSort)
  then show ?thesis
    by (rule mset_eq_imp_distinct_iff)
qed

lemma toGroupedRow_fields:
  "g_total (toGroupedRow options row) = acc_total row"
  "g_key (toGroupedRow options row) = acc_key row"
  by (simp_all add: toGroupedRow_def Let_def)


lemma map_of_mapSet: "map_of (mapSet m k v) = (map_of m)(k \<mapsto> v)"
  by (induction m) (auto simp add: fun_eq_iff)

lemma keys_mapSet: "fst ` set (mapSet m k v) = insert k (fst ` set m)"
  by (induction m) auto

lemma distinct_mapSet: "distinct (map fst m) \<Longrightarrow> distinct (map fst (mapSet m k v))"
proof (induction m)
  case Nil
  then show ?case by simp
next
  case (Cons p ps)
  then show ?case
    using keys_mapSet [of ps k v] by (auto simp add: image_iff)
qed

lemma bucketInv_step:
  assumes "bucketInv options rows grouped"
  shows "bucketInv options (rows @ [mov]) (groupStep h options grouped mov)"
proof -
  let ?k = "groupKey options mov"
  let ?bucket = "\<lambda>k rs. foldl jsAdd 0 (map (\<lambda>m. \<bar>amountOf m\<bar>) (filter (\<lambda>m. groupKey options m = k) rs))"
  obtain v where step: "groupStep h options grouped mov = mapSet grouped ?k v"
    and key: "acc_key v = (case map_of grouped ?k of Some e \<Rightarrow> acc_key e | None \<Rightarrow> ?k)"
    and tot: "acc_total v =
      jsAdd (case map_of grouped ?k of Some e \<Rightarrow> acc_total e | None \<Rightarrow> 0) \<bar>amountOf mov\<bar>"
    by (simp add: groupStep_def Let_def mapGet_def split: option.split)
  from assms have d: "distinct (map fst grouped)"
    and ks: "fst ` set grouped = groupKey options ` set rows"
    and inv: "\<And>k e. (k, e) \<in> set grouped \<Longrightarrow> acc_key e = k \<and> acc_total e = ?bucket k rows"
    by (auto simp add: bucketInv_def)
  have d': "distinct (map fst (mapSet grouped ?k v))"
    using d by (rule distinct_mapSet)
  have ks': "fst ` set (mapSet grouped ?k v) = groupKey options ` set (rows @ [mov])"
    using ks by (simp add: keys_mapSet)
  have none: "?bucket ?k rows = 0" if "map_of grouped ?k = None"
  proof -
    from that have "?k \<notin> fst ` set grouped"
      by (simp add: map_of_eq_None_iff)
    with ks have "?k \<notin> groupKey options ` set rows"
      by simp
    then have "filter (\<lambda>m. groupKey options m = ?k) rows = []"
      unfolding filter_empty_conv by (metis imageI)
    then show ?thesis by simp
  qed
  have v_ok: "acc_key v = ?k \<and> acc_total v = ?bucket ?k (rows @ [mov])"
  proof (cases "map_of grouped ?k")
    case None
    with key tot none show ?thesis by simp
  next
    case (Some e)
    then have "(?k, e) \<in> set grouped" by (rule map_of_SomeD)
    with inv Some key tot show ?thesis by simp
  qed
  have "acc_key e = k \<and> acc_total e = ?bucket k (rows @ [mov])"
    if mem: "(k, e) \<in> set (mapSet grouped ?k v)" for k e
  proof -
    from mem d' have "map_of (mapSet grouped ?k v) k = Some e"
      by simp
    then have m: "((map_of grouped)(?k \<mapsto> v)) k = Some e"
      by (simp add: map_of_mapSet)
    show ?thesis
    proof (cases "k = ?k")
      case True
      with m v_ok show ?thesis by simp
    next
      case False
      with m have "map_of grouped k = Some e" by simp
      then have "(k, e) \<in> set grouped" by (rule map_of_SomeD)
      with inv False show ?thesis by auto
    qed
  qed
  with d' ks' show ?thesis
    unfolding bucketInv_def step by blast
qed

lemma bucketInv_foldl: "bucketInv options rows (foldl (groupStep h options) [] rows)"
proof (induction rows rule: rev_induct)
  case Nil
  show ?case by (simp add: bucketInv_def)
next
  case (snoc mov rows)
  then show ?case by (simp add: bucketInv_step)
qed

lemma grouped_rows_image:
  "set (buildGroupedRows h rows options) =
     (\<lambda>p. toGroupedRow options (snd p)) ` set (foldl (groupStep h options) [] rows)"
  by (simp add: buildGroupedRows_def Let_def set_jsSort image_image)

lemma sum_list_absent:
  "a \<notin> set ks \<Longrightarrow> (\<Sum>k\<leftarrow>ks. if a = k then {#x#} else ({#} :: 'b multiset)) = {#}"
  by (induction ks) auto

lemma sum_list_single:
  "distinct ks \<Longrightarrow> a \<in> set ks \<Longrightarrow>
   (\<Sum>k\<leftarrow>ks. if a = k then {#x#} else ({#} :: 'b multiset)) = {#x#}"
  by (induction ks) (auto simp add: sum_list_absent)

lemma partition_by_keys:
  "distinct ks \<Longrightarrow> f ` set xs \<subseteq> set ks \<Longrightarrow>
   (\<Sum>k\<leftarrow>ks. mset (filter (\<lambda>x. f x = k) xs)) = mset xs"
proof (induction xs)
  case Nil
  show ?case by (induction ks) simp_all
next
  case (Cons x xs)
  have "(\<Sum>k\<leftarrow>ks. mset (filter (\<lambda>y. f y = k) (x # xs))) =
        (\<Sum>k\<leftarrow>ks. (if f x = k then {#x#} else {#}) + mset (filter (\<lambda>y. f y = k) xs))"
    by (intro arg_cong [where f = sum_list] map_cong refl) simp
  also have "\<dots> = (\<Sum>k\<leftarrow>ks. if f x = k then {#x#} else {#}) +
        (\<Sum>k\<leftarrow>ks. mset (filter (\<lambda>y. f y = k) xs))"
    by (simp add: sum_list_addf)
  also have "\<dots> = {#x#} + mset xs"
    using Cons by (simp add: sum_list_single)
  finally show ?case by simp
qed

lemma jsAdd_comida: "jsAdd 0 20 = 20" "jsAdd 20 10 = 30" "jsAdd 0 10 = 10"
  unfolding jsAdd_def
  using round64_up [of "0 + 20" 48] round64_up [of "20 + 10" 48] round64_up [of "0 + 10" 49]
  by (simp_all add: roundHalfEven_def)

lemma round64_decimales:
  "round64 (3 / 10) = 5404319552844595 / 18014398509481984"
  "round64 (1 / 5) = 3602879701896397 / 18014398509481984"
  "round64 (1 / 10) = 3602879701896397 / 36028797018963968"
  using round64_up [of "3 / 10" 54] round64_up [of "1 / 5" 55] round64_up [of "1 / 10" 56]
  by (simp_all add: roundHalfEven_def)

lemma jsAdd_decimales:
  "jsAdd 0 (5404319552844595 / 18014398509481984) = 5404319552844595 / 18014398509481984"
  "jsAdd 0 (3602879701896397 / 18014398509481984) = 3602879701896397 / 18014398509481984"
  "jsAdd (5404319552844595 / 18014398509481984) (3602879701896397 / 36028797018963968) =
     3602879701896397 / 9007199254740992"
  "jsAdd 0 (3602879701896397 / 9007199254740992) = 3602879701896397 / 9007199254740992"
  "jsAdd (3602879701896397 / 9007199254740992) (3602879701896397 / 18014398509481984) =
     1351079888211149 / 2251799813685248"
  "jsAdd (5404319552844595 / 18014398509481984) (3602879701896397 / 18014398509481984) = 1 / 2"
  "jsAdd (1 / 2) (3602879701896397 / 36028797018963968) = 5404319552844595 / 9007199254740992"
  unfolding jsAdd_def
  using round64_up [of "0 + 5404319552844595 / 18014398509481984" 54]
    round64_up [of "0 + 3602879701896397 / 18014398509481984" 55]
    round64_up [of "5404319552844595 / 18014398509481984 + 3602879701896397 / 36028797018963968" 54]
    round64_up [of "0 + 3602879701896397 / 9007199254740992" 54]
    round64_up [of "3602879701896397 / 9007199254740992 + 3602879701896397 / 18014398509481984" 53]
    round64_up [of "5404319552844595 / 18014398509481984 + 3602879701896397 / 18014398509481984" 53]
    round64_up [of "1 / 2 + 3602879701896397 / 36028797018963968" 53]
  by (simp_all add: roundHalfEven_def)

lemma comida_fields:
  "categoryName (withKind asciiHost movRenta) = js ''Comida''"
  "categoryName (withKind asciiHost movSnacks) = js ''Comida''"
  "fijo (withKind asciiHost movRenta) = JBool True"
  "fijo (withKind asciiHost movSnacks) = JBool False"
  "importe (withKind asciiHost movRenta) = Some (- 20)"
  "importe (withKind asciiHost movSnacks) = Some 10"
  "fecha (withKind asciiHost movRenta) = js ''2024-01-15''"
  "fecha (withKind asciiHost movSnacks) = js ''2024-01-15''"
  by (simp_all add: withKind_fields movRenta_def movSnacks_def movBase_def)

lemma comida_details:
  "detailText (withKind asciiHost movRenta) = Some (js ''Renta'')"
  "detailText (withKind asciiHost movSnacks) = Some (js ''Snacks'')"
  by (simp_all add: withKind_fields movRenta_def movSnacks_def movBase_def detailTextOf_def
      jsTrim_def isWhiteSpace_def js_def)


lemma key1: "groupKey soloCategoria (withKind asciiHost movRenta) = js ''Comida||todas''"
  by (simp add: groupKey_def soloCategoria_def comida_fields todas_def js_def)

lemma step1: "groupStep asciiHost soloCategoria [] (withKind asciiHost movRenta) =
   [(js ''Comida||todas'', \<lparr> acc_key = js ''Comida||todas'', acc_categoryName = js ''Comida'',
      acc_detailText = js ''Renta'', acc_total = 20, acc_hasFijo = True, acc_hasVariable = False,
      acc_latestDate = 0, acc_categories = [js ''Comida''], acc_details = [js ''Renta''] \<rparr>)]"
  by (simp add: groupStep_def key1 Let_def comida_fields comida_details mapGet_def setAdd_def
      amountOf_def asciiHost_sel jsAdd_comida)
lemma key2: "groupKey soloCategoria (withKind asciiHost movSnacks) = js ''Comida||todas''"
  by (simp add: groupKey_def soloCategoria_def comida_fields todas_def js_def)

lemma step2: "groupStep asciiHost soloCategoria 
   [(js ''Comida||todas'', \<lparr> acc_key = js ''Comida||todas'', acc_categoryName = js ''Comida'',
      acc_detailText = js ''Renta'', acc_total = 20, acc_hasFijo = True, acc_hasVariable = False,
      acc_latestDate = 0, acc_categories = [js ''Comida''], acc_details = [js ''Renta''] \<rparr>)] (withKind asciiHost movSnacks) =
   [(js ''Comida||todas'', \<lparr> acc_key = js ''Comida||todas'', acc_categoryName = js ''Comida'',
      acc_detailText = js ''Renta'', acc_total = 30, acc_hasFijo = True, acc_hasVariable = True,
      acc_latestDate = 0, acc_categories = [js ''Comida''], acc_details = [js ''Renta'', js ''Snacks''] \<rparr>)]"
proof -
  have ne: "js ''Snacks'' \<noteq> js ''Renta''" by (simp add: js_def)
  show ?thesis
  by (simp add: groupStep_def key2 Let_def comida_fields comida_details mapGet_def setAdd_def
      amountOf_def asciiHost_sel ne jsAdd_comida)
qed

lemma comida_grouped:
  "buildGroupedRows asciiHost rowsComida soloCategoria =
     [\<lparr> g_key = js ''Comida||todas'', g_categoryName = js ''Comida'',
        g_detailText = js ''Varias'', g_total = 30, g_fijoLabel = Mixto, g_latestDate = 0 \<rparr>]"
proof -
  have g: "foldl (groupStep asciiHost soloCategoria) [] rowsComida =
     [(js ''Comida||todas'', \<lparr> acc_key = js ''Comida||todas'', acc_categoryName = js ''Comida'',
        acc_detailText = js ''Renta'', acc_total = 30, acc_hasFijo = True, acc_hasVariable = True,
        acc_latestDate = 0, acc_categories = [js ''Comida''],
        acc_details = [js ''Renta'', js ''Snacks''] \<rparr>)]"
    by (simp add: rowsComida_def step1 step2)
  show ?thesis
    unfolding buildGroupedRows_def Let_def g
    by (simp add: toGroupedRow_def jsSort_def soloCategoria_def)
qed


lemma decimales_fields:
  "categoryName (withKind asciiHost (movDecimal cid name x)) = js name"
  "fijo (withKind asciiHost (movDecimal cid name x)) = JBool False"
  "importe (withKind asciiHost (movDecimal cid name x)) = Some (round64 x)"
  "fecha (withKind asciiHost (movDecimal cid name x)) = js ''2024-01-15''"
  "detailText (withKind asciiHost (movDecimal cid name x)) = None"
  by (simp_all add: withKind_fields movDecimal_def movBase_def detailTextOf_def)

lemma decimales_keys:
  "groupKey soloCategoria (withKind asciiHost (movDecimal cid ''Comida'' x)) = js ''Comida||todas''"
  "groupKey soloCategoria (withKind asciiHost (movDecimal cid ''Ocio'' x)) = js ''Ocio||todas''"
  by (simp_all add: groupKey_def soloCategoria_def decimales_fields todas_def js_def)

lemma decimales_step1:
  "groupStep asciiHost soloCategoria [] (withKind asciiHost (movDecimal ''c3'' ''Comida'' (3 / 10))) =
   [(js ''Comida||todas'', \<lparr> acc_key = js ''Comida||todas'', acc_categoryName = js ''Comida'',
      acc_detailText = sinDetalle, acc_total = 5404319552844595 / 18014398509481984,
      acc_hasFijo = False, acc_hasVariable = True,
      acc_latestDate = 0, acc_categories = [js ''Comida''], acc_details = [sinDetalle] \<rparr>)]"
  by (simp add: groupStep_def decimales_keys Let_def decimales_fields mapGet_def setAdd_def
      amountOf_def asciiHost_sel round64_decimales jsAdd_decimales)

lemma decimales_step2:
  "groupStep asciiHost soloCategoria
   [(js ''Comida||todas'', \<lparr> acc_key = js ''Comida||todas'', acc_categoryName = js ''Comida'',
      acc_detailText = sinDetalle, acc_total = 5404319552844595 / 18014398509481984,
      acc_hasFijo = False, acc_hasVariable = True,
      acc_latestDate = 0, acc_categories = [js ''Comida''], acc_details = [sinDetalle] \<rparr>)]
   (withKind asciiHost (movDecimal ''c5'' ''Ocio'' (1 / 5))) =
   [(js ''Comida||todas'', \<lparr> acc_key = js ''Comida||todas'', acc_categoryName = js ''Comida'',
      acc_detailText = sinDetalle, acc_total = 5404319552844595 / 18014398509481984,
      acc_hasFijo = False, acc_hasVariable = True,
      acc_latestDate = 0, acc_categories = [js ''Comida''], acc_details = [sinDetalle] \<rparr>),
    (js ''Ocio||todas'', \<lparr> acc_key = js ''Ocio||todas'', acc_categoryName = js ''Ocio'',
      acc_detailText = sinDetalle, acc_total = 3602879701896397 / 18014398509481984,
      acc_hasFijo = False, acc_hasVariable = True,
      acc_latestDate = 0, acc_categories = [js ''Ocio''], acc_details = [sinDetalle] \<rparr>)]"
proof -
  have ne: "js ''Ocio||todas'' \<noteq> js ''Comida||todas''" "js ''Comida||todas'' \<noteq> js ''Ocio||todas''"
    by (simp_all add: js_def)
  show ?thesis
    by (simp add: groupStep_def decimales_keys Let_def decimales_fields mapGet_def
        setAdd_def amountOf_def asciiHost_sel round64_decimales jsAdd_decimales ne)
qed

lemma decimales_step3:
  "groupStep asciiHost soloCategoria
   [(js ''Comida||todas'', \<lparr> acc_key = js ''Comida||todas'', acc_categoryName = js ''Comida'',
      acc_detailText = sinDetalle, acc_total = 5404319552844595 / 18014398509481984,
      acc_hasFijo = False, acc_hasVariable = True,
      acc_latestDate = 0, acc_categories = [js ''Comida''], acc_details = [sinDetalle] \<rparr>),
    (js ''Ocio||todas'', \<lparr> acc_key = js ''Ocio||todas'', acc_categoryName = js ''Ocio'',
      acc_detailText = sinDetalle, acc_total = 3602879701896397 / 18014398509481984,
      acc_hasFijo = False, acc_hasVariable = True,
      acc_latestDate = 0, acc_categories = [js ''Ocio''], acc_details = [sinDetalle] \<rparr>)]
   (withKind asciiHost (movDecimal ''c3'' ''Comida'' (1 / 10))) =
   [(js ''Comida||todas'', \<lparr> acc_key = js ''Comida||todas'', acc_categoryName = js ''Comida'',
      acc_detailText = sinDetalle, acc_total = 3602879701896397 / 9007199254740992,
      acc_hasFijo = False, acc_hasVariable = True,
      acc_latestDate = 0, acc_categories = [js ''Comida''], acc_details = [sinDetalle] \<rparr>),
    (js ''Ocio||todas'', \<lparr> acc_key = js ''Ocio||todas'', acc_categoryName = js ''Ocio'',
      acc_detailText = sinDetalle, acc_total = 3602879701896397 / 18014398509481984,
      acc_hasFijo = False, acc_hasVariable = True,
      acc_latestDate = 0, acc_categories = [js ''Ocio''], acc_details = [sinDetalle] \<rparr>)]"
  by (simp add: groupStep_def decimales_keys Let_def decimales_fields mapGet_def
      setAdd_def amountOf_def asciiHost_sel round64_decimales jsAdd_decimales)

lemma decimales_grouped:
  "buildGroupedRows asciiHost rowsDecimales soloCategoria =
     [\<lparr> g_key = js ''Comida||todas'', g_categoryName = js ''Comida'',
        g_detailText = sinDetalle, g_total = 3602879701896397 / 9007199254740992,
        g_fijoLabel = No, g_latestDate = 0 \<rparr>,
      \<lparr> g_key = js ''Ocio||todas'', g_categoryName = js ''Ocio'',
        g_detailText = sinDetalle, g_total = 3602879701896397 / 18014398509481984,
        g_fijoLabel = No, g_latestDate = 0 \<rparr>]"
proof -
  have g: "foldl (groupStep asciiHost soloCategoria) [] rowsDecimales =
   [(js ''Comida||todas'', \<lparr> acc_key = js ''Comida||todas'', acc_categoryName = js ''Comida'',
      acc_detailText = sinDetalle, acc_total = 3602879701896397 / 9007199254740992,
      acc_hasFijo = False, acc_hasVariable = True,
      acc_latestDate = 0, acc_categories = [js ''Comida''], acc_details = [sinDetalle] \<rparr>),
    (js ''Ocio||todas'', \<lparr> acc_key = js ''Ocio||todas'', acc_categoryName = js ''Ocio'',
      acc_detailText = sinDetalle, acc_total = 3602879701896397 / 18014398509481984,
      acc_hasFijo = False, acc_hasVariable = True,
      acc_latestDate = 0, acc_categories = [js ''Ocio''], acc_details = [sinDetalle] \<rparr>)]"
    by (simp add: rowsDecimales_def decimales_step1 decimales_step2 decimales_step3)
  show ?thesis
    unfolding buildGroupedRows_def Let_def g
    by (simp add: toGroupedRow_def jsSort_def soloCategoria_def)
qed

lemma decimales_magnitudes:
  "map (\<lambda>mov. \<bar>case importe mov of None \<Rightarrow> 0 | Some x \<Rightarrow> x\<bar>) rowsDecimales =
     [5404319552844595 / 18014398509481984, 3602879701896397 / 18014398509481984,
      3602879701896397 / 36028797018963968]"
  by (simp add: rowsDecimales_def decimales_fields round64_decimales)


lemma scale_exists:
  assumes "0 < n" "n < (2::nat) ^ 53"
  shows "\<exists>j\<le>52. 2 ^ 52 \<le> n * 2 ^ j \<and> n * 2 ^ j < 2 ^ 53"
proof -
  define j where "j = (LEAST j. 2 ^ 52 \<le> n * 2 ^ j)"
  have p: "2 ^ 52 \<le> n * 2 ^ (52::nat)"
    using assms(1) by simp
  have pj: "2 ^ 52 \<le> n * 2 ^ j"
    unfolding j_def using p by (rule LeastI)
  have le: "j \<le> 52"
    unfolding j_def using p by (rule Least_le)
  have "n * 2 ^ j < 2 ^ 53"
  proof (cases j)
    case 0
    with assms(2) show ?thesis by simp
  next
    case (Suc i)
    have "\<not> 2 ^ 52 \<le> n * 2 ^ i"
    proof
      assume "2 ^ 52 \<le> n * 2 ^ i"
      then have "j \<le> i" unfolding j_def by (rule Least_le)
      with Suc show False by simp
    qed
    then have "n * 2 ^ i < 2 ^ 52" by simp
    then have "2 * (n * 2 ^ i) < 2 * 2 ^ 52" by simp
    with Suc show ?thesis by (simp add: mult.assoc mult.left_commute)
  qed
  with pj le show ?thesis by blast
qed

lemma roundHalfEven_nat: "roundHalfEven (real k) = int k"
  by (simp add: roundHalfEven_def)

lemma round64_nat:
  assumes "n < (2::nat) ^ 53"
  shows "round64 (real n) = real n"
proof (cases "n = 0")
  case True
  then show ?thesis by (simp add: round64_zero)
next
  case False
  with assms obtain j where j: "j \<le> 52" "2 ^ 52 \<le> n * 2 ^ j" "n * 2 ^ j < 2 ^ 53"
    using scale_exists [of n] by auto
  have e: "\<bar>real n\<bar> * 2 ^ j = real (n * 2 ^ j)"
    by simp
  have a: "2 ^ 52 \<le> \<bar>real n\<bar> * 2 ^ j"
    unfolding e using j(2) by (metis of_nat_le_iff of_nat_numeral of_nat_power)
  have b: "\<bar>real n\<bar> * 2 ^ j < 2 ^ 53"
    unfolding e using j(3) by (metis of_nat_less_iff of_nat_numeral of_nat_power)
  have "round64 (real n) = sgn (real n) * of_int (roundHalfEven (\<bar>real n\<bar> * 2 ^ j)) / 2 ^ j"
    using a b j(1) by (intro round64_up) simp_all
  also have "\<dots> = real (n * 2 ^ j) / 2 ^ j"
    unfolding e roundHalfEven_nat using False by simp
  also have "\<dots> = real n"
    by simp
  finally show ?thesis .
qed

lemma foldl_jsAdd_nat:
  "\<forall>x\<in>set xs. x \<in> \<nat> \<Longrightarrow> a \<in> \<nat> \<Longrightarrow> a + sum_list xs < 2 ^ 53 \<Longrightarrow>
   foldl jsAdd a xs = a + sum_list xs"
proof (induction xs arbitrary: a)
  case Nil
  show ?case by simp
next
  case (Cons x xs)
  from Cons.prems have x: "x \<in> \<nat>" and xs: "\<forall>y\<in>set xs. y \<in> \<nat>"
    by simp_all
  from xs have nn: "0 \<le> sum_list xs"
    by (intro sum_list_nonneg) (metis Nats_cases of_nat_0_le_iff)
  from Cons.prems(2) x have ax: "a + x \<in> \<nat>"
    by (rule Nats_add)
  then obtain n where n: "a + x = real n"
    by (rule Nats_cases)
  from Cons.prems(3) nn have "a + x < 2 ^ 53"
    by simp
  with n have "real n < 2 ^ 53" by simp
  then have "n < 2 ^ 53"
    by (metis of_nat_less_iff of_nat_numeral of_nat_power)
  then have r: "jsAdd a x = a + x"
    unfolding jsAdd_def n by (rule round64_nat)
  have "foldl jsAdd (a + x) xs = a + x + sum_list xs"
    using xs ax Cons.prems(3) by (intro Cons.IH) (simp_all add: add.assoc)
  with r show ?case by (simp add: add.assoc)
qed

lemma sum_list_unpicked:
  "a \<notin> set ks \<Longrightarrow> (\<Sum>k\<leftarrow>ks. if a = k then x else (0::real)) = 0"
  by (induction ks) auto

lemma sum_list_pick:
  "distinct ks \<Longrightarrow> a \<in> set ks \<Longrightarrow>
   (\<Sum>k\<leftarrow>ks. if a = k then x else (0::real)) = x"
  by (induction ks) (auto simp add: sum_list_unpicked)

lemma partition_sum:
  "distinct ks \<Longrightarrow> f ` set xs \<subseteq> set ks \<Longrightarrow>
   (\<Sum>k\<leftarrow>ks. \<Sum>x\<leftarrow>filter (\<lambda>x. f x = k) xs. (g x :: real)) = (\<Sum>x\<leftarrow>xs. g x)"
proof (induction xs)
  case Nil
  show ?case by (induction ks) simp_all
next
  case (Cons x xs)
  have "(\<Sum>k\<leftarrow>ks. \<Sum>y\<leftarrow>filter (\<lambda>y. f y = k) (x # xs). g y) =
        (\<Sum>k\<leftarrow>ks. (if f x = k then g x else 0) + (\<Sum>y\<leftarrow>filter (\<lambda>y. f y = k) xs. g y))"
    by (intro arg_cong [where f = sum_list] map_cong refl) simp
  also have "\<dots> = (\<Sum>k\<leftarrow>ks. if f x = k then g x else 0) +
        (\<Sum>k\<leftarrow>ks. \<Sum>y\<leftarrow>filter (\<lambda>y. f y = k) xs. g y)"
    by (simp add: sum_list_addf)
  also have "\<dots> = g x + (\<Sum>y\<leftarrow>xs. g y)"
    using Cons by (simp add: sum_list_pick)
  finally show ?case by simp
qed

lemma sum_list_filter_le:
  "\<forall>x\<in>set xs. 0 \<le> (g x :: real) \<Longrightarrow> (\<Sum>x\<leftarrow>filter P xs. g x) \<le> (\<Sum>x\<leftarrow>xs. g x)"
  by (induction xs) auto


lemma sum_list_Nats:
  "\<forall>x\<in>set xs. (g x :: real) \<in> \<nat> \<Longrightarrow> (\<Sum>x\<leftarrow>xs. g x) \<in> \<nat>"
  by (induction xs) (simp_all add: Nats_add)

text \<open>
  Claim C3, as the code has it. \<open>buildGroupedRows\<close> assigns every input row to exactly one
  returned row: the returned rows have distinct keys, these are the bucket keys of the
  input rows, and the rows of the buckets, taken together, are the input rows, each
  once. The total of a returned row is the double-precision sum, in input order, of
  \<open>abs(importe ?? 0)\<close> over the rows of its bucket. When every magnitude is a whole
  number and the magnitudes add up to less than \<open>2 ^ 53\<close>, no addition rounds, and the
  totals of the returned rows add up to the sum of the magnitudes of the input rows,
  both exactly and when they are added in double precision in the order returned.
\<close>

theorem grouped_totals_per_bucket:
  "distinct (map g_key (buildGroupedRows h rows options)) \<and>
   g_key ` set (buildGroupedRows h rows options) = groupKey options ` set rows \<and>
   (\<Sum>row\<leftarrow>buildGroupedRows h rows options.
      mset (filter (\<lambda>m. groupKey options m = g_key row) rows)) = mset rows \<and>
   (\<forall>row \<in> set (buildGroupedRows h rows options).
      g_total row =
        foldl jsAdd 0
          (map (\<lambda>mov. \<bar>case importe mov of None \<Rightarrow> 0 | Some x \<Rightarrow> x\<bar>)
            (filter (\<lambda>m. groupKey options m = g_key row) rows))) \<and>
   ((\<forall>mov \<in> set rows. \<bar>case importe mov of None \<Rightarrow> 0 | Some x \<Rightarrow> x\<bar> \<in> \<nat>) \<and>
    (\<Sum>mov\<leftarrow>rows. \<bar>case importe mov of None \<Rightarrow> 0 | Some x \<Rightarrow> x\<bar>) < 2 ^ 53 \<longrightarrow>
      (\<Sum>row\<leftarrow>buildGroupedRows h rows options. g_total row) =
        (\<Sum>mov\<leftarrow>rows. \<bar>case importe mov of None \<Rightarrow> 0 | Some x \<Rightarrow> x\<bar>) \<and>
      foldl jsAdd 0 (map g_total (buildGroupedRows h rows options)) =
        (\<Sum>mov\<leftarrow>rows. \<bar>case importe mov of None \<Rightarrow> 0 | Some x \<Rightarrow> x\<bar>))"
proof -
  let ?G = "foldl (groupStep h options) [] rows"
  let ?out = "buildGroupedRows h rows options"
  let ?mag = "\<lambda>mov :: MovRow. \<bar>case importe mov of None \<Rightarrow> 0 | Some x \<Rightarrow> x\<bar>"
  let ?bucket = "\<lambda>k. filter (\<lambda>m. groupKey options m = k) rows"
  have mag: "(\<lambda>mov :: MovRow. \<bar>amountOf mov\<bar>) = ?mag"
    by (simp add: amountOf_def)
  have inv: "bucketInv options rows ?G"
    by (rule bucketInv_foldl)
  then have d: "distinct (map fst ?G)"
    and ks: "fst ` set ?G = groupKey options ` set rows"
    and each: "\<And>k e. (k, e) \<in> set ?G \<Longrightarrow> acc_key e = k \<and>
        acc_total e = foldl jsAdd 0 (map ?mag (?bucket k))"
    unfolding bucketInv_def mag by blast+
  have keys: "map (\<lambda>p. acc_key (snd p)) ?G = map fst ?G"
    using each by (intro map_cong refl) (metis prod.collapse)
  have "map g_key (map (toGroupedRow options) (map snd ?G)) = map (\<lambda>p. acc_key (snd p)) ?G"
    by (simp add: toGroupedRow_fields comp_def)
  also have "\<dots> = map fst ?G"
    by (rule keys)
  finally have e1: "map g_key (map (toGroupedRow options) (map snd ?G)) = map fst ?G" .
  have "distinct (map g_key (map (toGroupedRow options) (map snd ?G)))"
    unfolding e1 by (rule d)
  then have dist: "distinct (map g_key ?out)"
    unfolding buildGroupedRows_def Let_def distinct_map_jsSort .
  have img: "g_key ` set ?out = groupKey options ` set rows"
  proof -
    have "g_key ` set ?out = (\<lambda>p. acc_key (snd p)) ` set ?G"
      by (simp add: grouped_rows_image image_image toGroupedRow_fields)
    also have "\<dots> = set (map (\<lambda>p. acc_key (snd p)) ?G)" by simp
    also have "\<dots> = fst ` set ?G" unfolding keys by simp
    finally show ?thesis using ks by simp
  qed
  have sub: "groupKey options ` set rows \<subseteq> set (map g_key ?out)"
    using img by simp
  have "(\<Sum>k\<leftarrow>map g_key ?out. mset (?bucket k)) = mset rows"
    using dist sub by (rule partition_by_keys)
  then have part: "(\<Sum>row\<leftarrow>?out. mset (?bucket (g_key row))) = mset rows"
    by (simp add: comp_def)
  have per: "g_total row = foldl jsAdd 0 (map ?mag (?bucket (g_key row)))"
    if "row \<in> set ?out" for row
  proof -
    from that obtain k e where m: "(k, e) \<in> set ?G" and r: "row = toGroupedRow options e"
      by (auto simp add: grouped_rows_image)
    from each [OF m] r show ?thesis
      by (simp add: toGroupedRow_fields)
  qed
  have exact: "(\<Sum>row\<leftarrow>?out. g_total row) = (\<Sum>mov\<leftarrow>rows. ?mag mov) \<and>
      foldl jsAdd 0 (map g_total ?out) = (\<Sum>mov\<leftarrow>rows. ?mag mov)"
    if whole: "\<forall>mov \<in> set rows. ?mag mov \<in> \<nat>"
      and small: "(\<Sum>mov\<leftarrow>rows. ?mag mov) < 2 ^ 53"
  proof -
    have nn: "\<forall>mov \<in> set rows. 0 \<le> ?mag mov"
      by simp
    have bucket_exact: "g_total row = (\<Sum>mov\<leftarrow>?bucket (g_key row). ?mag mov)"
      if r: "row \<in> set ?out" for row
    proof -
      have "(\<Sum>mov\<leftarrow>?bucket (g_key row). ?mag mov) \<le> (\<Sum>mov\<leftarrow>rows. ?mag mov)"
        using nn by (rule sum_list_filter_le)
      with small have lt: "0 + sum_list (map ?mag (?bucket (g_key row))) < 2 ^ 53"
        by simp
      have w: "\<forall>x \<in> set (map ?mag (?bucket (g_key row))). x \<in> \<nat>"
        using whole by auto
      have "foldl jsAdd 0 (map ?mag (?bucket (g_key row))) =
            0 + sum_list (map ?mag (?bucket (g_key row)))"
        using w _ lt by (rule foldl_jsAdd_nat) simp
      with per [OF r] show ?thesis by simp
    qed
    have "(\<Sum>row\<leftarrow>?out. g_total row) =
          (\<Sum>row\<leftarrow>?out. \<Sum>mov\<leftarrow>?bucket (g_key row). ?mag mov)"
      using bucket_exact by (intro arg_cong [where f = sum_list] map_cong refl)
    also have "\<dots> = (\<Sum>k\<leftarrow>map g_key ?out. \<Sum>mov\<leftarrow>?bucket k. ?mag mov)"
      by (simp add: comp_def)
    also have "\<dots> = (\<Sum>mov\<leftarrow>rows. ?mag mov)"
      using dist sub by (rule partition_sum)
    finally have s: "(\<Sum>row\<leftarrow>?out. g_total row) = (\<Sum>mov\<leftarrow>rows. ?mag mov)" .
    have tw: "\<forall>x \<in> set (map g_total ?out). x \<in> \<nat>"
    proof
      fix x
      assume "x \<in> set (map g_total ?out)"
      then obtain row where r: "row \<in> set ?out" and x: "x = g_total row"
        by auto
      have "(\<Sum>mov\<leftarrow>?bucket (g_key row). ?mag mov) \<in> \<nat>"
        using whole by (intro sum_list_Nats) auto
      with bucket_exact [OF r] x show "x \<in> \<nat>"
        by simp
    qed
    from s small have lt: "0 + sum_list (map g_total ?out) < 2 ^ 53"
      by simp
    have "foldl jsAdd 0 (map g_total ?out) = 0 + sum_list (map g_total ?out)"
      using tw _ lt by (rule foldl_jsAdd_nat) simp
    with s show ?thesis by simp
  qed
  from dist img part per exact show ?thesis by blast
qed


lemma comida_magnitudes:
  "map (\<lambda>mov. \<bar>case importe mov of None \<Rightarrow> 0 | Some x \<Rightarrow> x\<bar>) rowsComida = [20, 10]"
  by (simp add: rowsComida_def comida_fields)

lemma comida_bucket:
  "filter (\<lambda>m. groupKey soloCategoria m = js ''Comida||todas'') rowsComida = rowsComida"
  by (simp add: rowsComida_def key1 key2)

theorem grouped_totals_per_bucket_witness:
  "buildGroupedRows asciiHost rowsComida soloCategoria =
     [\<lparr> g_key = js ''Comida||todas'', g_categoryName = js ''Comida'',
        g_detailText = js ''Varias'', g_total = 30, g_fijoLabel = Mixto, g_latestDate = 0 \<rparr>] \<and>
   map (\<lambda>mov. \<bar>case importe mov of None \<Rightarrow> 0 | Some x \<Rightarrow> x\<bar>) rowsComida = [20, 10] \<and>
   mset (filter (\<lambda>m. groupKey soloCategoria m = js ''Comida||todas'') rowsComida) =
     mset rowsComida \<and>
   foldl jsAdd 0
     (map (\<lambda>mov. \<bar>case importe mov of None \<Rightarrow> 0 | Some x \<Rightarrow> x\<bar>)
       (filter (\<lambda>m. groupKey soloCategoria m = js ''Comida||todas'') rowsComida)) = 30 \<and>
   (\<Sum>mov\<leftarrow>rowsComida. \<bar>case importe mov of None \<Rightarrow> 0 | Some x \<Rightarrow> x\<bar>) = 30 \<and>
   foldl jsAdd 0 (map g_total (buildGroupedRows asciiHost rowsComida soloCategoria)) = 30"
proof -
  note t = grouped_totals_per_bucket [of asciiHost rowsComida soloCategoria,
      unfolded comida_grouped]
  have whole: "\<forall>mov \<in> set rowsComida. \<bar>case importe mov of None \<Rightarrow> 0 | Some x \<Rightarrow> x\<bar> \<in> \<nat>"
    by (simp add: rowsComida_def comida_fields)
  have total: "(\<Sum>mov\<leftarrow>rowsComida. \<bar>case importe mov of None \<Rightarrow> 0 | Some x \<Rightarrow> x\<bar>) = 30"
    by (simp add: comida_magnitudes)
  from t have "mset (filter (\<lambda>m. groupKey soloCategoria m = js ''Comida||todas'') rowsComida) =
     mset rowsComida"
    by simp
  moreover from t have "foldl jsAdd 0
     (map (\<lambda>mov. \<bar>case importe mov of None \<Rightarrow> 0 | Some x \<Rightarrow> x\<bar>)
       (filter (\<lambda>m. groupKey soloCategoria m = js ''Comida||todas'') rowsComida)) = 30"
    by simp
  moreover from t whole total
  have "foldl jsAdd 0
     (map g_total
       [\<lparr> g_key = js ''Comida||todas'', g_categoryName = js ''Comida'',
          g_detailText = js ''Varias'', g_total = 30, g_fijoLabel = Mixto,
          g_latestDate = 0 \<rparr>]) = 30"
    by simp
  ultimately show ?thesis
    using total by (simp add: comida_grouped comida_magnitudes)
qed

text \<open>
  Claim C3 as it is worded does not hold of the code: the totals are sums of doubles,
  and the rounding of a sum depends on the order and on the grouping of the addends.
  Three expenses of 0.3 (Comida), 0.2 (Ocio) and 0.1 (Comida), grouped by category,
  give the totals 0.4 and 0.2, which add up to 0.6000000000000001 in double precision,
  while the magnitudes of the three rows add up to 0.6; the exact sums of the same
  doubles differ as well.
\<close>

theorem grouped_total_rounding_counterexample:
  "map g_total (buildGroupedRows asciiHost rowsDecimales soloCategoria) =
     [3602879701896397 / 9007199254740992, 3602879701896397 / 18014398509481984] \<and>
   map (\<lambda>mov. \<bar>case importe mov of None \<Rightarrow> 0 | Some x \<Rightarrow> x\<bar>) rowsDecimales =
     [5404319552844595 / 18014398509481984, 3602879701896397 / 18014398509481984,
      3602879701896397 / 36028797018963968] \<and>
   foldl jsAdd 0 (map g_total (buildGroupedRows asciiHost rowsDecimales soloCategoria)) =
     1351079888211149 / 2251799813685248 \<and>
   foldl jsAdd 0 (map (\<lambda>mov. \<bar>case importe mov of None \<Rightarrow> 0 | Some x \<Rightarrow> x\<bar>) rowsDecimales) =
     5404319552844595 / 9007199254740992 \<and>
   (\<Sum>row\<leftarrow>buildGroupedRows asciiHost rowsDecimales soloCategoria. g_total row) \<noteq>
     (\<Sum>mov\<leftarrow>rowsDecimales. \<bar>case importe mov of None \<Rightarrow> 0 | Some x \<Rightarrow> x\<bar>)"
proof -
  have a: "foldl jsAdd 0 (map g_total (buildGroupedRows asciiHost rowsDecimales soloCategoria)) =
     1351079888211149 / 2251799813685248"
    by (simp add: decimales_grouped jsAdd_decimales)
  have b: "foldl jsAdd 0 (map (\<lambda>mov. \<bar>case importe mov of None \<Rightarrow> 0 | Some x \<Rightarrow> x\<bar>) rowsDecimales) =
     5404319552844595 / 9007199254740992"
    unfolding decimales_magnitudes by (simp add: jsAdd_decimales)
  have c: "(\<Sum>row\<leftarrow>buildGroupedRows asciiHost rowsDecimales soloCategoria. g_total row) \<noteq>
     (\<Sum>mov\<leftarrow>rowsDecimales. \<bar>case importe mov of None \<Rightarrow> 0 | Some x \<Rightarrow> x\<bar>)"
    unfolding decimales_magnitudes by (simp add: decimales_grouped)
  from a b c show ?thesis
    by (simp add: decimales_grouped decimales_magnitudes)
qed


section \<open>Sorting with a consistent comparator\<close>


lemma set_jsInsert: "set (jsInsert cmp x ys) = insert x (set ys)"
  by (induction ys) auto

lemma consistentCmp_total: "consistentCmp cmp \<Longrightarrow> \<not> cmp a b \<le> 0 \<Longrightarrow> cmp b a \<le> 0"
  unfolding consistentCmp_def by (metis less_eq_real_def not_le)

lemma consistentCmp_trans:
  "consistentCmp cmp \<Longrightarrow> cmp a b \<le> 0 \<Longrightarrow> cmp b c \<le> 0 \<Longrightarrow> cmp a c \<le> 0"
  unfolding consistentCmp_def by blast

lemma sorted_jsInsert:
  assumes c: "consistentCmp cmp"
  shows "sorted_wrt (\<lambda>a b. cmp a b \<le> 0) ys \<Longrightarrow>
         sorted_wrt (\<lambda>a b. cmp a b \<le> 0) (jsInsert cmp x ys)"
proof (induction ys)
  case Nil
  then show ?case by simp
next
  case (Cons y ys)
  show ?case
  proof (cases "cmp x y \<le> 0")
    case True
    with Cons.prems show ?thesis
      using consistentCmp_trans [OF c] by auto
  next
    case False
    then have yx: "cmp y x \<le> 0"
      by (rule consistentCmp_total [OF c])
    with False Cons show ?thesis
      by (auto simp add: set_jsInsert)
  qed
qed

lemma sorted_jsSort:
  "consistentCmp cmp \<Longrightarrow> sorted_wrt (\<lambda>a b. cmp a b \<le> 0) (jsSort cmp xs)"
  by (induction xs) (simp_all add: jsSort_def sorted_jsInsert)


lemma consistentCmp_asc: "consistentCmp (\<lambda>a b. (f a :: real) - f b)"
  by (auto simp add: consistentCmp_def)

section \<open>Yearly pivot\<close>









section \<open>The pivot on the example movements\<close>


lemma yearOf_2024: "yearOf asciiHost (js ''2024-01-15'') = Some 2024"
  by (simp add: yearOf_def asciiHost_sel js_def digitsToNumber_def)

lemma isFijo_eval:
  "isFijoYearly asciiHost (JBool True)"
  "\<not> isFijoYearly asciiHost (JBool False)"
  "\<not> isFijoYearly asciiHost JNull"
  "isFijoYearly asciiHost (JStr (js ''T''))"
  "\<not> isFijoYearly asciiHost (JStr (js ''0''))"
  by (simp_all add: isFijoYearly_def jsString_def nullish_def asciiHost_sel js_def asciiLower_def)

lemma yearlyKind_eval:
  "yearlyKind asciiHost movRenta = Gasto"
  "yearlyKind asciiHost movNomina = Ingreso"
  "yearlyKind asciiHost movVenta = Ingreso"
  "yearlyKind asciiHost movFijoTexto = Gasto"
  "yearlyKind asciiHost movIngresoCat = Gasto"
  by (simp_all add: yearlyKind_def movRenta_def movNomina_def movVenta_def movFijoTexto_def
      movIngresoCat_def movBase_def label_gasto_plain label_ingreso label_otro amountOf_def)



lemma mapSet_twice: "mapSet (mapSet m k v) k w = mapSet m k w"
  by (induction m) auto

lemma yearlyStep_accepted:
  assumes "yearlyAccepts h sel mov year"
  shows "yearlyStep h sel acc mov =
     \<lparr> yearsSet = setAdd (yearsSet acc) year,
       entryMap =
         mapSet (entryMap acc) (yearlyKey mov)
           (addMovement (priorEntry (entryMap acc) mov) (yearlyKind h mov)
              (isFijoYearly h (fijo mov)) year \<bar>amountOf mov\<bar>) \<rparr>"
  using assms
  by (auto simp add: yearlyAccepts_def yearlyStep_def Let_def selectedYearOf_def
      ensureCategory_def priorEntry_def yearlyKey_def yearlyLabel_def yearlyDetail_def
      entryVacia_def mapSet_twice split: option.split)

lemma yearlyStep_rejected:
  assumes "\<forall>year. \<not> yearlyAccepts h sel mov year"
  shows "entryMap (yearlyStep h sel acc mov) = entryMap acc"
proof (cases "yearOf h (fecha mov)")
  case None
  then show ?thesis
    by (simp add: yearlyStep_def Let_def)
next
  case (Some year)
  with assms [rule_format, of year] show ?thesis
    by (auto simp add: yearlyAccepts_def yearlyStep_def Let_def selectedYearOf_def
        yearlyLabel_def yearlyDetail_def)
qed




lemma accepts_all:
  assumes "selectedYearlyYear sel = todos" "selectedYearlyCategory sel = todas"
    "selectedYearlyDetail sel = todos"
    and "amountOf mov \<noteq> 0" and "yearOf h (fecha mov) = Some year"
  shows "yearlyAccepts h sel mov year"
  using assms by (simp add: yearlyAccepts_def)








section \<open>The fixed flag of the pivot\<close>

lemma digitsOf_range: "c \<in> set (digitsOf fuel n) \<Longrightarrow> 48 \<le> c \<and> c \<le> 57"
proof (induction fuel arbitrary: n)
  case 0
  then show ?case by simp
next
  case (Suc fuel)
  show ?case
  proof (cases "n < 10")
    case True
    with Suc.prems show ?thesis by simp
  next
    case False
    with Suc.prems have "c \<in> set (digitsOf fuel (n div 10)) \<or> c = 48 + n mod 10"
      by auto
    then show ?thesis
    proof
      assume "c \<in> set (digitsOf fuel (n div 10))"
      then show ?thesis by (rule Suc.IH)
    next
      assume c: "c = 48 + n mod 10"
      have "n mod 10 < 10" by simp
      with c show ?thesis by linarith
    qed
  qed
qed

lemma lower_digits_no_t: "116 \<notin> set (map asciiLower (wholeToString x))"
proof
  assume "116 \<in> set (map asciiLower (wholeToString x))"
  then obtain c where c: "c \<in> set (digitsOf 20 (nat \<lfloor>x\<rfloor>))" and l: "asciiLower c = 116"
    by (auto simp add: wholeToString_def)
  from digitsOf_range [OF c] l show False
    by (simp add: asciiLower_def split: if_splits)
qed

lemma hostLabels_asciiHost: "hostLabels asciiHost"
proof -
  have "map asciiLower (wholeToString x) \<noteq> js ''true'' \<and>
        map asciiLower (wholeToString x) \<noteq> js ''t''" for x
    using lower_digits_no_t [of x] by (auto simp add: js_def)
  then show ?thesis
    by (simp add: hostLabels_def asciiHost_sel js_def asciiLower_def)
qed




lemma isFijoYearly_cases:
  assumes "hostLabels h"
  shows "isFijoYearly h v \<longleftrightarrow>
     v = JBool True \<or> v = JNum 1 \<or> v = JStr (js ''1'') \<or>
     (\<exists>s. v = JStr s \<and> (toLowerCase h s = js ''true'' \<or> toLowerCase h s = js ''t''))"
proof -
  from assms have e: "toLowerCase h [] = []"
    and f: "toLowerCase h (js ''false'') = js ''false''"
    and n: "\<And>x. toLowerCase h (numberToString h x) \<noteq> js ''true''"
      "\<And>x. toLowerCase h (numberToString h x) \<noteq> js ''t''"
    by (simp_all add: hostLabels_def)
  have lits: "[] \<noteq> js ''true''" "[] \<noteq> js ''t''" "js ''false'' \<noteq> js ''true''"
    "js ''false'' \<noteq> js ''t''"
    by (simp_all add: js_def)
  show ?thesis
    by (cases v) (auto simp add: isFijoYearly_def jsString_def nullish_def e f n lits)
qed

lemma addMovement_fijo:
  "ingresoVariable (addMovement entry k True year amount) = ingresoVariable entry"
  "gastoVariable (addMovement entry k True year amount) = gastoVariable entry"
  "valueAt (ingresoFijo (addMovement entry Ingreso True year amount)) year =
     valueAt (ingresoFijo entry) year + amount"
  "valueAt (gastoFijo (addMovement entry Gasto True year amount)) year =
     valueAt (gastoFijo entry) year + amount"
  by (simp_all add: addMovement_def addTo_def valueAt_def)

lemma addMovement_variable:
  "ingresoFijo (addMovement entry k False year amount) = ingresoFijo entry"
  "gastoFijo (addMovement entry k False year amount) = gastoFijo entry"
  "valueAt (ingresoVariable (addMovement entry Ingreso False year amount)) year =
     valueAt (ingresoVariable entry) year + amount"
  "valueAt (gastoVariable (addMovement entry Gasto False year amount)) year =
     valueAt (gastoVariable entry) year + amount"
  by (simp_all add: addMovement_def addTo_def valueAt_def)

text \<open>
  Claim C8. In the pivot a movement counts as fixed exactly when its \<open>fijo\<close> is the
  boolean true, the number 1, the string \<open>"1"\<close>, or a string that lower-cases to
  \<open>"true"\<close> or \<open>"t"\<close>; \<open>null\<close>, \<open>undefined\<close>, \<open>false\<close> and \<open>"0"\<close> do not. A fixed
  movement is added to the fixed series of its kind and leaves the variable series as
  they are; any other movement is added to the variable series of its kind and leaves
  the fixed series as they are. The loop of the builder does this: for a movement that
  passes its guards, the step stores under the movement's key the entry with the
  magnitude added to the fixed series when \<open>fijo\<close> is one of those values and to the
  variable series otherwise; a movement that does not pass the guards leaves the map
  as it is.
\<close>

theorem yearly_fijo_routing:
  assumes "hostLabels h"
  shows "(isFijoYearly h v \<longleftrightarrow>
            v = JBool True \<or> v = JNum 1 \<or> v = JStr (js ''1'') \<or>
            (\<exists>s. v = JStr s \<and> (toLowerCase h s = js ''true'' \<or> toLowerCase h s = js ''t''))) \<and>
         \<not> isFijoYearly h JNull \<and> \<not> isFijoYearly h JUndefined \<and>
         \<not> isFijoYearly h (JBool False) \<and> \<not> isFijoYearly h (JStr (js ''0'')) \<and>
         (isFijoYearly h v \<longrightarrow>
            ingresoVariable (addMovement entry k (isFijoYearly h v) year amount) = ingresoVariable entry \<and>
            gastoVariable (addMovement entry k (isFijoYearly h v) year amount) = gastoVariable entry \<and>
            valueAt (ingresoFijo (addMovement entry Ingreso (isFijoYearly h v) year amount)) year =
              valueAt (ingresoFijo entry) year + amount \<and>
            valueAt (gastoFijo (addMovement entry Gasto (isFijoYearly h v) year amount)) year =
              valueAt (gastoFijo entry) year + amount) \<and>
         (\<not> isFijoYearly h v \<longrightarrow>
            ingresoFijo (addMovement entry k (isFijoYearly h v) year amount) = ingresoFijo entry \<and>
            gastoFijo (addMovement entry k (isFijoYearly h v) year amount) = gastoFijo entry \<and>
            valueAt (ingresoVariable (addMovement entry Ingreso (isFijoYearly h v) year amount)) year =
              valueAt (ingresoVariable entry) year + amount \<and>
            valueAt (gastoVariable (addMovement entry Gasto (isFijoYearly h v) year amount)) year =
              valueAt (gastoVariable entry) year + amount) \<and>
         (yearlyAccepts h sel mov y \<longrightarrow>
            yearlyStep h sel acc mov =
              \<lparr> yearsSet = setAdd (yearsSet acc) y,
                entryMap =
                  mapSet (entryMap acc) (yearlyKey mov)
                    (addMovement (priorEntry (entryMap acc) mov) (yearlyKind h mov)
                       (fijo mov = JBool True \<or> fijo mov = JNum 1 \<or> fijo mov = JStr (js ''1'') \<or>
                   (\<exists>s. fijo mov = JStr s \<and>
                      (toLowerCase h s = js ''true'' \<or> toLowerCase h s = js ''t'')))
                       y \<bar>amountOf mov\<bar>) \<rparr>) \<and>
         ((\<forall>y. \<not> yearlyAccepts h sel mov y) \<longrightarrow>
            entryMap (yearlyStep h sel acc mov) = entryMap acc)"
proof -
  note c = isFijoYearly_cases [OF assms]
  from assms have z: "toLowerCase h (js ''0'') = js ''0''"
    by (simp add: hostLabels_def)
  have lits: "js ''0'' \<noteq> js ''1''" "js ''0'' \<noteq> js ''true''" "js ''0'' \<noteq> js ''t''"
    by (simp_all add: js_def)
  have n: "\<not> isFijoYearly h JNull" "\<not> isFijoYearly h JUndefined" "\<not> isFijoYearly h (JBool False)"
    by (simp_all add: c)
  have zero: "\<not> isFijoYearly h (JStr (js ''0''))"
    by (simp add: c z lits)
  have t: "isFijoYearly h v \<longrightarrow>
            ingresoVariable (addMovement entry k (isFijoYearly h v) year amount) = ingresoVariable entry \<and>
            gastoVariable (addMovement entry k (isFijoYearly h v) year amount) = gastoVariable entry \<and>
            valueAt (ingresoFijo (addMovement entry Ingreso (isFijoYearly h v) year amount)) year =
              valueAt (ingresoFijo entry) year + amount \<and>
            valueAt (gastoFijo (addMovement entry Gasto (isFijoYearly h v) year amount)) year =
              valueAt (gastoFijo entry) year + amount"
    by (simp add: addMovement_fijo)
  have f: "\<not> isFijoYearly h v \<longrightarrow>
            ingresoFijo (addMovement entry k (isFijoYearly h v) year amount) = ingresoFijo entry \<and>
            gastoFijo (addMovement entry k (isFijoYearly h v) year amount) = gastoFijo entry \<and>
            valueAt (ingresoVariable (addMovement entry Ingreso (isFijoYearly h v) year amount)) year =
              valueAt (ingresoVariable entry) year + amount \<and>
            valueAt (gastoVariable (addMovement entry Gasto (isFijoYearly h v) year amount)) year =
              valueAt (gastoVariable entry) year + amount"
    by (simp add: addMovement_variable)
  have enc: "isFijoYearly h (fijo mov) =
      (fijo mov = JBool True \<or> fijo mov = JNum 1 \<or> fijo mov = JStr (js ''1'') \<or>
                   (\<exists>s. fijo mov = JStr s \<and>
                      (toLowerCase h s = js ''true'' \<or> toLowerCase h s = js ''t'')))"
    by (rule isFijoYearly_cases [OF assms])
  have step: "yearlyAccepts h sel mov y \<longrightarrow>
            yearlyStep h sel acc mov =
              \<lparr> yearsSet = setAdd (yearsSet acc) y,
                entryMap =
                  mapSet (entryMap acc) (yearlyKey mov)
                    (addMovement (priorEntry (entryMap acc) mov) (yearlyKind h mov)
                       (fijo mov = JBool True \<or> fijo mov = JNum 1 \<or> fijo mov = JStr (js ''1'') \<or>
                   (\<exists>s. fijo mov = JStr s \<and>
                      (toLowerCase h s = js ''true'' \<or> toLowerCase h s = js ''t'')))
                       y \<bar>amountOf mov\<bar>) \<rparr>"
    unfolding enc [symmetric] by (simp add: yearlyStep_accepted)
  have rej: "(\<forall>y. \<not> yearlyAccepts h sel mov y) \<longrightarrow>
            entryMap (yearlyStep h sel acc mov) = entryMap acc"
    by (simp add: yearlyStep_rejected)
  from c n zero t f step rej show ?thesis by blast
qed

lemma fijoTexto_facts:
  "amountOf movFijoTexto = 40" "fecha movFijoTexto = js ''2024-01-15''"
  "categoria_id movFijoTexto = Some (js ''c3'')"
  "categoria_nombre movFijoTexto = Some (js ''Comida'')"
  "fijo movFijoTexto = JStr (js ''T'')" "detalle movFijoTexto = None"
  by (simp_all add: amountOf_def movFijoTexto_def movBase_def)

lemma snacks_facts:
  "amountOf movSnacks = 10" "fecha movSnacks = js ''2024-01-15''"
  "categoria_id movSnacks = Some (js ''c3'')"
  "categoria_nombre movSnacks = Some (js ''Comida'')"
  "fijo movSnacks = JBool False" "detalle movSnacks = Some (js ''Snacks'')"
  by (simp_all add: amountOf_def movSnacks_def movBase_def)

lemma selTodo_facts:
  "selectedYearlyYear selTodo = todos" "selectedYearlyCategory selTodo = todas"
  "selectedYearlyDetail selTodo = todos"
  "showYearlyIngresos selTodo" "showYearlyGastos selTodo" "showYearlyFijos selTodo"
  "showYearlyVariables selTodo"
  by (simp_all add: selTodo_def selInicial_def)

lemma comida_accepted:
  "yearlyAccepts asciiHost selTodo movFijoTexto 2024"
  "yearlyAccepts asciiHost selTodo movSnacks 2024"
  by (simp_all add: accepts_all [OF selTodo_facts(1-3)] fijoTexto_facts snacks_facts yearOf_2024)

lemma comida_keys:
  "yearlyKey movFijoTexto = js ''c3''" "yearlyKey movSnacks = js ''c3''"
  "yearlyLabel movFijoTexto = js ''Comida''" "yearlyLabel movSnacks = js ''Comida''"
  by (simp_all add: yearlyKey_def yearlyLabel_def fijoTexto_facts snacks_facts)

lemma snacks_kind: "yearlyKind asciiHost movSnacks = Gasto"
  by (simp add: yearlyKind_def movSnacks_def movBase_def label_gasto_plain)

lemma comida_acc:
  "foldl (yearlyStep asciiHost selTodo) \<lparr> yearsSet = [], entryMap = [] \<rparr>
     [movFijoTexto, movSnacks] =
     \<lparr> yearsSet = [2024],
       entryMap =
         [(js ''c3'', (entryVacia (js ''Comida''))
             \<lparr> gastoFijo := [2024 \<mapsto> 40], gastoVariable := [2024 \<mapsto> 10] \<rparr>)] \<rparr>"
  by (simp add: yearlyStep_accepted [OF comida_accepted(1)]
      yearlyStep_accepted [OF comida_accepted(2)] comida_keys priorEntry_def mapGet_def
      fijoTexto_facts snacks_facts yearlyKind_eval snacks_kind isFijo_eval setAdd_def
      addMovement_def addTo_def valueAt_def entryVacia_def)

lemma comida_display:
  "map (\<lambda>c. (valueAt (gastoFijo c) 2024, valueAt (gastoVariable c) 2024))
     (categories (yearlyDisplay asciiHost selTodo [movFijoTexto, movSnacks])) = [(40, 10)]"
  unfolding yearlyDisplay_def comida_acc Let_def
  by (simp add: jsSort_def selTodo_facts withTotals_def yearTotals_def valueAt_def entryVacia_def)

theorem yearly_fijo_routing_witness:
  "hostLabels asciiHost \<and>
   yearlyAccepts asciiHost selTodo movFijoTexto 2024 \<and>
   fijo movFijoTexto = JStr (js ''T'') \<and>
   entryMap (yearlyStep asciiHost selTodo \<lparr> yearsSet = [], entryMap = [] \<rparr> movFijoTexto) =
     [(js ''c3'', (entryVacia (js ''Comida''))\<lparr> gastoFijo := [2024 \<mapsto> 40] \<rparr>)] \<and>
   yearlyAccepts asciiHost selTodo movSnacks 2024 \<and>
   fijo movSnacks = JBool False \<and>
   entryMap (yearlyStep asciiHost selTodo \<lparr> yearsSet = [], entryMap = [] \<rparr> movSnacks) =
     [(js ''c3'', (entryVacia (js ''Comida''))\<lparr> gastoVariable := [2024 \<mapsto> 10] \<rparr>)] \<and>
   \<not> isFijoYearly asciiHost (JStr (js ''0'')) \<and>
   map (\<lambda>c. (valueAt (gastoFijo c) 2024, valueAt (gastoVariable c) 2024))
     (categories (yearlyDisplay asciiHost selTodo [movFijoTexto, movSnacks])) = [(40, 10)]"
proof -
  note r1 = yearly_fijo_routing [OF hostLabels_asciiHost, where sel = selTodo
      and mov = movFijoTexto and y = 2024 and acc = "\<lparr> yearsSet = [], entryMap = [] \<rparr>"]
  note r2 = yearly_fijo_routing [OF hostLabels_asciiHost, where sel = selTodo
      and mov = movSnacks and y = 2024 and acc = "\<lparr> yearsSet = [], entryMap = [] \<rparr>"]
  have low: "toLowerCase asciiHost (js ''T'') = js ''t''"
    by (simp add: asciiHost_sel js_def asciiLower_def)
  from r1 comida_accepted(1)
  have "yearlyStep asciiHost selTodo \<lparr> yearsSet = [], entryMap = [] \<rparr> movFijoTexto =
      \<lparr> yearsSet = setAdd [] 2024,
        entryMap = mapSet [] (yearlyKey movFijoTexto)
          (addMovement (priorEntry [] movFijoTexto) (yearlyKind asciiHost movFijoTexto)
             (fijo movFijoTexto = JBool True \<or> fijo movFijoTexto = JNum 1 \<or>
              fijo movFijoTexto = JStr (js ''1'') \<or>
              (\<exists>s. fijo movFijoTexto = JStr s \<and>
                 (toLowerCase asciiHost s = js ''true'' \<or> toLowerCase asciiHost s = js ''t'')))
             2024 \<bar>amountOf movFijoTexto\<bar>) \<rparr>"
    by simp
  then have s1: "entryMap (yearlyStep asciiHost selTodo \<lparr> yearsSet = [], entryMap = [] \<rparr>
        movFijoTexto) =
      [(js ''c3'', (entryVacia (js ''Comida''))\<lparr> gastoFijo := [2024 \<mapsto> 40] \<rparr>)]"
    by (simp add: comida_keys priorEntry_def mapGet_def fijoTexto_facts yearlyKind_eval low
        addMovement_def addTo_def valueAt_def entryVacia_def)
  from r2 comida_accepted(2)
  have "yearlyStep asciiHost selTodo \<lparr> yearsSet = [], entryMap = [] \<rparr> movSnacks =
      \<lparr> yearsSet = setAdd [] 2024,
        entryMap = mapSet [] (yearlyKey movSnacks)
          (addMovement (priorEntry [] movSnacks) (yearlyKind asciiHost movSnacks)
             (fijo movSnacks = JBool True \<or> fijo movSnacks = JNum 1 \<or>
              fijo movSnacks = JStr (js ''1'') \<or>
              (\<exists>s. fijo movSnacks = JStr s \<and>
                 (toLowerCase asciiHost s = js ''true'' \<or> toLowerCase asciiHost s = js ''t'')))
             2024 \<bar>amountOf movSnacks\<bar>) \<rparr>"
    by simp
  then have s2: "entryMap (yearlyStep asciiHost selTodo \<lparr> yearsSet = [], entryMap = [] \<rparr>
        movSnacks) =
      [(js ''c3'', (entryVacia (js ''Comida''))\<lparr> gastoVariable := [2024 \<mapsto> 10] \<rparr>)]"
    by (simp add: comida_keys priorEntry_def mapGet_def snacks_facts snacks_kind
        addMovement_def addTo_def valueAt_def entryVacia_def)
  from r1 have z: "\<not> isFijoYearly asciiHost (JStr (js ''0''))"
    by blast
  from hostLabels_asciiHost comida_accepted s1 s2 z comida_display show ?thesis
    by (simp add: fijoTexto_facts snacks_facts)
qed

section \<open>The kind of the pivot\<close>

lemma amountOf_categoria_kind: "amountOf (mov\<lparr>categoria_kind := c\<rparr>) = amountOf mov"
  by (simp add: amountOf_def)

lemma yearlyKind_categoria_kind: "yearlyKind h (mov\<lparr>categoria_kind := c\<rparr>) = yearlyKind h mov"
  by (simp add: yearlyKind_def amountOf_categoria_kind)

lemma yearlyStep_categoria_kind:
  "yearlyStep h sel acc (mov\<lparr>categoria_kind := c\<rparr>) = yearlyStep h sel acc mov"
  by (simp add: yearlyStep_def yearlyKind_categoria_kind amountOf_categoria_kind Let_def
      cong: option.case_cong if_cong)

lemma yearlyDisplay_categoria_kind:
  "yearlyDisplay h sel (map (\<lambda>m. m\<lparr>categoria_kind := c m\<rparr>) movs) = yearlyDisplay h sel movs"
  by (simp add: yearlyDisplay_def foldl_map yearlyStep_categoria_kind)

lemma addMovement_gasto:
  "ingresoFijo (addMovement entry Gasto b year amount) = ingresoFijo entry"
  "ingresoVariable (addMovement entry Gasto b year amount) = ingresoVariable entry"
  "valueAt (if b then gastoFijo (addMovement entry Gasto b year amount)
            else gastoVariable (addMovement entry Gasto b year amount)) year =
     valueAt (if b then gastoFijo entry else gastoVariable entry) year + amount"
  by (simp_all add: addMovement_def addTo_def valueAt_def)

text \<open>
  Claim C10. The pivot takes the kind of a movement from its own \<open>tipo\<close>, and from
  the sign of the amount when \<open>tipo\<close> is not classified; \<open>categoria_kind\<close> is never
  read: changing it changes neither the kind, nor the step of the loop, nor the pivot.
  The loop of the builder adds a movement that passes its guards with that kind. So a
  movement with an unclassified \<open>tipo\<close>, a category kind that resolves to income and a
  negative amount is added by the loop to an expense series, the income series of its
  entry staying as they are, while \<open>resolveKind\<close>, and with it the classified row of
  the totals and listings, makes it an income.
\<close>

theorem yearly_kind_ignores_category:
  "yearlyKind h (mov\<lparr>categoria_kind := c\<rparr>) = yearlyKind h mov \<and>
   yearlyStep h sel acc (mov\<lparr>categoria_kind := c\<rparr>) = yearlyStep h sel acc mov \<and>
   yearlyDisplay h sel (map (\<lambda>m. m\<lparr>categoria_kind := f m\<rparr>) movs) = yearlyDisplay h sel movs \<and>
   (normalizeKindLabel h (tipo mov) = Some k \<longrightarrow> yearlyKind h mov = k) \<and>
   (normalizeKindLabel h (tipo mov) = None \<longrightarrow>
      yearlyKind h mov = (if amountOf mov < 0 then Gasto else Ingreso)) \<and>
   (normalizeKindLabel h (tipo mov) = None \<and>
    normalizeKindLabel h (categoria_kind mov) = Some Ingreso \<and> amountOf mov < 0 \<longrightarrow>
      yearlyKind h mov = Gasto \<and> resolveKind h mov = Ingreso) \<and>
   (yearlyAccepts h sel mov y \<longrightarrow>
      yearlyStep h sel acc mov =
        \<lparr> yearsSet = setAdd (yearsSet acc) y,
          entryMap =
            mapSet (entryMap acc) (yearlyKey mov)
              (addMovement (priorEntry (entryMap acc) mov)
                 (case normalizeKindLabel h (tipo mov) of
                    Some tipoKind \<Rightarrow> tipoKind
                  | None \<Rightarrow> if amountOf mov < 0 then Gasto else Ingreso)
                 (isFijoYearly h (fijo mov)) y \<bar>amountOf mov\<bar>) \<rparr>) \<and>
   (yearlyAccepts h sel mov y \<and> normalizeKindLabel h (tipo mov) = None \<and>
    normalizeKindLabel h (categoria_kind mov) = Some Ingreso \<and> amountOf mov < 0 \<longrightarrow>
      yearlyStep h sel acc mov =
        \<lparr> yearsSet = setAdd (yearsSet acc) y,
          entryMap =
            mapSet (entryMap acc) (yearlyKey mov)
              (addMovement (priorEntry (entryMap acc) mov) Gasto
                 (isFijoYearly h (fijo mov)) y \<bar>amountOf mov\<bar>) \<rparr> \<and>
      kind (withKind h mov) = Ingreso) \<and>
   ingresoFijo (addMovement entry Gasto b year amount) = ingresoFijo entry \<and>
   ingresoVariable (addMovement entry Gasto b year amount) = ingresoVariable entry \<and>
   valueAt (if b then gastoFijo (addMovement entry Gasto b year amount)
            else gastoVariable (addMovement entry Gasto b year amount)) year =
     valueAt (if b then gastoFijo entry else gastoVariable entry) year + amount"
proof -
  have inv: "yearlyKind h (mov\<lparr>categoria_kind := c\<rparr>) = yearlyKind h mov \<and>
      yearlyStep h sel acc (mov\<lparr>categoria_kind := c\<rparr>) = yearlyStep h sel acc mov \<and>
      yearlyDisplay h sel (map (\<lambda>m. m\<lparr>categoria_kind := f m\<rparr>) movs) = yearlyDisplay h sel movs"
    by (simp add: yearlyKind_categoria_kind yearlyStep_categoria_kind
        yearlyDisplay_categoria_kind)
  have rule: "(normalizeKindLabel h (tipo mov) = Some k \<longrightarrow> yearlyKind h mov = k) \<and>
      (normalizeKindLabel h (tipo mov) = None \<longrightarrow>
         yearlyKind h mov = (if amountOf mov < 0 then Gasto else Ingreso)) \<and>
      (normalizeKindLabel h (tipo mov) = None \<and>
       normalizeKindLabel h (categoria_kind mov) = Some Ingreso \<and> amountOf mov < 0 \<longrightarrow>
         yearlyKind h mov = Gasto \<and> resolveKind h mov = Ingreso)"
    by (simp add: yearlyKind_def resolveKind_def)
  have step: "yearlyStep h sel acc mov =
        \<lparr> yearsSet = setAdd (yearsSet acc) y,
          entryMap =
            mapSet (entryMap acc) (yearlyKey mov)
              (addMovement (priorEntry (entryMap acc) mov)
                 (case normalizeKindLabel h (tipo mov) of
                    Some tipoKind \<Rightarrow> tipoKind
                  | None \<Rightarrow> if amountOf mov < 0 then Gasto else Ingreso)
                 (isFijoYearly h (fijo mov)) y \<bar>amountOf mov\<bar>) \<rparr>"
    if "yearlyAccepts h sel mov y"
    using yearlyStep_accepted [OF that, of acc] by (simp add: yearlyKind_def)
  have ex: "yearlyStep h sel acc mov =
        \<lparr> yearsSet = setAdd (yearsSet acc) y,
          entryMap =
            mapSet (entryMap acc) (yearlyKey mov)
              (addMovement (priorEntry (entryMap acc) mov) Gasto
                 (isFijoYearly h (fijo mov)) y \<bar>amountOf mov\<bar>) \<rparr> \<and>
      kind (withKind h mov) = Ingreso"
    if "yearlyAccepts h sel mov y \<and> normalizeKindLabel h (tipo mov) = None \<and>
        normalizeKindLabel h (categoria_kind mov) = Some Ingreso \<and> amountOf mov < 0"
    using that step by (simp add: withKind_fields resolveKind_def)
  note g = addMovement_gasto [where entry = entry and b = b and year = year and amount = amount]
  from inv rule step ex g show ?thesis by blast
qed

lemma ingresoCat_facts:
  "amountOf movIngresoCat = - 50" "fecha movIngresoCat = js ''2024-01-15''"
  "categoria_id movIngresoCat = Some (js ''c4'')"
  "categoria_nombre movIngresoCat = Some (js ''Devoluciones'')"
  "fijo movIngresoCat = JNull" "tipo movIngresoCat = Some (js ''otro'')"
  "categoria_kind movIngresoCat = Some (js ''ingreso'')" "detalle movIngresoCat = None"
  by (simp_all add: amountOf_def movIngresoCat_def movBase_def)

lemma ingresoCat_accepted: "yearlyAccepts asciiHost selTodo movIngresoCat 2024"
  by (simp add: accepts_all [OF selTodo_facts(1-3)] ingresoCat_facts yearOf_2024)

lemma ingresoCat_keys:
  "yearlyKey movIngresoCat = js ''c4''" "yearlyLabel movIngresoCat = js ''Devoluciones''"
  by (simp_all add: yearlyKey_def yearlyLabel_def ingresoCat_facts)

lemma ingresoCat_display:
  "map (\<lambda>c. (valueAt (gastoVariable c) 2024, valueAt (ingresoVariable c) 2024))
     (categories (yearlyDisplay asciiHost selTodo [movIngresoCat])) = [(50, 0)]"
  by (simp add: yearlyDisplay_def yearlyStep_accepted [OF ingresoCat_accepted] ingresoCat_keys
      priorEntry_def mapGet_def ingresoCat_facts yearlyKind_eval isFijo_eval setAdd_def
      addMovement_def addTo_def valueAt_def entryVacia_def Let_def jsSort_def selTodo_facts
      withTotals_def yearTotals_def)

theorem yearly_kind_ignores_category_witness:
  "yearlyAccepts asciiHost selTodo movIngresoCat 2024 \<and>
   normalizeKindLabel asciiHost (tipo movIngresoCat) = None \<and>
   normalizeKindLabel asciiHost (categoria_kind movIngresoCat) = Some Ingreso \<and>
   amountOf movIngresoCat < 0 \<and>
   yearlyKind asciiHost movIngresoCat = Gasto \<and>
   resolveKind asciiHost movIngresoCat = Ingreso \<and>
   kind (withKind asciiHost movIngresoCat) = Ingreso \<and>
   entryMap (yearlyStep asciiHost selTodo \<lparr> yearsSet = [], entryMap = [] \<rparr> movIngresoCat) =
     [(js ''c4'', (entryVacia (js ''Devoluciones''))\<lparr> gastoVariable := [2024 \<mapsto> 50] \<rparr>)] \<and>
   map (\<lambda>c. (valueAt (gastoVariable c) 2024, valueAt (ingresoVariable c) 2024))
     (categories (yearlyDisplay asciiHost selTodo [movIngresoCat])) = [(50, 0)]"
proof -
  note r = yearly_kind_ignores_category [where h = asciiHost and mov = movIngresoCat
      and sel = selTodo and y = 2024 and acc = "\<lparr> yearsSet = [], entryMap = [] \<rparr>"]
  have p: "yearlyAccepts asciiHost selTodo movIngresoCat 2024 \<and>
      normalizeKindLabel asciiHost (tipo movIngresoCat) = None \<and>
      normalizeKindLabel asciiHost (categoria_kind movIngresoCat) = Some Ingreso \<and>
      amountOf movIngresoCat < 0"
    by (simp add: ingresoCat_accepted ingresoCat_facts label_otro label_ingreso)
  from r p have k: "yearlyKind asciiHost movIngresoCat = Gasto \<and>
      resolveKind asciiHost movIngresoCat = Ingreso"
    by blast
  from r p have s: "yearlyStep asciiHost selTodo \<lparr> yearsSet = [], entryMap = [] \<rparr> movIngresoCat =
      \<lparr> yearsSet = setAdd (yearsSet \<lparr> yearsSet = [], entryMap = [] \<rparr>) 2024,
        entryMap =
          mapSet (entryMap \<lparr> yearsSet = [], entryMap = [] \<rparr>) (yearlyKey movIngresoCat)
            (addMovement (priorEntry (entryMap \<lparr> yearsSet = [], entryMap = [] \<rparr>) movIngresoCat)
               Gasto (isFijoYearly asciiHost (fijo movIngresoCat)) 2024
               \<bar>amountOf movIngresoCat\<bar>) \<rparr> \<and>
      kind (withKind asciiHost movIngresoCat) = Ingreso"
    by blast
  then have e: "entryMap (yearlyStep asciiHost selTodo \<lparr> yearsSet = [], entryMap = [] \<rparr>
        movIngresoCat) =
      [(js ''c4'', (entryVacia (js ''Devoluciones''))\<lparr> gastoVariable := [2024 \<mapsto> 50] \<rparr>)]"
    by (simp add: ingresoCat_keys priorEntry_def mapGet_def ingresoCat_facts isFijo_eval
        addMovement_def addTo_def valueAt_def entryVacia_def)
  from p k s e ingresoCat_display show ?thesis by simp
qed

section \<open>The sort comparators\<close>


lemma compareMov_shape:
  "compareMov h srt = tieBreakCmp (primaryMov h srt) (\<lambda>m. \<bar>amountOf m\<bar>) (key srt = Importe)"
  by (auto simp add: compareMov_def tieBreakCmp_def Let_def fun_eq_iff)

lemma compareGrouped_shape:
  "compareGrouped h srt = tieBreakCmp (primaryGrouped h srt) g_total (key srt = Importe)"
  by (auto simp add: compareGrouped_def tieBreakCmp_def Let_def fun_eq_iff)

lemma consistentCmp_sym0: "consistentCmp c \<Longrightarrow> c a b = 0 \<Longrightarrow> c b a = 0"
  unfolding consistentCmp_def by (metis less_irrefl linorder_neqE_linordered_idom)

lemma consistentCmp_neg: "consistentCmp c \<Longrightarrow> c a b < 0 \<Longrightarrow> c b a > 0"
  unfolding consistentCmp_def by blast

lemma consistentCmp_pos: "consistentCmp c \<Longrightarrow> c a b > 0 \<Longrightarrow> c b a < 0"
  unfolding consistentCmp_def by blast

lemma consistentCmp_strict_left:
  assumes c: "consistentCmp c" and ab: "c a b < 0" and bc: "c b d \<le> 0"
  shows "c a d < 0"
proof (rule ccontr)
  assume "\<not> c a d < 0"
  then have "c d a \<le> 0"
    using consistentCmp_pos [OF c, of a d] consistentCmp_sym0 [OF c, of a d] by fastforce
  with bc have "c b a \<le> 0"
    using consistentCmp_trans [OF c] by blast
  with consistentCmp_neg [OF c ab] show False by simp
qed

lemma consistentCmp_strict_right:
  assumes c: "consistentCmp c" and ab: "c a b \<le> 0" and bc: "c b d < 0"
  shows "c a d < 0"
proof (rule ccontr)
  assume "\<not> c a d < 0"
  then have "c d a \<le> 0"
    using consistentCmp_pos [OF c, of a d] consistentCmp_sym0 [OF c, of a d] by fastforce
  with ab have "c d b \<le> 0"
    using consistentCmp_trans [OF c] by blast
  with consistentCmp_neg [OF c bc] show False by simp
qed

lemma consistentCmp_zero_trans:
  assumes c: "consistentCmp c" and ab: "c a b = 0" and bc: "c b d = 0"
  shows "c a d = 0"
proof -
  have "c a d \<le> 0"
    using consistentCmp_trans [OF c, of a b d] ab bc by simp
  moreover have "c d a \<le> 0"
    using consistentCmp_trans [OF c, of d b a] consistentCmp_sym0 [OF c ab]
      consistentCmp_sym0 [OF c bc] by simp
  ultimately show ?thesis
    using consistentCmp_neg [OF c, of a d] by fastforce
qed

lemma consistentCmp_lex:
  assumes p: "consistentCmp p" and q: "consistentCmp q"
  shows "consistentCmp (\<lambda>a b. if p a b \<noteq> 0 then p a b else q a b)"
  unfolding consistentCmp_def
proof (intro conjI allI impI)
  fix a b
  show "((if p a b \<noteq> 0 then p a b else q a b) < 0) =
        (0 < (if p b a \<noteq> 0 then p b a else q b a))"
    using consistentCmp_sym0 [OF p, of a b] consistentCmp_sym0 [OF p, of b a]
      consistentCmp_neg [OF p, of a b] consistentCmp_pos [OF p, of b a]
      consistentCmp_neg [OF q, of a b] consistentCmp_pos [OF q, of b a]
    by (cases "p a b = 0") (auto simp add: not_less)
next
  fix a b d
  assume h: "(if p a b \<noteq> 0 then p a b else q a b) \<le> 0 \<and>
             (if p b d \<noteq> 0 then p b d else q b d) \<le> 0"
  show "(if p a d \<noteq> 0 then p a d else q a d) \<le> 0"
  proof (cases "p a b = 0")
    case ab0: True
    show ?thesis
    proof (cases "p b d = 0")
      case True
      with ab0 have "p a d = 0"
        using consistentCmp_zero_trans [OF p] by blast
      moreover from ab0 True h have "q a d \<le> 0"
        using consistentCmp_trans [OF q, of a b d] by simp
      ultimately show ?thesis by simp
    next
      case False
      with h have "p b d < 0" by simp
      with ab0 have "p a d < 0"
        using consistentCmp_strict_right [OF p, of a b d] by simp
      then show ?thesis by simp
    qed
  next
    case False
    with h have ab: "p a b < 0" by simp
    from h have "p b d \<le> 0"
      by (cases "p b d = 0") simp_all
    with ab have "p a d < 0"
      using consistentCmp_strict_left [OF p] by blast
    then show ?thesis by simp
  qed
qed

lemma consistentCmp_comp: "consistentCmp c \<Longrightarrow> consistentCmp (\<lambda>a b. c (f a) (f b))"
  unfolding consistentCmp_def by blast

lemma consistentCmp_flip: "consistentCmp c \<Longrightarrow> consistentCmp (\<lambda>a b. c a b * (- 1))"
proof -
  assume c: "consistentCmp c"
  show ?thesis
    unfolding consistentCmp_def
  proof (intro conjI allI impI)
    fix a b
    show "(c a b * (- 1) < 0) = (0 < c b a * (- 1))"
      using consistentCmp_neg [OF c, of b a] consistentCmp_pos [OF c, of a b] by auto
  next
    fix a b d
    assume "c a b * (- 1) \<le> 0 \<and> c b d * (- 1) \<le> 0"
    then have "c b a \<le> 0" "c d b \<le> 0"
      using consistentCmp_pos [OF c, of a b] consistentCmp_sym0 [OF c, of a b]
        consistentCmp_pos [OF c, of b d] consistentCmp_sym0 [OF c, of b d]
      by fastforce+
    then have "c d a \<le> 0"
      using consistentCmp_trans [OF c] by blast
    then show "c a d * (- 1) \<le> 0"
      using consistentCmp_neg [OF c, of a d] by fastforce
  qed
qed



section \<open>Sorting rows paired with their input position\<close>

lemma consistentCmp_index: "consistentCmp (\<lambda>a b. real (snd a) - real (snd b))"
  by (auto simp add: consistentCmp_def)

lemma consistentCmp_tieBreak:
  assumes p: "consistentCmp p"
  shows "consistentCmp (tieBreakCmp p amt byAmount)"
proof -
  let ?P = "\<lambda>a b. p (fst a) (fst b)"
  let ?S = "\<lambda>a b. amt (fst b) - amt (fst a)"
  let ?I = "\<lambda>a b. real (snd a) - real (snd b)"
  have P: "consistentCmp ?P"
    using p by (rule consistentCmp_comp)
  have S: "consistentCmp ?S"
    by (auto simp add: consistentCmp_def)
  have SI: "consistentCmp (\<lambda>a b. if ?S a b \<noteq> 0 then ?S a b else ?I a b)"
    using S consistentCmp_index by (rule consistentCmp_lex)
  show ?thesis
  proof (cases byAmount)
    case True
    then have "tieBreakCmp p amt byAmount = (\<lambda>a b. if ?P a b \<noteq> 0 then ?P a b else ?I a b)"
      by (simp add: tieBreakCmp_def fun_eq_iff)
    then show ?thesis
      using consistentCmp_lex [OF P consistentCmp_index] by simp
  next
    case False
    then have "tieBreakCmp p amt byAmount =
        (\<lambda>a b. if ?P a b \<noteq> 0 then ?P a b else (if ?S a b \<noteq> 0 then ?S a b else ?I a b))"
      by (simp add: tieBreakCmp_def fun_eq_iff)
    then show ?thesis
      using consistentCmp_lex [OF P SI] by simp
  qed
qed

lemma jsSort_sorted_id:
  "sorted_wrt (\<lambda>a b. cmp a b \<le> 0) xs \<Longrightarrow> jsSort cmp xs = xs"
proof (induction xs)
  case Nil
  then show ?case by (simp add: jsSort_def)
next
  case (Cons x xs)
  then have "jsSort cmp xs = xs" by simp
  then have "jsSort cmp (x # xs) = jsInsert cmp x xs"
    by (simp add: jsSort_def)
  also have "\<dots> = x # xs"
    using Cons.prems by (cases xs) simp_all
  finally show ?case .
qed

lemma indexed_set:
  "(r, k) \<in> set (jsSort cmp (zip rows [0..<length rows])) \<longleftrightarrow> k < length rows \<and> rows ! k = r"
  by (auto simp add: set_jsSort set_zip)

lemma indexed_rows: "mset (map fst (jsSort cmp (zip rows [0..<length rows]))) = mset rows"
proof -
  let ?z = "zip rows [0..<length rows]"
  have "mset (map fst (jsSort cmp ?z)) = image_mset fst (mset (jsSort cmp ?z))"
    by simp
  also have "\<dots> = image_mset fst (mset ?z)"
    by (simp only: mset_jsSort)
  also have "\<dots> = mset (map fst ?z)"
    by (simp only: mset_map)
  also have "map fst ?z = rows"
    by simp
  finally show ?thesis .
qed

lemma indexed_distinct: "distinct (map snd (jsSort cmp (zip rows [0..<length rows])))"
  by (simp add: distinct_map_jsSort)

lemma tieBreak_sorted_pairs:
  assumes p: "consistentCmp p"
    and s: "s = jsSort (tieBreakCmp p amt byAmount) (zip rows [0..<length rows])"
    and ij: "i < j" "j < length s"
  shows "p (fst (s ! i)) (fst (s ! j)) \<le> 0"
    and "p (fst (s ! i)) (fst (s ! j)) = 0 \<Longrightarrow> \<not> byAmount \<Longrightarrow>
         amt (fst (s ! j)) \<le> amt (fst (s ! i)) \<and>
         (amt (fst (s ! j)) = amt (fst (s ! i)) \<longrightarrow> snd (s ! i) < snd (s ! j))"
    and "p (fst (s ! i)) (fst (s ! j)) = 0 \<Longrightarrow> byAmount \<Longrightarrow> snd (s ! i) < snd (s ! j)"
proof -
  have "sorted_wrt (\<lambda>a b. tieBreakCmp p amt byAmount a b \<le> 0) s"
    unfolding s using consistentCmp_tieBreak [OF p] by (rule sorted_jsSort)
  with ij have le: "tieBreakCmp p amt byAmount (s ! i) (s ! j) \<le> 0"
    by (simp add: sorted_wrt_iff_nth_less)
  have "distinct (map snd s)"
    unfolding s by (rule indexed_distinct)
  with ij have ne: "snd (s ! i) \<noteq> snd (s ! j)"
    by (simp add: distinct_conv_nth)
  from le show "p (fst (s ! i)) (fst (s ! j)) \<le> 0"
    by (simp add: tieBreakCmp_def split: if_splits)
  from le ne show "p (fst (s ! i)) (fst (s ! j)) = 0 \<Longrightarrow> \<not> byAmount \<Longrightarrow>
         amt (fst (s ! j)) \<le> amt (fst (s ! i)) \<and>
         (amt (fst (s ! j)) = amt (fst (s ! i)) \<longrightarrow> snd (s ! i) < snd (s ! j))"
    by (auto simp add: tieBreakCmp_def split: if_splits)
  from le ne show "p (fst (s ! i)) (fst (s ! j)) = 0 \<Longrightarrow> byAmount \<Longrightarrow> snd (s ! i) < snd (s ! j)"
    by (auto simp add: tieBreakCmp_def split: if_splits)
qed

lemma tieBreak_sorted_noop:
  assumes d: "sorted_wrt (\<lambda>a b. amt b \<le> amt a) rows"
    and p: "\<And>a b. p a b = amt b - amt a"
  shows "map fst (jsSort (tieBreakCmp p amt True) (zip rows [0..<length rows])) = rows"
proof -
  let ?z = "zip rows [0..<length rows]"
  have "tieBreakCmp p amt True (?z ! i) (?z ! j) \<le> 0" if "i < j" "j < length ?z" for i j
  proof -
    from that have i: "i < length rows" and j: "j < length rows" by simp_all
    from d that have "amt (rows ! j) \<le> amt (rows ! i)"
      by (simp add: sorted_wrt_iff_nth_less)
    with that i j show ?thesis
      by (simp add: tieBreakCmp_def p)
  qed
  then have "sorted_wrt (\<lambda>a b. tieBreakCmp p amt True a b \<le> 0) ?z"
    by (simp add: sorted_wrt_iff_nth_less)
  then have "jsSort (tieBreakCmp p amt True) ?z = ?z"
    by (rule jsSort_sorted_id)
  then show ?thesis by simp
qed

section \<open>Sorting movements and grouped rows\<close>

lemma consistentCmp_primaryMov:
  assumes "key srt = Categoria \<or> key srt = Detalle \<Longrightarrow> consistentCmp (localeCompareBase h)"
  shows "consistentCmp (primaryMov h srt)"
proof -
  have nums: "consistentCmp (\<lambda>a b. if direction srt = Desc then (f a - f b) * (- 1) else f a - f b)"
    for f :: "MovRow \<Rightarrow> real"
    using consistentCmp_asc [of f] consistentCmp_flip [OF consistentCmp_asc [of f]]
    by (cases "direction srt") simp_all
  have strs: "consistentCmp (\<lambda>a b. if direction srt = Desc
        then localeCompareBase h (g a) (g b) * (- 1) else localeCompareBase h (g a) (g b))"
    if "consistentCmp (localeCompareBase h)" for g :: "MovRow \<Rightarrow> jstring"
    using consistentCmp_comp [OF that, of g]
      consistentCmp_flip [OF consistentCmp_comp [OF that, of g]]
    by (cases "direction srt") simp_all
  show ?thesis
  proof (cases "key srt")
    case Fecha
    then have "primaryMov h srt = (\<lambda>a b. if direction srt = Desc
        then ((case dateParse h (fecha a) of None \<Rightarrow> 0 | Some t \<Rightarrow> t) -
              (case dateParse h (fecha b) of None \<Rightarrow> 0 | Some t \<Rightarrow> t)) * (- 1)
        else (case dateParse h (fecha a) of None \<Rightarrow> 0 | Some t \<Rightarrow> t) -
             (case dateParse h (fecha b) of None \<Rightarrow> 0 | Some t \<Rightarrow> t))"
      by (simp add: primaryMov_def getValueMov_def fun_eq_iff)
    with nums show ?thesis by simp
  next
    case Categoria
    then have "primaryMov h srt = (\<lambda>a b. if direction srt = Desc
        then localeCompareBase h (categoryName a) (categoryName b) * (- 1)
        else localeCompareBase h (categoryName a) (categoryName b))"
      by (simp add: primaryMov_def getValueMov_def fun_eq_iff compareText_def valueString_def)
    with strs [OF assms [OF disjI1 [OF Categoria]]] show ?thesis by simp
  next
    case Detalle
    then have "primaryMov h srt = (\<lambda>a b. if direction srt = Desc
        then localeCompareBase h (case detailText a of None \<Rightarrow> [] | Some d \<Rightarrow> d)
               (case detailText b of None \<Rightarrow> [] | Some d \<Rightarrow> d) * (- 1)
        else localeCompareBase h (case detailText a of None \<Rightarrow> [] | Some d \<Rightarrow> d)
               (case detailText b of None \<Rightarrow> [] | Some d \<Rightarrow> d))"
      by (simp add: primaryMov_def getValueMov_def fun_eq_iff compareText_def valueString_def)
    with strs [OF assms [OF disjI2 [OF Detalle]]] show ?thesis by simp
  next
    case Fijo
    then have "primaryMov h srt = (\<lambda>a b. if direction srt = Desc
        then ((if fijo a = JBool True then 1 else 0) - (if fijo b = JBool True then 1 else 0)) * (- 1)
        else (if fijo a = JBool True then 1 else 0) - (if fijo b = JBool True then 1 else 0))"
      by (simp add: primaryMov_def getValueMov_def fun_eq_iff)
    with nums show ?thesis by simp
  next
    case Importe
    then have "primaryMov h srt = (\<lambda>a b. if direction srt = Desc
        then (\<bar>amountOf a\<bar> - \<bar>amountOf b\<bar>) * (- 1) else \<bar>amountOf a\<bar> - \<bar>amountOf b\<bar>)"
      by (simp add: primaryMov_def getValueMov_def fun_eq_iff)
    with nums show ?thesis by simp
  qed
qed

lemma consistentCmp_primaryGrouped:
  assumes "key srt = Categoria \<or> key srt = Detalle \<Longrightarrow> consistentCmp (localeCompareBase h)"
  shows "consistentCmp (primaryGrouped h srt)"
proof -
  have nums: "consistentCmp (\<lambda>a b. if direction srt = Desc then (f a - f b) * (- 1) else f a - f b)"
    for f :: "GroupedRow \<Rightarrow> real"
    using consistentCmp_asc [of f] consistentCmp_flip [OF consistentCmp_asc [of f]]
    by (cases "direction srt") simp_all
  have strs: "consistentCmp (\<lambda>a b. if direction srt = Desc
        then localeCompareBase h (g a) (g b) * (- 1) else localeCompareBase h (g a) (g b))"
    if "consistentCmp (localeCompareBase h)" for g :: "GroupedRow \<Rightarrow> jstring"
    using consistentCmp_comp [OF that, of g]
      consistentCmp_flip [OF consistentCmp_comp [OF that, of g]]
    by (cases "direction srt") simp_all
  show ?thesis
  proof (cases "key srt")
    case Fecha
    then have "primaryGrouped h srt = (\<lambda>a b. if direction srt = Desc
        then (g_latestDate a - g_latestDate b) * (- 1) else g_latestDate a - g_latestDate b)"
      by (simp add: primaryGrouped_def getValueGrouped_def fun_eq_iff)
    with nums show ?thesis by simp
  next
    case Categoria
    then have "primaryGrouped h srt = (\<lambda>a b. if direction srt = Desc
        then localeCompareBase h (g_categoryName a) (g_categoryName b) * (- 1)
        else localeCompareBase h (g_categoryName a) (g_categoryName b))"
      by (simp add: primaryGrouped_def getValueGrouped_def fun_eq_iff compareText_def valueString_def)
    with strs [OF assms [OF disjI1 [OF Categoria]]] show ?thesis by simp
  next
    case Detalle
    then have "primaryGrouped h srt = (\<lambda>a b. if direction srt = Desc
        then localeCompareBase h (g_detailText a) (g_detailText b) * (- 1)
        else localeCompareBase h (g_detailText a) (g_detailText b))"
      by (simp add: primaryGrouped_def getValueGrouped_def fun_eq_iff compareText_def valueString_def)
    with strs [OF assms [OF disjI2 [OF Detalle]]] show ?thesis by simp
  next
    case Fijo
    then have "primaryGrouped h srt = (\<lambda>a b. if direction srt = Desc
        then (fijoRank (g_fijoLabel a) - fijoRank (g_fijoLabel b)) * (- 1)
        else fijoRank (g_fijoLabel a) - fijoRank (g_fijoLabel b))"
      by (simp add: primaryGrouped_def getValueGrouped_def fun_eq_iff)
    with nums show ?thesis by simp
  next
    case Importe
    then have "primaryGrouped h srt = (\<lambda>a b. if direction srt = Desc
        then (g_total a - g_total b) * (- 1) else g_total a - g_total b)"
      by (simp add: primaryGrouped_def getValueGrouped_def fun_eq_iff)
    with nums show ?thesis by simp
  qed
qed



lemma sortMovements_tie_break:
  assumes c: "key srt = Categoria \<or> key srt = Detalle \<Longrightarrow> consistentCmp (localeCompareBase h)"
  shows "sortMovements h rows srt = map fst (sortMovementsIndexed h rows srt) \<and>
    mset (sortMovements h rows srt) = mset rows \<and>
    (\<forall>i. i < length (sortMovementsIndexed h rows srt) \<longrightarrow>
       snd (sortMovementsIndexed h rows srt ! i) < length rows \<and>
       rows ! snd (sortMovementsIndexed h rows srt ! i) = fst (sortMovementsIndexed h rows srt ! i)) \<and>
    (key srt \<noteq> Importe \<longrightarrow>
       (\<forall>i j. i < j \<and> j < length (sortMovementsIndexed h rows srt) \<longrightarrow>
          primaryMov h srt (fst (sortMovementsIndexed h rows srt ! i))
            (fst (sortMovementsIndexed h rows srt ! j)) \<le> 0 \<and>
          (primaryMov h srt (fst (sortMovementsIndexed h rows srt ! i))
             (fst (sortMovementsIndexed h rows srt ! j)) = 0 \<longrightarrow>
             \<bar>amountOf (fst (sortMovementsIndexed h rows srt ! j))\<bar> \<le>
               \<bar>amountOf (fst (sortMovementsIndexed h rows srt ! i))\<bar> \<and>
             (\<bar>amountOf (fst (sortMovementsIndexed h rows srt ! j))\<bar> =
                \<bar>amountOf (fst (sortMovementsIndexed h rows srt ! i))\<bar> \<longrightarrow>
                snd (sortMovementsIndexed h rows srt ! i) <
                  snd (sortMovementsIndexed h rows srt ! j)))))"
proof -
  let ?s = "sortMovementsIndexed h rows srt"
  have s: "?s = jsSort (tieBreakCmp (primaryMov h srt) (\<lambda>m. \<bar>amountOf m\<bar>) (key srt = Importe))
              (zip rows [0..<length rows])"
    by (simp add: sortMovementsIndexed_def compareMov_shape)
  note p = consistentCmp_primaryMov [OF c]
  have a: "sortMovements h rows srt = map fst ?s"
    by (simp add: sortMovements_def)
  have b: "mset (sortMovements h rows srt) = mset rows"
    unfolding a s by (rule indexed_rows)
  have i: "snd (?s ! i) < length rows \<and> rows ! snd (?s ! i) = fst (?s ! i)"
    if "i < length ?s" for i
  proof -
    from that have "(fst (?s ! i), snd (?s ! i)) \<in> set ?s"
      by simp
    then show ?thesis
      unfolding s indexed_set by simp
  qed
  have t: "primaryMov h srt (fst (?s ! i)) (fst (?s ! j)) \<le> 0 \<and>
      (primaryMov h srt (fst (?s ! i)) (fst (?s ! j)) = 0 \<longrightarrow>
         \<bar>amountOf (fst (?s ! j))\<bar> \<le> \<bar>amountOf (fst (?s ! i))\<bar> \<and>
         (\<bar>amountOf (fst (?s ! j))\<bar> = \<bar>amountOf (fst (?s ! i))\<bar> \<longrightarrow>
            snd (?s ! i) < snd (?s ! j)))"
    if "key srt \<noteq> Importe" "i < j" "j < length ?s" for i j
    using tieBreak_sorted_pairs(1,2) [OF p s that(2,3)] that(1) by blast
  from a b i t show ?thesis by blast
qed

lemma sortGrouped_tie_break:
  assumes c: "key srt = Categoria \<or> key srt = Detalle \<Longrightarrow> consistentCmp (localeCompareBase h)"
  shows "sortGrouped h rows srt = map fst (sortGroupedIndexed h rows srt) \<and>
    mset (sortGrouped h rows srt) = mset rows \<and>
    (\<forall>i. i < length (sortGroupedIndexed h rows srt) \<longrightarrow>
       snd (sortGroupedIndexed h rows srt ! i) < length rows \<and>
       rows ! snd (sortGroupedIndexed h rows srt ! i) = fst (sortGroupedIndexed h rows srt ! i)) \<and>
    (key srt \<noteq> Importe \<longrightarrow>
       (\<forall>i j. i < j \<and> j < length (sortGroupedIndexed h rows srt) \<longrightarrow>
          primaryGrouped h srt (fst (sortGroupedIndexed h rows srt ! i))
            (fst (sortGroupedIndexed h rows srt ! j)) \<le> 0 \<and>
          (primaryGrouped h srt (fst (sortGroupedIndexed h rows srt ! i))
             (fst (sortGroupedIndexed h rows srt ! j)) = 0 \<longrightarrow>
             g_total (fst (sortGroupedIndexed h rows srt ! j)) \<le>
               g_total (fst (sortGroupedIndexed h rows srt ! i)) \<and>
             (g_total (fst (sortGroupedIndexed h rows srt ! j)) =
                g_total (fst (sortGroupedIndexed h rows srt ! i)) \<longrightarrow>
                snd (sortGroupedIndexed h rows srt ! i) <
                  snd (sortGroupedIndexed h rows srt ! j)))))"
proof -
  let ?s = "sortGroupedIndexed h rows srt"
  have s: "?s = jsSort (tieBreakCmp (primaryGrouped h srt) g_total (key srt = Importe))
              (zip rows [0..<length rows])"
    by (simp add: sortGroupedIndexed_def compareGrouped_shape)
  note p = consistentCmp_primaryGrouped [OF c]
  have a: "sortGrouped h rows srt = map fst ?s"
    by (simp add: sortGrouped_def)
  have b: "mset (sortGrouped h rows srt) = mset rows"
    unfolding a s by (rule indexed_rows)
  have i: "snd (?s ! i) < length rows \<and> rows ! snd (?s ! i) = fst (?s ! i)"
    if "i < length ?s" for i
  proof -
    from that have "(fst (?s ! i), snd (?s ! i)) \<in> set ?s"
      by simp
    then show ?thesis
      unfolding s indexed_set by simp
  qed
  have t: "primaryGrouped h srt (fst (?s ! i)) (fst (?s ! j)) \<le> 0 \<and>
      (primaryGrouped h srt (fst (?s ! i)) (fst (?s ! j)) = 0 \<longrightarrow>
         g_total (fst (?s ! j)) \<le> g_total (fst (?s ! i)) \<and>
         (g_total (fst (?s ! j)) = g_total (fst (?s ! i)) \<longrightarrow>
            snd (?s ! i) < snd (?s ! j)))"
    if "key srt \<noteq> Importe" "i < j" "j < length ?s" for i j
    using tieBreak_sorted_pairs(1,2) [OF p s that(2,3)] that(1) by blast
  from a b i t show ?thesis by blast
qed

lemma sortMovements_amount_desc_noop:
  assumes "sorted_wrt (\<lambda>a b. \<bar>amountOf b\<bar> \<le> \<bar>amountOf a\<bar>) rows"
  shows "sortMovements h rows \<lparr> key = Importe, direction = Desc \<rparr> = rows"
proof -
  have p: "primaryMov h \<lparr> key = Importe, direction = Desc \<rparr> a b = \<bar>amountOf b\<bar> - \<bar>amountOf a\<bar>"
    for a b
    by (simp add: primaryMov_def getValueMov_def)
  show ?thesis
    unfolding sortMovements_def sortMovementsIndexed_def compareMov_shape
    using tieBreak_sorted_noop [of "\<lambda>m. \<bar>amountOf m\<bar>" rows
        "primaryMov h \<lparr> key = Importe, direction = Desc \<rparr>", OF assms p]
    by simp
qed

lemma sortGrouped_amount_desc_noop:
  assumes "sorted_wrt (\<lambda>a b. g_total b \<le> g_total a) rows"
  shows "sortGrouped h rows \<lparr> key = Importe, direction = Desc \<rparr> = rows"
proof -
  have p: "primaryGrouped h \<lparr> key = Importe, direction = Desc \<rparr> a b = g_total b - g_total a"
    for a b
    by (simp add: primaryGrouped_def getValueGrouped_def)
  show ?thesis
    unfolding sortGrouped_def sortGroupedIndexed_def compareGrouped_shape
    using tieBreak_sorted_noop [of g_total rows
        "primaryGrouped h \<lparr> key = Importe, direction = Desc \<rparr>", OF assms p]
    by simp
qed



lemma codeUnitCompare_swap: "codeUnitCompare b a = - codeUnitCompare a b"
  by (induction a b rule: codeUnitCompare.induct) auto

lemma codeUnitCompare_le_trans:
  "codeUnitCompare a b \<le> 0 \<Longrightarrow> codeUnitCompare b c \<le> 0 \<Longrightarrow> codeUnitCompare a c \<le> 0"
proof (induction a c arbitrary: b rule: codeUnitCompare.induct)
  case 1
  then show ?case by simp
next
  case (2 c cs)
  then show ?case by simp
next
  case (3 a as)
  then show ?case by (cases b) (auto split: if_splits)
next
  case (4 a as c cs)
  show ?case
  proof (cases b)
    case Nil
    with "4.prems" show ?thesis by simp
  next
    case (Cons x xs)
    with "4.prems" have ax: "a \<le> x" and xc: "x \<le> c"
      by (auto split: if_splits)
    show ?thesis
    proof (cases "a < c")
      case True
      then show ?thesis by simp
    next
      case False
      with ax xc have eq: "a = x" "x = c" by simp_all
      with "4.prems" Cons have "codeUnitCompare as xs \<le> 0" "codeUnitCompare xs cs \<le> 0"
        by simp_all
      with "4.IH" False eq show ?thesis by simp
    qed
  qed
qed

lemma consistentCmp_codeUnitCompare: "consistentCmp codeUnitCompare"
  unfolding consistentCmp_def
proof (intro conjI allI impI)
  fix a b
  show "(codeUnitCompare a b < 0) = (0 < codeUnitCompare b a)"
    using codeUnitCompare_swap [of b a] by simp
next
  fix a b c
  assume "codeUnitCompare a b \<le> 0 \<and> codeUnitCompare b c \<le> 0"
  then show "codeUnitCompare a c \<le> 0"
    using codeUnitCompare_le_trans by blast
qed

lemma consistentCmp_asciiHost: "consistentCmp (localeCompareBase asciiHost)"
  unfolding asciiHost_sel using consistentCmp_codeUnitCompare by (rule consistentCmp_comp)



lemma upt_3: "[0..<3] = [0, 1, 2]"
  by (simp add: upt_rec)

lemma upt_4: "[0..<4] = [0, 1, 2, 3]"
  by (simp add: upt_rec)

lemma ejemplo_amounts:
  "amountOf (withKind asciiHost movNomina) = 1200"
  "amountOf (withKind asciiHost movVenta) = 300"
  "amountOf (withKind asciiHost movRegalo) = 50"
  by (simp_all add: amountOf_def withKind_fields ejemplo_defs)

lemma ejemplo_fijo:
  "fijo (withKind asciiHost movNomina) = JBool True"
  "fijo (withKind asciiHost movVenta) = JBool False"
  "fijo (withKind asciiHost movRegalo) = JNull"
  by (simp_all add: withKind_fields ejemplo_defs)

lemma orden_indexed:
  "sortMovementsIndexed asciiHost rowsOrden porFijo =
     [(withKind asciiHost movVenta, 1), (withKind asciiHost movRegalo, 0),
      (withKind asciiHost movNomina, 2)]"
  by (simp add: sortMovementsIndexed_def rowsOrden_def upt_3 jsSort_def compareMov_def
      primaryMov_def getValueMov_def porFijo_def ejemplo_amounts ejemplo_fijo Let_def)

lemma ejemplo_categorias:
  "categoryName (withKind asciiHost movNomina) = js ''Nomina''"
  "categoryName (withKind asciiHost movVenta) = js ''Ventas''"
  "categoryName (withKind asciiHost movRegalo) = sinCategoria"
  by (simp_all add: withKind_fields ejemplo_defs)

lemma orden_categoria:
  "sortMovementsIndexed asciiHost rowsOrden porCategoria =
     [(withKind asciiHost movNomina, 2), (withKind asciiHost movRegalo, 0),
      (withKind asciiHost movVenta, 1)]"
  by (simp add: sortMovementsIndexed_def rowsOrden_def upt_3 jsSort_def compareMov_def
      primaryMov_def getValueMov_def porCategoria_def ejemplo_categorias Let_def compareText_def
      valueString_def asciiHost_sel sinCategoria_def js_def asciiLower_def)

lemma grupos_indexed:
  "sortGroupedIndexed asciiHost gruposOrden porFijo =
     [(grupo ''Viajes'' 200 No, 1), (grupo ''Ocio'' 80 No, 0), (grupo ''Comida'' 30 Mixto, 2),
      (grupo ''Casa'' 500 Si, 3)]"
  by (simp add: sortGroupedIndexed_def gruposOrden_def upt_4 jsSort_def compareGrouped_def
      primaryGrouped_def getValueGrouped_def porFijo_def grupo_def fijoRank_def Let_def)


text \<open>
  Claim C4. The rows returned by \<open>sortMovements\<close> and by \<open>sortGrouped\<close> are the
  input rows rearranged, each paired with its input position. When the sort key is not
  the amount, any two rows of the result are in the order of the primary comparison;
  if their primary keys compare equal the earlier one has the larger or equal absolute
  amount (total, for grouped rows), and if these are equal too it has the smaller input
  position. The result is a function of the input, so the sort is deterministic, and it
  is stable. For the two text keys this needs the collation \<open>compareText\<close> to be a
  consistent ordering. Sorting a list that is already in descending order of amount by
  the amount key with direction \<open>desc\<close> returns the list unchanged.
\<close>

theorem sort_tie_break_stable:
  assumes "key srt = Categoria \<or> key srt = Detalle \<Longrightarrow> consistentCmp (localeCompareBase h)"
  shows "(sortMovements h rows srt = map fst (sortMovementsIndexed h rows srt) \<and>
    mset (sortMovements h rows srt) = mset rows \<and>
    (\<forall>i. i < length (sortMovementsIndexed h rows srt) \<longrightarrow>
       snd (sortMovementsIndexed h rows srt ! i) < length rows \<and>
       rows ! snd (sortMovementsIndexed h rows srt ! i) = fst (sortMovementsIndexed h rows srt ! i)) \<and>
    (key srt \<noteq> Importe \<longrightarrow>
       (\<forall>i j. i < j \<and> j < length (sortMovementsIndexed h rows srt) \<longrightarrow>
          primaryMov h srt (fst (sortMovementsIndexed h rows srt ! i))
            (fst (sortMovementsIndexed h rows srt ! j)) \<le> 0 \<and>
          (primaryMov h srt (fst (sortMovementsIndexed h rows srt ! i))
             (fst (sortMovementsIndexed h rows srt ! j)) = 0 \<longrightarrow>
             \<bar>amountOf (fst (sortMovementsIndexed h rows srt ! j))\<bar> \<le>
               \<bar>amountOf (fst (sortMovementsIndexed h rows srt ! i))\<bar> \<and>
             (\<bar>amountOf (fst (sortMovementsIndexed h rows srt ! j))\<bar> =
                \<bar>amountOf (fst (sortMovementsIndexed h rows srt ! i))\<bar> \<longrightarrow>
                snd (sortMovementsIndexed h rows srt ! i) <
                  snd (sortMovementsIndexed h rows srt ! j)))))) \<and>
    (sorted_wrt (\<lambda>a b. \<bar>amountOf b\<bar> \<le> \<bar>amountOf a\<bar>) rows \<longrightarrow>
       sortMovements h rows \<lparr> key = Importe, direction = Desc \<rparr> = rows) \<and>
    (sortGrouped h grows srt = map fst (sortGroupedIndexed h grows srt) \<and>
    mset (sortGrouped h grows srt) = mset grows \<and>
    (\<forall>i. i < length (sortGroupedIndexed h grows srt) \<longrightarrow>
       snd (sortGroupedIndexed h grows srt ! i) < length grows \<and>
       grows ! snd (sortGroupedIndexed h grows srt ! i) = fst (sortGroupedIndexed h grows srt ! i)) \<and>
    (key srt \<noteq> Importe \<longrightarrow>
       (\<forall>i j. i < j \<and> j < length (sortGroupedIndexed h grows srt) \<longrightarrow>
          primaryGrouped h srt (fst (sortGroupedIndexed h grows srt ! i))
            (fst (sortGroupedIndexed h grows srt ! j)) \<le> 0 \<and>
          (primaryGrouped h srt (fst (sortGroupedIndexed h grows srt ! i))
             (fst (sortGroupedIndexed h grows srt ! j)) = 0 \<longrightarrow>
             g_total (fst (sortGroupedIndexed h grows srt ! j)) \<le>
               g_total (fst (sortGroupedIndexed h grows srt ! i)) \<and>
             (g_total (fst (sortGroupedIndexed h grows srt ! j)) =
                g_total (fst (sortGroupedIndexed h grows srt ! i)) \<longrightarrow>
                snd (sortGroupedIndexed h grows srt ! i) <
                  snd (sortGroupedIndexed h grows srt ! j)))))) \<and>
    (sorted_wrt (\<lambda>a b. g_total b \<le> g_total a) grows \<longrightarrow>
       sortGrouped h grows \<lparr> key = Importe, direction = Desc \<rparr> = grows)"
  using sortMovements_tie_break [of srt h rows, OF assms]
    sortGrouped_tie_break [of srt h grows, OF assms]
    sortMovements_amount_desc_noop [of rows h] sortGrouped_amount_desc_noop [of grows h]
  by blast



theorem sort_tie_break_stable_witness:
  "consistentCmp (localeCompareBase asciiHost) \<and>
   key porFijo \<noteq> Importe \<and> key porCategoria = Categoria \<and>
   sortMovementsIndexed asciiHost rowsOrden porFijo =
     [(withKind asciiHost movVenta, 1), (withKind asciiHost movRegalo, 0),
      (withKind asciiHost movNomina, 2)] \<and>
   sortMovements asciiHost rowsOrden porFijo =
     [withKind asciiHost movVenta, withKind asciiHost movRegalo, withKind asciiHost movNomina] \<and>
   primaryMov asciiHost porFijo (withKind asciiHost movVenta) (withKind asciiHost movRegalo) = 0 \<and>
   \<bar>amountOf (withKind asciiHost movRegalo)\<bar> \<le> \<bar>amountOf (withKind asciiHost movVenta)\<bar> \<and>
   sortMovements asciiHost rowsOrden porCategoria =
     [withKind asciiHost movNomina, withKind asciiHost movRegalo, withKind asciiHost movVenta] \<and>
   sortMovements asciiHost rowsEjemplo \<lparr> key = Importe, direction = Desc \<rparr> = rowsEjemplo \<and>
   sortGrouped asciiHost gruposOrden porFijo =
     [grupo ''Viajes'' 200 No, grupo ''Ocio'' 80 No, grupo ''Comida'' 30 Mixto,
      grupo ''Casa'' 500 Si] \<and>
   sortGrouped asciiHost [grupo ''Casa'' 500 Si, grupo ''Viajes'' 200 No]
     \<lparr> key = Importe, direction = Desc \<rparr> = [grupo ''Casa'' 500 Si, grupo ''Viajes'' 200 No]"
proof -
  note t1 = sort_tie_break_stable [where h = asciiHost and srt = porFijo and rows = rowsOrden
      and grows = gruposOrden, OF consistentCmp_asciiHost]
  note t2 = sort_tie_break_stable [where h = asciiHost and srt = porFijo and rows = rowsEjemplo
      and grows = "[grupo ''Casa'' 500 Si, grupo ''Viajes'' 200 No]", OF consistentCmp_asciiHost]
  note t3 = sort_tie_break_stable [where h = asciiHost and srt = porCategoria
      and rows = rowsOrden and grows = gruposOrden, OF consistentCmp_asciiHost]
  have k: "key porFijo \<noteq> Importe" "key porCategoria = Categoria"
    by (simp_all add: porFijo_def porCategoria_def)
  from t1 have m: "sortMovements asciiHost rowsOrden porFijo =
      map fst (sortMovementsIndexed asciiHost rowsOrden porFijo)"
    by blast
  from t3 have mc: "sortMovements asciiHost rowsOrden porCategoria =
      map fst (sortMovementsIndexed asciiHost rowsOrden porCategoria)"
    by blast
  from t1 have g: "sortGrouped asciiHost gruposOrden porFijo =
      map fst (sortGroupedIndexed asciiHost gruposOrden porFijo)"
    by blast
  have p0: "primaryMov asciiHost porFijo (withKind asciiHost movVenta)
      (withKind asciiHost movRegalo) = 0"
    by (simp add: primaryMov_def getValueMov_def porFijo_def ejemplo_fijo)
  from t1 k have pair: "\<forall>i j. i < j \<and> j < length (sortMovementsIndexed asciiHost rowsOrden porFijo) \<longrightarrow>
      (primaryMov asciiHost porFijo (fst (sortMovementsIndexed asciiHost rowsOrden porFijo ! i))
         (fst (sortMovementsIndexed asciiHost rowsOrden porFijo ! j)) = 0 \<longrightarrow>
       \<bar>amountOf (fst (sortMovementsIndexed asciiHost rowsOrden porFijo ! j))\<bar> \<le>
         \<bar>amountOf (fst (sortMovementsIndexed asciiHost rowsOrden porFijo ! i))\<bar>)"
    by blast
  have amt: "\<bar>amountOf (withKind asciiHost movRegalo)\<bar> \<le> \<bar>amountOf (withKind asciiHost movVenta)\<bar>"
    using pair [rule_format, of 0 1] p0 by (simp add: orden_indexed)
  have s1: "sorted_wrt (\<lambda>a b. \<bar>amountOf b\<bar> \<le> \<bar>amountOf a\<bar>) rowsEjemplo"
    by (simp add: rowsEjemplo_def ejemplo_amounts)
  from t2 s1 have n1: "sortMovements asciiHost rowsEjemplo \<lparr> key = Importe, direction = Desc \<rparr> =
      rowsEjemplo"
    by blast
  have s2: "sorted_wrt (\<lambda>a b. g_total b \<le> g_total a)
      [grupo ''Casa'' 500 Si, grupo ''Viajes'' 200 No]"
    by (simp add: grupo_def)
  from t2 s2 have n2: "sortGrouped asciiHost [grupo ''Casa'' 500 Si, grupo ''Viajes'' 200 No]
      \<lparr> key = Importe, direction = Desc \<rparr> = [grupo ''Casa'' 500 Si, grupo ''Viajes'' 200 No]"
    by blast
  from consistentCmp_asciiHost k p0 amt n1 n2 show ?thesis
    unfolding m mc g by (simp add: orden_indexed orden_categoria grupos_indexed)
qed



section \<open>Search\<close>


lemma whole5: "wholeToString 5 = js ''5''"
  by code_simp

lemma pan_fields:
  "categoryName rowPan = js ''Comida''"
  "detailText rowPan = Some (js ''Pan  integral'')"
  "amountOf rowPan = - 5"
  by (simp_all add: rowPan_def withKind_fields movPan_def movBase_def amountOf_def detailTextOf_def
      jsTrim_def isWhiteSpace_def js_def)

lemma pan_haystack: "haystackText asciiHost rowPan = js ''Comida Pan  integral 5 5 5,00 EUR''"
  by (simp add: haystackText_def pan_fields asciiHost_sel formatCurrency_def whole5 js_def)

lemma pan_haystack_norm:
  "normalizeText asciiHost (js ''Comida Pan  integral 5 5 5,00 EUR'') =
     js ''comida pan  integral 5 5 5,00 eur''"
  by (simp add: normalizeText_def asciiHost_sel js_def asciiLower_def)

lemma pan_query_norm: "normalizeQuery asciiHost (js ''Pan  integral'') = js ''pan integral''"
  by (simp add: normalizeQuery_def normalizeText_def asciiHost_sel js_def asciiLower_def
      isWhiteSpace_def jsTrim_def)

lemma pan_haystack_query:
  "normalizeQuery asciiHost (js ''Comida Pan  integral 5 5 5,00 EUR'') =
     js ''comida pan integral 5 5 5,00 eur''"
  by (simp add: normalizeQuery_def normalizeText_def asciiHost_sel js_def asciiLower_def
      isWhiteSpace_def jsTrim_def)

lemma pan_not_found:
  "\<not> jsIncludes (js ''comida pan  integral 5 5 5,00 eur'') (js ''pan integral'')"
  by (simp add: js_def)

lemma pan_found:
  "jsIncludes (js ''comida pan integral 5 5 5,00 eur'') (js ''pan integral'')"
  by (simp add: js_def)


lemma collapseWs_blank:
  "list_all isWhiteSpace s \<Longrightarrow> collapseWs s = (if s = [] then [] else [32])"
proof (cases s)
  case Nil
  then show ?thesis by simp
next
  case (Cons c cs)
  assume "list_all isWhiteSpace s"
  with Cons have c: "isWhiteSpace c" and cs: "list_all isWhiteSpace cs"
    by simp_all
  from cs have "dropWhile isWhiteSpace cs = []"
    by (simp add: list_all_iff)
  with Cons c show ?thesis by (simp del: dropWhile_eq_Nil_conv)
qed

lemma normalizeQuery_blank:
  assumes h: "hostWhiteSpace h" and q: "list_all isWhiteSpace q"
  shows "normalizeQuery h q = []"
proof -
  from h q have "list_all isWhiteSpace (normalizeNFD h (toLowerCase h q))"
    by (simp add: hostWhiteSpace_def)
  then have "list_all isWhiteSpace (normalizeText h q)"
    by (simp add: normalizeText_def list_all_iff)
  then have "collapseWs (normalizeText h q) = [] \<or> collapseWs (normalizeText h q) = [32]"
    by (simp add: collapseWs_blank)
  then show ?thesis
    by (auto simp add: normalizeQuery_def jsTrim_def isWhiteSpace_def)
qed

lemma searched_unfold:
  "filterMovementRows h rows (normalizeQuery h q) =
     (if normalizeQuery h q = [] then rows
      else filter (\<lambda>mov. jsIncludes (normalizeText h (haystackText h mov)) (normalizeQuery h q))
             rows)"
  by (simp add: filterMovementRows_def Let_def)

text \<open>
  Claim C6, as the code has it. The search keeps exactly the rows whose haystack
  (category name, detail, and the amount as a number, as a locale number and as a
  locale currency, joined by single spaces), lower-cased and stripped of diacritics
  but with its white space left as it is, contains the query normalized by
  \<open>normalizeQuery\<close>: lower-cased, stripped of diacritics, with every run of white space
  collapsed to one space, and trimmed. A query that normalizes to the empty string
  returns the input list unchanged, and an empty or blank query is such a query.
\<close>

theorem search_filter_query_only_collapsed:
  "searchedIngresosMovs h rows q =
     (if normalizeQuery h q = [] then rows
      else filter (\<lambda>mov. jsIncludes (normalizeText h (haystackText h mov)) (normalizeQuery h q))
             rows) \<and>
   searchedGastosMovs h rows q =
     (if normalizeQuery h q = [] then rows
      else filter (\<lambda>mov. jsIncludes (normalizeText h (haystackText h mov)) (normalizeQuery h q))
             rows) \<and>
   (hostWhiteSpace h \<and> list_all isWhiteSpace q \<longrightarrow>
      searchedIngresosMovs h rows q = rows \<and> searchedGastosMovs h rows q = rows)"
proof -
  have "filterMovementRows h rows (normalizeQuery h q) = rows"
    if "hostWhiteSpace h \<and> list_all isWhiteSpace q"
    using that normalizeQuery_blank [of h q] by (simp add: filterMovementRows_def)
  then show ?thesis
    by (simp add: searchedIngresosMovs_def searchedGastosMovs_def searched_unfold)
qed

lemma hostWhiteSpace_asciiHost: "hostWhiteSpace asciiHost"
proof -
  have "isWhiteSpace c \<Longrightarrow> isWhiteSpace (asciiLower c)" for c
    by (auto simp add: isWhiteSpace_def asciiLower_def)
  then show ?thesis
    by (simp add: hostWhiteSpace_def asciiHost_sel list_all_iff)
qed

lemma blank_query: "list_all isWhiteSpace (js ''  '')"
  by (simp add: js_def isWhiteSpace_def)

lemma pan_query_upper: "normalizeQuery asciiHost (js '' PAN '') = js ''pan''"
  by (simp add: normalizeQuery_def normalizeText_def asciiHost_sel js_def asciiLower_def
      isWhiteSpace_def jsTrim_def)

lemma pan_found_upper: "jsIncludes (js ''comida pan  integral 5 5 5,00 eur'') (js ''pan'')"
  by (simp add: js_def)

theorem search_filter_query_only_collapsed_witness:
  "hostWhiteSpace asciiHost \<and> list_all isWhiteSpace (js ''  '') \<and>
   searchedIngresosMovs asciiHost [rowPan] (js ''  '') = [rowPan] \<and>
   normalizeQuery asciiHost (js '' PAN '') = js ''pan'' \<and>
   searchedIngresosMovs asciiHost [rowPan] (js '' PAN '') = [rowPan] \<and>
   searchedGastosMovs asciiHost [rowPan] (js ''Pan  integral'') = []"
proof -
  have ne: "js ''pan'' \<noteq> []" "js ''pan integral'' \<noteq> []"
    by (simp_all add: js_def)
  have b: "searchedIngresosMovs asciiHost [rowPan] (js ''  '') = [rowPan]"
    using search_filter_query_only_collapsed [of asciiHost "[rowPan]" "js ''  ''"]
      hostWhiteSpace_asciiHost blank_query
    by blast
  have u: "searchedIngresosMovs asciiHost [rowPan] (js '' PAN '') = [rowPan]"
    using search_filter_query_only_collapsed [of asciiHost "[rowPan]" "js '' PAN ''"]
    by (simp add: pan_query_upper pan_haystack pan_haystack_norm pan_found_upper ne)
  have d: "searchedGastosMovs asciiHost [rowPan] (js ''Pan  integral'') = []"
    using search_filter_query_only_collapsed [of asciiHost "[rowPan]" "js ''Pan  integral''"]
    by (simp add: pan_query_norm pan_haystack pan_haystack_norm pan_not_found ne)
  from hostWhiteSpace_asciiHost blank_query b u d show ?thesis
    by (simp add: pan_query_upper)
qed

text \<open>
  Claim C6 as it is worded does not hold of the code: the haystack's white space is
  not collapsed. A row whose detail is \<open>Pan  integral\<close>, with two spaces, is not
  found by the query \<open>Pan  integral\<close>, which is normalized to \<open>pan integral\<close>; the
  filter of the specification, which normalizes the haystack like the query, keeps it.
\<close>

theorem search_haystack_whitespace_counterexample:
  "searchedIngresosMovs asciiHost [rowPan] (js ''Pan  integral'') = [] \<and>
   specSearch asciiHost [rowPan] (js ''Pan  integral'') = [rowPan]"
proof -
  have ne: "js ''pan integral'' \<noteq> []"
    by (simp add: js_def)
  have nb: "\<not> list_all isWhiteSpace (js ''Pan  integral'')"
    by (simp add: js_def isWhiteSpace_def)
  have c: "searchedIngresosMovs asciiHost [rowPan] (js ''Pan  integral'') = []"
    by (simp add: searchedIngresosMovs_def filterMovementRows_def pan_query_norm pan_haystack
        pan_haystack_norm pan_not_found ne)
  have s: "specSearch asciiHost [rowPan] (js ''Pan  integral'') = [rowPan]"
    by (simp add: specSearch_def nb pan_query_norm pan_haystack pan_haystack_query pan_found)
  from c s show ?thesis by simp
qed


end
